(* ===== verification/LionPrelude.thy ===== *)
theory LionPrelude
  imports Main "HOL-Library.Word"
begin

text \<open>
  Shared vocabulary of the development. Rust's \<open>Result<T, E>\<close> is the sum \<open>e + t\<close>
  (\<open>Inl\<close> is \<open>Err\<close>, \<open>Inr\<close> is \<open>Ok\<close>), \<open>Option\<close> is \<open>option\<close>, a method on
  \<open>&mut self\<close> returns the new receiver. A fallible method on \<open>&mut self\<close> that makes all
  its checks before its first write returns the error or the new receiver; one that can write
  and fail afterwards returns its result paired with the receiver it leaves behind. Identifiers are 128-bit words and
  physical quantities 64-bit words, as in \<open>types/identifiers.rs\<close>. A \<open>Vec\<close> or slice is
  a list and its length a \<open>nat\<close>.
\<close>

named_theorems frame_simps \<open>fields that an operation leaves alone\<close>
named_theorems wf_intros \<open>an operation keeps a well-formedness invariant\<close>
named_theorems table_simps \<open>lookups in a table after an operation on it\<close>

section \<open>Identifiers and quantities\<close>

type_synonym u8 = "8 word"
type_synonym u16 = "16 word"
type_synonym u32 = "32 word"
type_synonym u64 = "64 word"
type_synonym u128 = "128 word"

type_synonym plugin_id = u128
type_synonym actor_id = u128
type_synonym resource_id = u128
type_synonym cap_id = u128
type_synonym workflow_id = u128
type_synonym msg_id = u128
type_synonym thread_id = u128
type_synonym time = u64
type_synonym mem_size = u64
type_synonym mem_addr = u64

section \<open>Rust integer arithmetic\<close>

definition checked_add :: "'a::len word \<Rightarrow> 'a word \<Rightarrow> 'a word option" where
  "checked_add a b = (if unat a + unat b < 2 ^ LENGTH('a) then Some (a + b) else None)"

definition saturating_add :: "'a::len word \<Rightarrow> 'a word \<Rightarrow> 'a word" where
  "saturating_add a b = (if unat a + unat b < 2 ^ LENGTH('a) then a + b else - 1)"

definition saturating_sub :: "'a::len word \<Rightarrow> 'a word \<Rightarrow> 'a word" where
  "saturating_sub a b = (if b \<le> a then a - b else 0)"

definition saturating_mul :: "'a::len word \<Rightarrow> 'a word \<Rightarrow> 'a word" where
  "saturating_mul a b = (if unat a * unat b < 2 ^ LENGTH('a) then a * b else - 1)"

lemma checked_add_Some_iff:
  "checked_add a b = Some c \<longleftrightarrow>
     unat (a :: 'a::len word) + unat b < 2 ^ LENGTH('a) \<and> c = a + b"
  by (auto simp: checked_add_def)

lemma checked_add_None_iff:
  "checked_add a b = None \<longleftrightarrow> 2 ^ LENGTH('a) \<le> unat (a :: 'a::len word) + unat b"
  by (auto simp: checked_add_def)

lemma unat_add_no_overflow:
  "unat (a :: 'a::len word) + unat b < 2 ^ LENGTH('a) \<Longrightarrow> unat (a + b) = unat a + unat b"
  by (simp add: unat_word_ariths)

lemma unat_checked_add: "checked_add a b = Some c \<Longrightarrow> unat c = unat a + unat b"
  by (auto simp: checked_add_Some_iff unat_add_no_overflow)

lemma unat_max_word: "unat (- 1 :: 'a::len word) = 2 ^ LENGTH('a) - 1"
  by (simp add: unsigned_minus_1_eq_mask mask_eq_exp_minus_1)

lemma word_max_iff: "a = - 1 \<longleftrightarrow> 2 ^ LENGTH('a) \<le> unat (a :: 'a::len word) + 1"
proof -
  have "unat a < 2 ^ LENGTH('a)" by simp
  then show ?thesis unfolding word_unat_eq_iff unat_max_word by linarith
qed

lemma checked_add_one:
  "checked_add (a :: 'a::len word) 1 = (if a = - 1 then None else Some (a + 1))"
proof (cases "LENGTH('a) = 1")
  case True
  have "unat a < 2 ^ LENGTH('a)" by simp
  with True show ?thesis by (auto simp: checked_add_def word_max_iff)
next
  case False
  then have "LENGTH('a) > 1" using len_gt_0 [where 'a = 'a] by linarith
  then show ?thesis by (auto simp: checked_add_def word_max_iff)
qed

lemma unat_saturating_add:
  "unat (saturating_add a b) = min (unat a + unat b) (2 ^ LENGTH('a) - 1)"
  for a b :: "'a::len word"
  by (auto simp: saturating_add_def unat_add_no_overflow unat_max_word)

lemma unat_saturating_mul:
  "unat (saturating_mul a b) = min (unat a * unat b) (2 ^ LENGTH('a) - 1)"
  for a b :: "'a::len word"
proof (cases "unat a * unat b < 2 ^ LENGTH('a)")
  case True
  then have "unat (a * b) = unat a * unat b" by (simp add: unat_word_ariths)
  with True show ?thesis by (simp add: saturating_mul_def)
next
  case False
  then show ?thesis by (simp add: saturating_mul_def unat_max_word)
qed

lemma unat_saturating_sub: "unat (saturating_sub a b) = unat a - unat b"
  by (auto simp: saturating_sub_def unat_sub word_le_nat_alt)

lemma unat_ucast_wide:
  "LENGTH('a) \<le> LENGTH('b) \<Longrightarrow> unat (ucast (x :: 'a::len word) :: 'b::len word) = unat x"
proof -
  assume l: "LENGTH('a) \<le> LENGTH('b)"
  have "unat x < 2 ^ LENGTH('a)" by simp
  also have "\<dots> \<le> 2 ^ LENGTH('b)" using l by (simp add: power_increasing)
  finally show ?thesis by (simp add: unsigned_ucast_eq take_bit_nat_eq_self)
qed

section \<open>Results\<close>

text \<open>The \<open>?\<close> operator on a pure result, and \<open>ok_or\<close>.\<close>

definition and_then :: "'e + 'a \<Rightarrow> ('a \<Rightarrow> 'e + 'b) \<Rightarrow> 'e + 'b" where
  "and_then r f = (case r of Inl e \<Rightarrow> Inl e | Inr x \<Rightarrow> f x)"

definition ok_or :: "'a option \<Rightarrow> 'e \<Rightarrow> 'e + 'a" where
  "ok_or x e = (case x of None \<Rightarrow> Inl e | Some v \<Rightarrow> Inr v)"

definition map_err :: "('e \<Rightarrow> 'f) \<Rightarrow> 'e + 'a \<Rightarrow> 'f + 'a" where
  "map_err f r = (case r of Inl e \<Rightarrow> Inl (f e) | Inr x \<Rightarrow> Inr x)"

definition is_ok :: "'e + 'a \<Rightarrow> bool" where
  "is_ok r \<longleftrightarrow> (case r of Inl _ \<Rightarrow> False | Inr _ \<Rightarrow> True)"

lemma and_then_simps [simp]:
  "and_then (Inl e) f = Inl e" "and_then (Inr x) f = f x"
  by (simp_all add: and_then_def)

lemma and_then_Inr_iff: "and_then r f = Inr y \<longleftrightarrow> (\<exists>x. r = Inr x \<and> f x = Inr y)"
  by (cases r) auto

lemma ok_or_simps [simp]: "ok_or None e = Inl e" "ok_or (Some v) e = Inr v"
  by (simp_all add: ok_or_def)

lemma ok_or_Inr_iff: "ok_or x e = Inr v \<longleftrightarrow> x = Some v"
  by (cases x) auto

lemma map_err_simps [simp]: "map_err f (Inl e) = Inl (f e)" "map_err f (Inr x) = Inr x"
  by (simp_all add: map_err_def)

lemma map_err_Inr_iff: "map_err f r = Inr x \<longleftrightarrow> r = Inr x"
  by (cases r) auto

lemma is_ok_simps [simp]: "is_ok (Inr x)" "\<not> is_ok (Inl e)"
  by (simp_all add: is_ok_def)

lemma is_ok_iff: "is_ok r \<longleftrightarrow> (\<exists>x. r = Inr x)"
  by (cases r) auto

lemma result_unit_cases: "r = Inr () \<longleftrightarrow> is_ok r" for r :: "'e + unit"
  by (cases r) auto

text \<open>Running a list of requests with \<open>?\<close>: the first error stops the run.\<close>

fun run_all :: "('a \<Rightarrow> 's \<Rightarrow> 'e + 's) \<Rightarrow> 'a list \<Rightarrow> 's \<Rightarrow> 'e + 's" where
  "run_all f [] s = Inr s"
| "run_all f (x # xs) s = (case f x s of Inl e \<Rightarrow> Inl e | Inr s' \<Rightarrow> run_all f xs s')"

section \<open>Lists\<close>

lemma find_Some_mem: "find P xs = Some x \<Longrightarrow> x \<in> set xs \<and> P x"
  by (induction xs) (auto split: if_splits)

lemma find_None_all: "find P xs = None \<longleftrightarrow> (\<forall>x \<in> set xs. \<not> P x)"
  by (auto simp: find_None_iff)

text \<open>\<open>find_map\<close> of an iterator: the first defined image.\<close>

fun find_map :: "('a \<Rightarrow> 'b option) \<Rightarrow> 'a list \<Rightarrow> 'b option" where
  "find_map f [] = None"
| "find_map f (x # xs) = (case f x of None \<Rightarrow> find_map f xs | Some y \<Rightarrow> Some y)"

lemma find_map_None_iff: "find_map f xs = None \<longleftrightarrow> (\<forall>x \<in> set xs. f x = None)"
  by (induction xs) (auto split: option.splits)

lemma find_map_SomeE:
  assumes "find_map f xs = Some y"
  obtains x where "x \<in> set xs" and "f x = Some y"
  using assms by (induction xs) (auto split: option.splits)

section \<open>Runs of a guarded transition function\<close>

text \<open>
  The contract between a step function and its clients: a step that succeeds keeps the
  invariant. Whole runs then keep it. The extension adds a preorder that every
  successful step respects, which is then respected between the ends of a run.
\<close>

locale guarded_system =
  fixes exec :: "'a \<Rightarrow> 's \<Rightarrow> 'e + 's" and inv :: "'s \<Rightarrow> bool"
  assumes exec_inv: "inv s \<Longrightarrow> exec a s = Inr s' \<Longrightarrow> inv s'"
begin

lemma run_inv: "inv s \<Longrightarrow> run_all exec as s = Inr s' \<Longrightarrow> inv s'"
  by (induction as arbitrary: s) (auto split: sum.splits intro: exec_inv)

lemma run_append:
  "run_all exec (as @ bs) s =
     (case run_all exec as s of Inl e \<Rightarrow> Inl e | Inr s' \<Rightarrow> run_all exec bs s')"
  by (induction as arbitrary: s) (auto split: sum.splits)

lemma run_prefix_inv:
  assumes "inv s" and "run_all exec (as @ bs) s = Inr s'"
  obtains m where "run_all exec as s = Inr m" and "inv m" and "run_all exec bs m = Inr s'"
  using assms by (auto simp: run_append split: sum.splits intro: run_inv)

end

locale preorder_system = guarded_system exec inv
  for exec :: "'a \<Rightarrow> 's \<Rightarrow> 'e + 's" and inv :: "'s \<Rightarrow> bool" +
  fixes rel :: "'s \<Rightarrow> 's \<Rightarrow> bool"
  assumes rel_refl: "rel s s"
    and rel_trans: "rel s t \<Longrightarrow> rel t u \<Longrightarrow> rel s u"
    and exec_rel: "inv s \<Longrightarrow> exec a s = Inr s' \<Longrightarrow> rel s s'"
begin

lemma run_rel: "inv s \<Longrightarrow> run_all exec as s = Inr s' \<Longrightarrow> rel s s'"
proof (induction as arbitrary: s)
  case Nil
  then show ?case by (simp add: rel_refl)
next
  case (Cons a as)
  then obtain m where m: "exec a s = Inr m" and r: "run_all exec as m = Inr s'"
    by (auto split: sum.splits)
  have "rel s m" using Cons.prems(1) m by (rule exec_rel)
  moreover have "rel m s'" using exec_inv [OF Cons.prems(1) m] r by (rule Cons.IH)
  ultimately show ?case by (rule rel_trans)
qed

end

text \<open>
  A step function refines a specification under a state mapping when, on states that keep
  the invariant, it answers what the specification answers and the mapping carries its
  new state to the specification's. Whole runs then agree, refusals included.
\<close>

locale functional_refinement = guarded_system exec inv
  for exec :: "'a \<Rightarrow> 's \<Rightarrow> 'e + 's" and inv :: "'s \<Rightarrow> bool" +
  fixes spec :: "'a \<Rightarrow> 't \<Rightarrow> 'f + 't" and abs_err :: "'e \<Rightarrow> 'f" and abs_state :: "'s \<Rightarrow> 't"
  assumes square: "inv s \<Longrightarrow> spec a (abs_state s) = map_sum abs_err abs_state (exec a s)"
begin

lemma run_square: "inv s \<Longrightarrow> run_all spec as (abs_state s) = map_sum abs_err abs_state (run_all exec as s)"
proof (induction as arbitrary: s)
  case (Cons a as)
  show ?case
  proof (cases "exec a s")
    case (Inr m)
    then show ?thesis using Cons.IH [OF exec_inv [OF Cons.prems Inr]] square [OF Cons.prems, of a] by simp
  qed (use square [OF Cons.prems, of a] in simp)
qed simp

end

lemma map_sum_Inr:
  assumes "map_sum f g x = Inr y"
  obtains z where "x = Inr z" and "g z = y"
  using assms by (cases x) simp_all

end
