(* ===== verification/LionVec.thy ===== *)
theory LionVec
  imports LionPrelude
begin

text \<open>
  The container every table of the kernel uses: a \<open>Vec<(K, V)>\<close> (or \<open>Vec<K>\<close>) kept
  sorted by key and searched with \<open>binary_search_by_key\<close> of the standard library.
  \<open>binary_search\<close> is that search (\<open>Inr i\<close> is \<open>Ok(i)\<close>, \<open>Inl p\<close> is \<open>Err(p)\<close>); on a sorted
  vector it finds the key or the position that keeps the vector sorted, which is its
  documented contract. The tables refine \<open>map_of\<close>, the key vectors refine sets. The
  standard library's \<open>BTreeMap\<close> is modelled by its sorted list of entries.
\<close>

section \<open>Binary search\<close>

function bs_loop :: "'k::linorder list \<Rightarrow> 'k \<Rightarrow> nat \<Rightarrow> nat \<Rightarrow> nat" where
  "bs_loop ks k base sz =
     (if sz > 1
      then let half = sz div 2; mid = base + half
           in bs_loop ks k (if ks ! mid > k then base else mid) (sz - half)
      else base)"
  by pat_completeness auto
termination
  by (relation "measure (\<lambda>(ks, k, base, sz). sz)") auto

declare bs_loop.simps [simp del]

definition binary_search :: "'k::linorder list \<Rightarrow> 'k \<Rightarrow> nat + nat" where
  "binary_search ks k =
     (if ks = [] then Inl 0
      else let base = bs_loop ks k 0 (length ks)
           in if ks ! base = k then Inr base
              else Inl (base + (if ks ! base < k then 1 else 0)))"

lemma bs_loop_bounds:
  "0 < sz \<Longrightarrow> base \<le> bs_loop ks k base sz \<and> bs_loop ks k base sz < base + sz"
proof (induction ks k base sz rule: bs_loop.induct)
  case (1 ks k base sz)
  show ?case
  proof (cases "sz > 1")
    case True
    define b where "b = (if ks ! (base + sz div 2) > k then base else base + sz div 2)"
    have "b \<le> bs_loop ks k b (sz - sz div 2)
        \<and> bs_loop ks k b (sz - sz div 2) < b + (sz - sz div 2)"
      using "1.IH" [OF True refl refl] True by (simp add: b_def)
    moreover have "base \<le> b" "b + (sz - sz div 2) \<le> base + sz"
      using True by (auto simp: b_def)
    ultimately show ?thesis
      using True by (simp add: bs_loop.simps [of ks k base sz] Let_def b_def)
  next
    case False
    with "1.prems" show ?thesis by (simp add: bs_loop.simps [of ks k base sz])
  qed
qed

lemma bs_loop_partition:
  assumes "sorted_wrt (<) ks" and "0 < sz" and "base + sz \<le> length ks"
    and "\<forall>j < length ks. base + sz \<le> j \<longrightarrow> k < ks ! j"
    and "base = 0 \<or> ks ! base \<le> k"
  shows "let b = bs_loop ks k base sz
         in (\<forall>j < length ks. b < j \<longrightarrow> k < ks ! j) \<and> (b = 0 \<or> ks ! b \<le> k)"
  using assms
proof (induction ks k base sz rule: bs_loop.induct)
  case (1 ks k base sz)
  show ?case
  proof (cases "sz > 1")
    case True
    let ?mid = "base + sz div 2"
    have mid: "?mid < length ks" using True "1.prems"(3) by linarith
    have rec: "bs_loop ks k base sz =
        bs_loop ks k (if ks ! ?mid > k then base else ?mid) (sz - sz div 2)"
      using True by (simp add: bs_loop.simps [of ks k base sz] Let_def)
    have up: "\<forall>j < length ks. (if ks ! ?mid > k then base else ?mid) + (sz - sz div 2) \<le> j
        \<longrightarrow> k < ks ! j"
    proof (cases "ks ! ?mid > k")
      case gt: True
      have "k < ks ! j" if "j < length ks" "base + (sz - sz div 2) \<le> j" for j
      proof -
        have "?mid \<le> j" using that(2) True by linarith
        then have "ks ! ?mid \<le> ks ! j"
          using sorted_wrt_nth_less [OF "1.prems"(1)] that(1)
          by (metis le_neq_implies_less order.order_iff_strict)
        with gt show ?thesis by simp
      qed
      with gt show ?thesis by simp
    next
      case False
      with "1.prems"(4) show ?thesis by simp
    qed
    show ?thesis
      unfolding rec
      using "1.IH" [OF True refl refl "1.prems"(1) _ _ up] "1.prems" True
      by (cases "k < ks ! ?mid") (auto simp: not_less)
  next
    case False
    then have "bs_loop ks k base sz = base" by (simp add: bs_loop.simps [of ks k base sz])
    moreover have "sz = 1" using False "1.prems"(2) by simp
    ultimately show ?thesis using "1.prems"(4,5) by simp
  qed
qed

lemma binary_search_Inr:
  "binary_search ks k = Inr i \<Longrightarrow> i < length ks \<and> ks ! i = k"
  using bs_loop_bounds [of "length ks" 0 ks k]
  by (auto simp: binary_search_def Let_def split: if_splits)

lemma binary_search_Inl:
  assumes "sorted_wrt (<) ks" and "binary_search ks k = Inl p"
  shows "p \<le> length ks" and "\<And>x. x \<in> set (take p ks) \<Longrightarrow> x < k"
    and "\<And>x. x \<in> set (drop p ks) \<Longrightarrow> k < x"
proof -
  define b where "b = bs_loop ks k 0 (length ks)"
  consider "ks = []" | "ks \<noteq> []" by blast
  then have "p \<le> length ks \<and> (\<forall>x \<in> set (take p ks). x < k) \<and> (\<forall>x \<in> set (drop p ks). k < x)"
  proof cases
    case 1
    with assms(2) show ?thesis by (simp add: binary_search_def)
  next
    case 2
    then have len: "0 < length ks" by simp
    have b: "b < length ks" using bs_loop_bounds [OF len, of 0 ks k] by (simp add: b_def)
    have part: "\<forall>j < length ks. b < j \<longrightarrow> k < ks ! j" "b = 0 \<or> ks ! b \<le> k"
      using bs_loop_partition [OF assms(1) len, of 0 k] by (simp_all add: b_def Let_def)
    have p: "p = b + (if ks ! b < k then 1 else 0)" and ne: "ks ! b \<noteq> k"
      using assms(2) 2 by (auto simp: binary_search_def b_def Let_def split: if_splits)
    have below: "ks ! j < k" if "j < p" for j
    proof -
      have "j \<le> b" "ks ! b < k" using that p part(2) ne by (auto split: if_splits)
      moreover have "ks ! j \<le> ks ! b"
        using sorted_wrt_nth_less [OF assms(1)] \<open>j \<le> b\<close> b
        by (metis le_neq_implies_less order.order_iff_strict)
      ultimately show ?thesis by simp
    qed
    have above: "k < ks ! j" if "p \<le> j" "j < length ks" for j
      using that p part ne by (cases "j = b") (auto split: if_splits)
    have "p \<le> length ks" using b p by simp
    moreover have "x < k" if "x \<in> set (take p ks)" for x
      using that below by (auto simp: in_set_conv_nth)
    moreover have "k < x" if x: "x \<in> set (drop p ks)" for x
    proof -
      obtain j where "j < length ks - p" "x = ks ! (p + j)"
        using x \<open>p \<le> length ks\<close> by (auto simp: in_set_conv_nth)
      then show ?thesis using above [of "p + j"] by simp
    qed
    ultimately show ?thesis by blast
  qed
  then show "p \<le> length ks" "\<And>x. x \<in> set (take p ks) \<Longrightarrow> x < k"
    "\<And>x. x \<in> set (drop p ks) \<Longrightarrow> k < x" by auto
qed

lemma binary_search_Inl_notin:
  "sorted_wrt (<) ks \<Longrightarrow> binary_search ks k = Inl p \<Longrightarrow> k \<notin> set ks"
  using binary_search_Inl(2,3) [of ks k p] by (metis Un_iff append_take_drop_id less_irrefl set_append)

lemma binary_search_ok_iff:
  assumes "sorted_wrt (<) ks"
  shows "(\<exists>i. binary_search ks k = Inr i) \<longleftrightarrow> k \<in> set ks"
proof (cases "binary_search ks k")
  case (Inl p)
  then show ?thesis using binary_search_Inl_notin [OF assms] by simp
next
  case (Inr i)
  then show ?thesis using binary_search_Inr [of ks k i] by auto
qed

section \<open>Sorted key vectors\<close>

definition kv_contains :: "'k::linorder list \<Rightarrow> 'k \<Rightarrow> bool" where
  "kv_contains ks k = (case binary_search ks k of Inr _ \<Rightarrow> True | Inl _ \<Rightarrow> False)"

definition kv_insert :: "'k::linorder list \<Rightarrow> 'k \<Rightarrow> 'k list" where
  "kv_insert ks k = (case binary_search ks k of Inr _ \<Rightarrow> ks | Inl p \<Rightarrow> take p ks @ k # drop p ks)"

definition kv_remove :: "'k::linorder list \<Rightarrow> 'k \<Rightarrow> 'k list" where
  "kv_remove ks k = (case binary_search ks k of Inr i \<Rightarrow> take i ks @ drop (Suc i) ks | Inl _ \<Rightarrow> ks)"

lemma sorted_take_drop_insert:
  assumes "sorted_wrt (<) ks" and "\<And>x. x \<in> set (take p ks) \<Longrightarrow> x < (k::'k::linorder)"
    and "\<And>x. x \<in> set (drop p ks) \<Longrightarrow> k < x"
  shows "sorted_wrt (<) (take p ks @ k # drop p ks)"
proof -
  have "sorted_wrt (<) (take p ks @ drop p ks)" using assms(1) by simp
  then have "sorted_wrt (<) (take p ks)" "sorted_wrt (<) (drop p ks)"
    "\<forall>x \<in> set (take p ks). \<forall>y \<in> set (drop p ks). x < y"
    by (auto simp only: sorted_wrt_append)
  with assms(2,3) show ?thesis by (auto simp: sorted_wrt_append)
qed

lemma kv_contains_iff: "sorted_wrt (<) ks \<Longrightarrow> kv_contains ks k \<longleftrightarrow> k \<in> set ks"
  using binary_search_ok_iff [of ks k] by (auto simp: kv_contains_def split: sum.splits)

lemma kv_contains_sound: "kv_contains ks k \<Longrightarrow> k \<in> set ks"
  by (auto simp: kv_contains_def split: sum.splits dest: binary_search_Inr)

lemma kv_insert_sorted: "sorted_wrt (<) ks \<Longrightarrow> sorted_wrt (<) (kv_insert ks k)"
  by (auto simp: kv_insert_def split: sum.splits
      intro: sorted_take_drop_insert binary_search_Inl(2,3))

lemma set_take_drop: "set (take p xs @ x # drop p xs) = insert x (set xs)"
  by (metis Un_insert_right append_take_drop_id list.simps(15) set_append)

lemma kv_insert_set: "set (kv_insert ks k) = insert k (set ks)"
proof (cases "binary_search ks k")
  case (Inl p)
  then show ?thesis by (simp add: kv_insert_def set_take_drop del: set_append)
next
  case (Inr i)
  then show ?thesis using binary_search_Inr [OF Inr] by (auto simp: kv_insert_def)
qed

lemma kv_remove_split:
  assumes "binary_search ks k = Inr i"
  shows "ks = take i ks @ k # drop (Suc i) ks"
  using binary_search_Inr [OF assms] by (metis id_take_nth_drop)

lemma kv_remove_props:
  assumes "sorted_wrt (<) ks"
  shows "sorted_wrt (<) (kv_remove ks k) \<and> set (kv_remove ks k) = set ks - {k}"
proof (cases "binary_search ks k")
  case (Inl p)
  then show ?thesis
    using assms binary_search_Inl_notin [OF assms Inl] by (simp add: kv_remove_def)
next
  case (Inr i)
  let ?l = "take i ks" and ?r = "drop (Suc i) ks"
  have e: "ks = ?l @ k # ?r" by (rule kv_remove_split [OF Inr])
  then have "sorted_wrt (<) (?l @ k # ?r)" using assms by simp
  then have s: "sorted_wrt (<) (?l @ ?r)" "k \<notin> set ?l" "k \<notin> set ?r"
    by (auto simp: sorted_wrt_append)
  have "set ks = insert k (set ?l \<union> set ?r)" by (subst e) simp
  with s Inr show ?thesis by (auto simp: kv_remove_def)
qed

lemma kv_remove_sorted: "sorted_wrt (<) ks \<Longrightarrow> sorted_wrt (<) (kv_remove ks k)"
  by (simp add: kv_remove_props)

lemma kv_remove_set: "sorted_wrt (<) ks \<Longrightarrow> set (kv_remove ks k) = set ks - {k}"
  by (simp add: kv_remove_props)

lemma remdups_adj_strict: "sorted xs \<Longrightarrow> sorted_wrt (<) (remdups_adj xs)" for xs :: "'a::linorder list"
  by (induction xs rule: remdups_adj.induct) (auto simp: less_le_trans order.not_eq_order_implies_strict)

lemma remdups_adj_sort_strict: "sorted_wrt (<) (remdups_adj (sort xs))"
  by (simp add: remdups_adj_strict)

section \<open>Sorted tables\<close>

type_synonym ('k, 'v) table = "('k \<times> 'v) list"

definition tb_find :: "('k::linorder, 'v) table \<Rightarrow> 'k \<Rightarrow> nat option" where
  "tb_find t k = (case binary_search (map fst t) k of Inr i \<Rightarrow> Some i | Inl _ \<Rightarrow> None)"

definition tb_insert_pos :: "('k::linorder, 'v) table \<Rightarrow> 'k \<Rightarrow> nat \<times> bool" where
  "tb_insert_pos t k = (case binary_search (map fst t) k of Inr i \<Rightarrow> (i, True) | Inl p \<Rightarrow> (p, False))"

definition tb_get :: "('k::linorder, 'v) table \<Rightarrow> 'k \<Rightarrow> 'v option" where
  "tb_get t k = map_option (\<lambda>i. snd (t ! i)) (tb_find t k)"

text \<open>\<open>Vec::insert\<close> and writing through the mutable reference a lookup returns.\<close>

definition vec_insert :: "'a list \<Rightarrow> nat \<Rightarrow> 'a \<Rightarrow> 'a list" where
  "vec_insert xs p x = take p xs @ x # drop p xs"

definition tb_modify :: "('k::linorder, 'v) table \<Rightarrow> 'k \<Rightarrow> ('v \<Rightarrow> 'v) \<Rightarrow> ('k, 'v) table" where
  "tb_modify t k f =
     (case tb_find t k of None \<Rightarrow> t | Some i \<Rightarrow> t[i := (fst (t ! i), f (snd (t ! i)))])"

definition tb_upsert :: "('k::linorder, 'v) table \<Rightarrow> 'k \<Rightarrow> 'v \<Rightarrow> ('k, 'v) table" where
  "tb_upsert t k v =
     (case binary_search (map fst t) k of
        Inr i \<Rightarrow> t[i := (fst (t ! i), v)]
      | Inl p \<Rightarrow> vec_insert t p (k, v))"

abbreviation sorted_table :: "('k::linorder, 'v) table \<Rightarrow> bool" where
  "sorted_table t \<equiv> sorted_wrt (<) (map fst t)"

lemma sorted_table_distinct: "sorted_table t \<Longrightarrow> distinct (map fst t)"
  by (induction t) auto

lemma tb_find_Some: "tb_find t k = Some i \<Longrightarrow> i < length t \<and> fst (t ! i) = k"
  using binary_search_Inr [of "map fst t" k i] by (auto simp: tb_find_def split: sum.splits)

lemma tb_find_None: "sorted_table t \<Longrightarrow> tb_find t k = None \<longleftrightarrow> k \<notin> fst ` set t"
  using binary_search_ok_iff [of "map fst t" k] by (auto simp: tb_find_def split: sum.splits)

lemma tb_get_mem: "tb_get t k = Some v \<Longrightarrow> (k, v) \<in> set t"
  by (simp add: tb_get_def) (metis nth_mem prod.collapse tb_find_Some)

lemma tb_get_map_of: "sorted_table t \<Longrightarrow> tb_get t k = map_of t k"
proof (cases "tb_find t k")
  case None
  assume "sorted_table t"
  with None have "map_of t k = None" by (simp add: tb_find_None map_of_eq_None_iff)
  with None show ?thesis by (simp add: tb_get_def)
next
  case (Some i)
  assume s: "sorted_table t"
  have "(k, snd (t ! i)) \<in> set t"
    using tb_find_Some [OF Some] by (metis nth_mem prod.collapse)
  with s have "map_of t k = Some (snd (t ! i))" by (simp add: sorted_table_distinct)
  with Some show ?thesis by (simp add: tb_get_def)
qed

lemma tb_get_iff: "sorted_table t \<Longrightarrow> tb_get t k = Some v \<longleftrightarrow> (k, v) \<in> set t"
  by (simp add: tb_get_map_of sorted_table_distinct)

lemma tb_get_None_iff: "sorted_table t \<Longrightarrow> tb_get t k = None \<longleftrightarrow> k \<notin> fst ` set t"
  by (simp add: tb_get_map_of map_of_eq_None_iff)

lemma tb_insert_pos_exists: "snd (tb_insert_pos t k) \<longleftrightarrow> tb_get t k \<noteq> None"
  by (auto simp: tb_insert_pos_def tb_get_def tb_find_def split: sum.splits)

lemma vec_insert_map: "map f (vec_insert xs p x) = vec_insert (map f xs) p (f x)"
  by (simp add: vec_insert_def take_map drop_map)

lemma set_vec_insert: "set (vec_insert xs p x) = insert x (set xs)"
  by (simp add: vec_insert_def set_take_drop del: set_append)

lemma length_vec_insert: "length (vec_insert xs p x) = Suc (length xs)"
  by (simp add: vec_insert_def)

lemma tb_insert_sorted:
  assumes "sorted_table t" and "tb_get t k = None"
  shows "sorted_table (vec_insert t (fst (tb_insert_pos t k)) (k, v))"
proof -
  obtain p where p: "binary_search (map fst t) k = Inl p"
    using assms(2) by (auto simp: tb_get_def tb_find_def split: sum.splits)
  have "sorted_wrt (<) (take p (map fst t) @ k # drop p (map fst t))"
    using assms(1) binary_search_Inl(2,3) [OF assms(1) p] by (rule sorted_take_drop_insert)
  then show ?thesis
    using p by (simp add: vec_insert_map tb_insert_pos_def) (simp add: vec_insert_def)
qed

lemma tb_insert_get:
  assumes "sorted_table t" and "tb_get t k = None"
  shows "tb_get (vec_insert t (fst (tb_insert_pos t k)) (k, v)) j =
           (if j = k then Some v else tb_get t j)"
proof -
  let ?t' = "vec_insert t (fst (tb_insert_pos t k)) (k, v)"
  have s: "sorted_table ?t'" by (rule tb_insert_sorted [OF assms])
  have fresh: "k \<notin> fst ` set t" using assms by (simp add: tb_get_None_iff)
  show ?thesis
  proof (cases "j = k")
    case True
    then show ?thesis using s by (simp add: tb_get_iff set_vec_insert)
  next
    case False
    have "(tb_get ?t' j = Some u) = (tb_get t j = Some u)" for u
      using s assms(1) False by (simp add: tb_get_iff set_vec_insert)
    with False show ?thesis by (metis not_Some_eq)
  qed
qed

lemma tb_modify_keys [simp]: "map fst (tb_modify t k f) = map fst t"
  by (auto simp: tb_modify_def map_update split: option.splits)
    (metis list_update_id map_update nth_map tb_find_Some)

lemma length_tb_modify [simp]: "length (tb_modify t k f) = length t"
  by (simp add: tb_modify_def split: option.splits)

lemma tb_find_cong: "map fst t = map fst u \<Longrightarrow> tb_find t k = tb_find u k"
  by (simp add: tb_find_def)

lemma tb_modify_get:
  "tb_get (tb_modify t k f) j = (if j = k then map_option f (tb_get t j) else tb_get t j)"
proof (cases "tb_find t k")
  case None
  then show ?thesis by (simp add: tb_modify_def tb_get_def)
next
  case (Some i)
  have f: "tb_find (tb_modify t k f) j = tb_find t j" by (rule tb_find_cong) simp
  show ?thesis
  proof (cases "tb_find t j")
    case None
    with f Some show ?thesis by (auto simp: tb_get_def)
  next
    case j: (Some i')
    have k: "fst (t ! i) = k" and j': "fst (t ! i') = j" "i' < length t"
      using tb_find_Some [OF Some] tb_find_Some [OF j] by simp_all
    have "i = i' \<longleftrightarrow> j = k"
    proof
      assume "i = i'"
      with k j'(1) show "j = k" by metis
    next
      assume "j = k"
      with Some j show "i = i'" by simp
    qed
    with f j Some j'(2) show ?thesis
      by (cases "j = k") (simp_all add: tb_get_def tb_modify_def nth_list_update)
  qed
qed

lemma tb_modify_mem:
  assumes "sorted_table t"
  shows "(j, u) \<in> set (tb_modify t k f) \<longleftrightarrow>
    (\<exists>v. (j, v) \<in> set t \<and> u = (if j = k then f v else v))"
proof -
  have "(j, u) \<in> set (tb_modify t k f) \<longleftrightarrow> tb_get (tb_modify t k f) j = Some u"
    using assms by (simp add: tb_get_iff)
  also have "\<dots> \<longleftrightarrow> (\<exists>v. tb_get t j = Some v \<and> u = (if j = k then f v else v))"
    by (auto simp: tb_modify_get)
  finally show ?thesis using assms by (simp add: tb_get_iff)
qed

lemma tb_upsert_eq_modify: "tb_get t k \<noteq> None \<Longrightarrow> tb_upsert t k v = tb_modify t k (\<lambda>_. v)"
  by (auto simp: tb_upsert_def tb_modify_def tb_get_def tb_find_def split: sum.splits)

lemma tb_upsert_eq_insert:
  "tb_get t k = None \<Longrightarrow> tb_upsert t k v = vec_insert t (fst (tb_insert_pos t k)) (k, v)"
  by (auto simp: tb_upsert_def tb_insert_pos_def tb_get_def tb_find_def split: sum.splits)

lemma tb_upsert_sorted: "sorted_table t \<Longrightarrow> sorted_table (tb_upsert t k v)"
  by (cases "tb_get t k = None") (simp_all add: tb_upsert_eq_modify tb_upsert_eq_insert tb_insert_sorted)

lemma tb_upsert_get:
  "sorted_table t \<Longrightarrow> tb_get (tb_upsert t k v) j = (if j = k then Some v else tb_get t j)"
  by (cases "tb_get t k = None")
    (auto simp: tb_upsert_eq_modify tb_upsert_eq_insert tb_insert_get tb_modify_get)

lemmas table_laws = tb_get_iff tb_insert_sorted tb_insert_get tb_modify_get tb_upsert_sorted tb_upsert_get

lemma table_Nil [simp]:
  "tb_get [] k = None" "tb_find [] k = None" "tb_insert_pos [] k = (0, False)"
  "tb_upsert [] k v = [(k, v)]" "tb_modify [] k f = []"
  "\<not> kv_contains [] k" "kv_insert [] k = [k]" "vec_insert [] 0 x = [x]"
  by (simp_all add: tb_get_def tb_find_def tb_insert_pos_def tb_upsert_def tb_modify_def
      kv_contains_def kv_insert_def binary_search_def vec_insert_def)

text \<open>Evaluation of the searches on concrete vectors.\<close>

lemmas table_eval = tb_get_def tb_find_def tb_insert_pos_def tb_upsert_def tb_modify_def
  kv_contains_def kv_insert_def vec_insert_def binary_search_def bs_loop.simps

end
