(* ===== verification/LionWorkflow.thy ===== *)
theory LionWorkflow
  imports LionVec
begin

text \<open>
  Workflows (\<open>state/workflow.rs\<close>): \<open>workflow_def\<close> is the static graph with its precomputed
  adjacency lists and node index, \<open>workflow_instance\<close> the run of one with dense node states,
  retry budgets and aggregate counters. Machine counters keep their widths (\<open>u32\<close> for the
  counters, \<open>u16\<close> for retries, \<open>u64\<close> for the measure); the increments wrap as in a release
  build, and the invariant \<open>wi_wf\<close> shows that they never do.
  \<open>sort_unstable_by_key\<close> is a sort: the order it leaves among equal keys is only visible
  for a node list with duplicates.
\<close>

section \<open>Data\<close>

datatype node_state = Pending | Active | Completed | Failed

datatype workflow_status = Running | Success | Failure

datatype workflow_error =
  NodeNotFound u64
| InvalidTransition u64 node_state node_state
| TimedOut
| DependenciesNotSatisfied u64 "u64 list"

definition status_is_running :: "workflow_status \<Rightarrow> bool" where
  "status_is_running s \<longleftrightarrow> s = Running"

definition status_is_terminal :: "workflow_status \<Rightarrow> bool" where
  "status_is_terminal s \<longleftrightarrow> s = Success \<or> s = Failure"

definition node_is_pending :: "node_state \<Rightarrow> bool" where
  "node_is_pending s \<longleftrightarrow> s = Pending"

definition node_is_active :: "node_state \<Rightarrow> bool" where
  "node_is_active s \<longleftrightarrow> s = Active"

definition node_is_completed :: "node_state \<Rightarrow> bool" where
  "node_is_completed s \<longleftrightarrow> s = Completed"

definition node_is_terminal :: "node_state \<Rightarrow> bool" where
  "node_is_terminal s \<longleftrightarrow> s = Completed \<or> s = Failed"

record edge =
  eg_source :: u64
  eg_target :: u64

record workflow_def =
  wd_nodes :: "u64 list"
  wd_edges :: "edge list"
  wd_predecessors :: "u64 list list"
  wd_successors :: "u64 list list"
  wd_node_to_index :: "(u64, nat) table"

record workflow_instance =
  wi_def :: workflow_def
  wi_status :: workflow_status
  wi_node_states :: "node_state list"
  wi_retries :: "u16 list"
  wi_timeout_at :: time
  wi_pending_ct :: u32
  wi_active_ct :: u32
  wi_failed_ct :: u32

section \<open>Definitions: adjacency and lookup\<close>

definition node_index :: "workflow_def \<Rightarrow> u64 \<Rightarrow> nat option" where
  "node_index d n =
     (case binary_search (map fst (wd_node_to_index d)) n of
        Inr pos \<Rightarrow> Some (snd (wd_node_to_index d ! pos))
      | Inl _ \<Rightarrow> None)"

definition push_at :: "'a list list \<Rightarrow> nat \<Rightarrow> 'a \<Rightarrow> 'a list list" where
  "push_at xs i v = xs[i := xs ! i @ [v]]"

definition add_edge :: "edge \<Rightarrow> workflow_def \<Rightarrow> workflow_def" where
  "add_edge e d =
     (case (node_index d (eg_source e), node_index d (eg_target e)) of
        (Some src, Some tgt) \<Rightarrow>
          d\<lparr>wd_predecessors := push_at (wd_predecessors d) tgt (eg_source e),
            wd_successors := push_at (wd_successors d) src (eg_target e)\<rparr>
      | _ \<Rightarrow> d)"

definition build_adjacency :: "workflow_def \<Rightarrow> workflow_def" where
  "build_adjacency d =
     (let n = length (wd_nodes d);
          d1 = d\<lparr>wd_predecessors := replicate n [], wd_successors := replicate n [],
                 wd_node_to_index := sort_key fst (zip (wd_nodes d) [0..<n])\<rparr>
      in fold add_edge (wd_edges d) d1)"

definition workflow_def_new :: "u64 list \<Rightarrow> edge list \<Rightarrow> workflow_def" where
  "workflow_def_new nodes edges =
     build_adjacency \<lparr>wd_nodes = nodes, wd_edges = edges, wd_predecessors = [],
                      wd_successors = [], wd_node_to_index = []\<rparr>"

fun check_edges :: "u64 list \<Rightarrow> edge list \<Rightarrow> workflow_error + unit" where
  "check_edges nodes [] = Inr ()"
| "check_edges nodes (e # es) =
     (if \<not> is_ok (binary_search nodes (eg_source e)) then Inl (NodeNotFound (eg_source e))
      else if \<not> is_ok (binary_search nodes (eg_target e)) then Inl (NodeNotFound (eg_target e))
      else check_edges nodes es)"

definition workflow_def_validated :: "u64 list \<Rightarrow> edge list \<Rightarrow> workflow_error + workflow_def" where
  "workflow_def_validated nodes0 edges =
     (let nodes = remdups_adj (sort nodes0)
      in and_then (check_edges nodes edges)
           (\<lambda>_. Inr (build_adjacency \<lparr>wd_nodes = nodes, wd_edges = edges, wd_predecessors = [],
                                     wd_successors = [], wd_node_to_index = []\<rparr>)))"

definition require_node :: "workflow_def \<Rightarrow> u64 \<Rightarrow> workflow_error + nat" where
  "require_node d n = ok_or (node_index d n) (NodeNotFound n)"

definition is_source :: "workflow_def \<Rightarrow> u64 \<Rightarrow> bool" where
  "is_source d n = (case node_index d n of Some i \<Rightarrow> wd_predecessors d ! i = [] | None \<Rightarrow> True)"

definition is_sink :: "workflow_def \<Rightarrow> u64 \<Rightarrow> bool" where
  "is_sink d n = (case node_index d n of Some i \<Rightarrow> wd_successors d ! i = [] | None \<Rightarrow> True)"

definition dependencies :: "workflow_def \<Rightarrow> u64 \<Rightarrow> u64 list" where
  "dependencies d n = (case node_index d n of Some i \<Rightarrow> wd_predecessors d ! i | None \<Rightarrow> [])"

definition dependents :: "workflow_def \<Rightarrow> u64 \<Rightarrow> u64 list" where
  "dependents d n = (case node_index d n of Some i \<Rightarrow> wd_successors d ! i | None \<Rightarrow> [])"

definition contains_node :: "workflow_def \<Rightarrow> u64 \<Rightarrow> bool" where
  "contains_node d n \<longleftrightarrow> node_index d n \<noteq> None"

section \<open>Instances\<close>

definition instance_new :: "workflow_def \<Rightarrow> time \<Rightarrow> u64 \<Rightarrow> workflow_instance" where
  "instance_new d timeout max_retries =
     (let n = length (wd_nodes d);
          retry_val = (if max_retries > 65535 then 65535 else ucast max_retries)
      in \<lparr>wi_def = d, wi_status = Running, wi_node_states = replicate n Pending,
          wi_retries = replicate n retry_val, wi_timeout_at = timeout,
          wi_pending_ct = of_nat n, wi_active_ct = 0, wi_failed_ct = 0\<rparr>)"

definition instance_running :: "time \<Rightarrow> workflow_instance" where
  "instance_running timeout =
     \<lparr>wi_def = \<lparr>wd_nodes = [], wd_edges = [], wd_predecessors = [], wd_successors = [],
                wd_node_to_index = []\<rparr>,
      wi_status = Running, wi_node_states = [], wi_retries = [], wi_timeout_at = timeout,
      wi_pending_ct = 0, wi_active_ct = 0, wi_failed_ct = 0\<rparr>"

definition get_node_state :: "workflow_instance \<Rightarrow> u64 \<Rightarrow> node_state" where
  "get_node_state w n =
     (case node_index (wi_def w) n of Some i \<Rightarrow> wi_node_states w ! i | None \<Rightarrow> Pending)"

definition wi_is_running :: "workflow_instance \<Rightarrow> bool" where
  "wi_is_running w = status_is_running (wi_status w)"

definition wi_is_pending :: "workflow_instance \<Rightarrow> u64 \<Rightarrow> bool" where
  "wi_is_pending w n = node_is_pending (get_node_state w n)"

definition wi_is_active :: "workflow_instance \<Rightarrow> u64 \<Rightarrow> bool" where
  "wi_is_active w n = node_is_active (get_node_state w n)"

definition pending_count :: "workflow_instance \<Rightarrow> nat" where
  "pending_count w = unat (wi_pending_ct w)"

definition active_count :: "workflow_instance \<Rightarrow> nat" where
  "active_count w = unat (wi_active_ct w)"

definition wi_is_terminal :: "workflow_instance \<Rightarrow> bool" where
  "wi_is_terminal w \<longleftrightarrow> wi_pending_ct w = 0 \<and> wi_active_ct w = 0"

definition wi_has_failure :: "workflow_instance \<Rightarrow> bool" where
  "wi_has_failure w \<longleftrightarrow> wi_failed_ct w > 0"

definition get_retries :: "workflow_instance \<Rightarrow> u64 \<Rightarrow> u64" where
  "get_retries w n =
     (case node_index (wi_def w) n of Some i \<Rightarrow> ucast (wi_retries w ! i) | None \<Rightarrow> 0)"

fun deps_loop :: "workflow_instance \<Rightarrow> u64 list \<Rightarrow> bool" where
  "deps_loop w [] = True"
| "deps_loop w (p # ps) =
     (case node_index (wi_def w) p of
        Some i \<Rightarrow> if \<not> node_is_completed (wi_node_states w ! i) then False else deps_loop w ps
      | None \<Rightarrow> deps_loop w ps)"

definition dependencies_satisfied :: "workflow_instance \<Rightarrow> u64 \<Rightarrow> bool" where
  "dependencies_satisfied w n =
     (case node_index (wi_def w) n of
        Some i \<Rightarrow> deps_loop w (wd_predecessors (wi_def w) ! i)
      | None \<Rightarrow> True)"

fun unsatisfied_loop :: "workflow_instance \<Rightarrow> u64 list \<Rightarrow> u64 list \<Rightarrow> u64 list" where
  "unsatisfied_loop w [] acc = acc"
| "unsatisfied_loop w (p # ps) acc =
     (case node_index (wi_def w) p of
        Some i \<Rightarrow> if \<not> node_is_completed (wi_node_states w ! i)
                  then unsatisfied_loop w ps (acc @ [p]) else unsatisfied_loop w ps acc
      | None \<Rightarrow> unsatisfied_loop w ps (acc @ [p]))"

definition transition :: "workflow_instance \<Rightarrow> nat \<Rightarrow> node_state \<Rightarrow> workflow_instance" where
  "transition w idx new_state =
     (let old = wi_node_states w ! idx;
          w1 = (case old of
                  Pending \<Rightarrow> w\<lparr>wi_pending_ct := saturating_sub (wi_pending_ct w) 1\<rparr>
                | Active \<Rightarrow> w\<lparr>wi_active_ct := saturating_sub (wi_active_ct w) 1\<rparr>
                | Failed \<Rightarrow> w\<lparr>wi_failed_ct := saturating_sub (wi_failed_ct w) 1\<rparr>
                | Completed \<Rightarrow> w);
          w2 = (case new_state of
                  Pending \<Rightarrow> w1\<lparr>wi_pending_ct := wi_pending_ct w1 + 1\<rparr>
                | Active \<Rightarrow> w1\<lparr>wi_active_ct := wi_active_ct w1 + 1\<rparr>
                | Failed \<Rightarrow> w1\<lparr>wi_failed_ct := wi_failed_ct w1 + 1\<rparr>
                | Completed \<Rightarrow> w1)
      in w2\<lparr>wi_node_states := (wi_node_states w2)[idx := new_state]\<rparr>)"

definition update_workflow_status :: "workflow_instance \<Rightarrow> workflow_instance" where
  "update_workflow_status w =
     (if wi_is_terminal w
      then if wi_has_failure w then w\<lparr>wi_status := Failure\<rparr> else w\<lparr>wi_status := Success\<rparr>
      else w)"

definition start_node :: "workflow_instance \<Rightarrow> u64 \<Rightarrow> workflow_error + workflow_instance" where
  "start_node w n = and_then (require_node (wi_def w) n) (\<lambda>idx.
     let state = wi_node_states w ! idx
     in if \<not> node_is_pending state then Inl (InvalidTransition n state Active)
        else if \<not> dependencies_satisfied w n
        then Inl (DependenciesNotSatisfied n
               (unsatisfied_loop w (wd_predecessors (wi_def w) ! idx) []))
        else Inr (transition w idx Active))"

definition complete_node :: "workflow_instance \<Rightarrow> u64 \<Rightarrow> workflow_error + workflow_instance" where
  "complete_node w n = and_then (require_node (wi_def w) n) (\<lambda>idx.
     let state = wi_node_states w ! idx
     in if \<not> node_is_active state then Inl (InvalidTransition n state Completed)
        else Inr (update_workflow_status (transition w idx Completed)))"

definition fail_node :: "workflow_instance \<Rightarrow> u64 \<Rightarrow> workflow_error + workflow_instance" where
  "fail_node w n = and_then (require_node (wi_def w) n) (\<lambda>idx.
     let state = wi_node_states w ! idx
     in if \<not> node_is_active state then Inl (InvalidTransition n state Failed)
        else let retries = wi_retries w ! idx
             in if retries > 0
                then let w1 = transition w idx Pending
                     in Inr (w1\<lparr>wi_retries := (wi_retries w1)[idx := retries - 1]\<rparr>)
                else Inr ((transition w idx Failed)\<lparr>wi_status := Failure\<rparr>))"

definition apply_timeout :: "workflow_instance \<Rightarrow> workflow_instance" where
  "apply_timeout w = w\<lparr>wi_status := Failure\<rparr>"

definition wi_measure :: "workflow_instance \<Rightarrow> time \<Rightarrow> u64" where
  "wi_measure w now =
     (let time_left = saturating_sub (wi_timeout_at w) now;
          pending = ucast (wi_pending_ct w) :: u64;
          active = ucast (wi_active_ct w) :: u64;
          retries_remaining = fold (\<lambda>r acc. saturating_add acc (ucast r)) (wi_retries w) (0 :: u64)
      in saturating_add
           (saturating_add
             (saturating_add time_left (saturating_mul pending 1000))
             (saturating_mul active 100))
           (saturating_mul retries_remaining 1000))"

section \<open>The graph\<close>

lemma node_index_tb: "node_index d n = tb_get (wd_node_to_index d) n"
  by (simp add: node_index_def tb_get_def tb_find_def split: sum.splits)

lemma add_edge_frame [simp]:
  "wd_nodes (add_edge e d) = wd_nodes d" "wd_edges (add_edge e d) = wd_edges d"
  "wd_node_to_index (add_edge e d) = wd_node_to_index d"
  "length (wd_predecessors (add_edge e d)) = length (wd_predecessors d)"
  "length (wd_successors (add_edge e d)) = length (wd_successors d)"
  by (auto simp: add_edge_def push_at_def split: option.splits)

lemma add_edge_index [simp]: "node_index (add_edge e d) = node_index d"
  by (simp add: fun_eq_iff node_index_tb)

lemma fold_add_edge_frame [simp]:
  "wd_nodes (fold add_edge es d) = wd_nodes d" "wd_edges (fold add_edge es d) = wd_edges d"
  "wd_node_to_index (fold add_edge es d) = wd_node_to_index d"
  "node_index (fold add_edge es d) = node_index d"
  "length (wd_predecessors (fold add_edge es d)) = length (wd_predecessors d)"
  "length (wd_successors (fold add_edge es d)) = length (wd_successors d)"
  by (induction es arbitrary: d) simp_all

definition into :: "workflow_def \<Rightarrow> nat \<Rightarrow> edge \<Rightarrow> bool" where
  "into d i e \<longleftrightarrow> node_index d (eg_target e) = Some i \<and> node_index d (eg_source e) \<noteq> None"

definition out_of :: "workflow_def \<Rightarrow> nat \<Rightarrow> edge \<Rightarrow> bool" where
  "out_of d i e \<longleftrightarrow> node_index d (eg_source e) = Some i \<and> node_index d (eg_target e) \<noteq> None"

lemma add_edge_lists:
  "i < length (wd_predecessors d) \<Longrightarrow> wd_predecessors (add_edge e d) ! i =
     wd_predecessors d ! i @ (if into d i e then [eg_source e] else [])"
  "i < length (wd_successors d) \<Longrightarrow> wd_successors (add_edge e d) ! i =
     wd_successors d ! i @ (if out_of d i e then [eg_target e] else [])"
  by (auto simp: add_edge_def into_def out_of_def push_at_def nth_list_update split: option.splits)

lemma add_edge_into [simp]: "into (add_edge e d) = into d" "out_of (add_edge e d) = out_of d"
  by (auto simp: into_def out_of_def fun_eq_iff)

lemma fold_add_edge_preds:
  "i < length (wd_predecessors d) \<Longrightarrow> wd_predecessors (fold add_edge es d) ! i =
     wd_predecessors d ! i @ map eg_source (filter (into d i) es)"
  by (induction es arbitrary: d) (simp_all add: add_edge_lists)

lemma fold_add_edge_succs:
  "i < length (wd_successors d) \<Longrightarrow> wd_successors (fold add_edge es d) ! i =
     wd_successors d ! i @ map eg_target (filter (out_of d i) es)"
  by (induction es arbitrary: d) (simp_all add: add_edge_lists)

lemma sort_key_table:
  "distinct (map fst t) \<Longrightarrow> sorted_table (sort_key fst t) \<and> set (sort_key fst t) = set t"
proof -
  assume d: "distinct (map fst t)"
  have "distinct (map fst (sort_key fst t))" using d by (simp add: distinct_map)
  then show ?thesis by (simp add: strict_sorted_iff)
qed

definition wd_wf :: "workflow_def \<Rightarrow> bool" where
  "wd_wf d \<longleftrightarrow> distinct (wd_nodes d) \<and> d = workflow_def_new (wd_nodes d) (wd_edges d)"

lemma workflow_def_new_frame [simp]:
  "wd_nodes (workflow_def_new ns es) = ns" "wd_edges (workflow_def_new ns es) = es"
  "length (wd_predecessors (workflow_def_new ns es)) = length ns"
  "length (wd_successors (workflow_def_new ns es)) = length ns"
  by (simp_all add: workflow_def_new_def build_adjacency_def Let_def)

lemma node_index_new:
  assumes "distinct ns"
  shows "node_index (workflow_def_new ns es) n = Some i \<longleftrightarrow> i < length ns \<and> ns ! i = n"
proof -
  let ?t = "zip ns [0..<length ns]"
  have s: "sorted_table (sort_key fst ?t)" "set (sort_key fst ?t) = set ?t"
    using sort_key_table [of ?t] assms by simp_all
  have "node_index (workflow_def_new ns es) n = tb_get (sort_key fst ?t) n"
    by (simp add: workflow_def_new_def build_adjacency_def Let_def node_index_tb)
  with s show ?thesis by (auto simp: tb_get_iff in_set_zip)
qed

lemma node_index_new_None:
  "distinct ns \<Longrightarrow> node_index (workflow_def_new ns es) n = None \<longleftrightarrow> n \<notin> set ns"
  using node_index_new [of ns es n] by (auto simp: in_set_conv_nth simp flip: not_Some_eq)

lemma adjacency_new:
  assumes "distinct ns" and "i < length ns"
  shows "wd_predecessors (workflow_def_new ns es) ! i =
      map eg_source (filter (\<lambda>e. eg_source e \<in> set ns \<and> eg_target e = ns ! i) es)"
    and "wd_successors (workflow_def_new ns es) ! i =
      map eg_target (filter (\<lambda>e. eg_target e \<in> set ns \<and> eg_source e = ns ! i) es)"
proof -
  let ?d = "workflow_def_new ns es"
  define d0 where "d0 = \<lparr>wd_nodes = ns, wd_edges = es, wd_predecessors = replicate (length ns) [],
    wd_successors = replicate (length ns) [], wd_node_to_index = sort_key fst (zip ns [0..<length ns])\<rparr>"
  have d: "?d = fold add_edge es d0"
    by (simp add: workflow_def_new_def build_adjacency_def d0_def Let_def)
  have ix: "node_index d0 = node_index ?d" by (simp add: d)
  have "into d0 i = (\<lambda>e. eg_source e \<in> set ns \<and> eg_target e = ns ! i)"
    using assms node_index_new_None [OF assms(1), of es]
    by (auto simp: into_def ix node_index_new)
  moreover have "out_of d0 i = (\<lambda>e. eg_target e \<in> set ns \<and> eg_source e = ns ! i)"
    using assms node_index_new_None [OF assms(1), of es]
    by (auto simp: out_of_def ix node_index_new)
  moreover have "length (wd_predecessors d0) = length ns" "length (wd_successors d0) = length ns"
    "wd_predecessors d0 ! i = []" "wd_successors d0 ! i = []"
    using assms(2) by (simp_all add: d0_def)
  ultimately show "wd_predecessors ?d ! i =
      map eg_source (filter (\<lambda>e. eg_source e \<in> set ns \<and> eg_target e = ns ! i) es)"
    "wd_successors ?d ! i =
      map eg_target (filter (\<lambda>e. eg_target e \<in> set ns \<and> eg_source e = ns ! i) es)"
    using assms(2) by (simp_all add: d fold_add_edge_preds fold_add_edge_succs)
qed

lemma wd_wf_index: "wd_wf d \<Longrightarrow> node_index d n = Some i \<longleftrightarrow> i < length (wd_nodes d) \<and> wd_nodes d ! i = n"
  by (metis node_index_new wd_wf_def)

lemma wd_wf_index_None: "wd_wf d \<Longrightarrow> node_index d n = None \<longleftrightarrow> n \<notin> set (wd_nodes d)"
  by (metis node_index_new_None wd_wf_def)

lemma workflow_def_new_wf: "distinct ns \<Longrightarrow> wd_wf (workflow_def_new ns es)"
  by (simp add: wd_wf_def)

lemma dependencies_eq:
  assumes "wd_wf d" and "n \<in> set (wd_nodes d)"
  shows "dependencies d n =
    map eg_source (filter (\<lambda>e. eg_source e \<in> set (wd_nodes d) \<and> eg_target e = n) (wd_edges d))"
proof -
  obtain i where i: "i < length (wd_nodes d)" "wd_nodes d ! i = n"
    using assms(2) by (auto simp: in_set_conv_nth)
  then have "node_index d n = Some i" using wd_wf_index [OF assms(1)] by simp
  moreover have "d = workflow_def_new (wd_nodes d) (wd_edges d)" "distinct (wd_nodes d)"
    using assms(1) by (simp_all add: wd_wf_def)
  ultimately show ?thesis
    using adjacency_new(1) [of "wd_nodes d" i "wd_edges d"] i by (simp add: dependencies_def)
qed

lemma dependents_eq:
  assumes "wd_wf d" and "n \<in> set (wd_nodes d)"
  shows "dependents d n =
    map eg_target (filter (\<lambda>e. eg_target e \<in> set (wd_nodes d) \<and> eg_source e = n) (wd_edges d))"
proof -
  obtain i where i: "i < length (wd_nodes d)" "wd_nodes d ! i = n"
    using assms(2) by (auto simp: in_set_conv_nth)
  then have "node_index d n = Some i" using wd_wf_index [OF assms(1)] by simp
  moreover have "d = workflow_def_new (wd_nodes d) (wd_edges d)" "distinct (wd_nodes d)"
    using assms(1) by (simp_all add: wd_wf_def)
  ultimately show ?thesis
    using adjacency_new(2) [of "wd_nodes d" i "wd_edges d"] i by (simp add: dependents_def)
qed

lemma check_edges_ok:
  "sorted_wrt (<) ns \<Longrightarrow> check_edges ns es = Inr () \<longleftrightarrow>
     (\<forall>e \<in> set es. eg_source e \<in> set ns \<and> eg_target e \<in> set ns)"
  by (induction es) (auto simp: is_ok_iff binary_search_ok_iff)

lemma check_edges_err:
  "sorted_wrt (<) ns \<Longrightarrow> check_edges ns es = Inl x \<Longrightarrow>
     \<exists>n. x = NodeNotFound n \<and> n \<notin> set ns \<and> (\<exists>e \<in> set es. n = eg_source e \<or> n = eg_target e)"
  by (induction es) (auto simp: is_ok_iff binary_search_ok_iff split: if_splits)

section \<open>Counters and well-formedness\<close>

lemma count_list_update_add:
  "i < length xs \<Longrightarrow> count_list (xs[i := v]) x + (if xs ! i = x then 1 else 0) =
     count_list xs x + (if v = x then 1 else 0)"
proof (induction xs arbitrary: i)
  case (Cons y xs)
  show ?case
  proof (cases i)
    case (Suc j)
    then show ?thesis using Cons.IH [of j] Cons.prems by (simp split: if_splits)
  qed simp
qed simp

lemma count_list_update:
  "i < length xs \<Longrightarrow> count_list (xs[i := v]) x =
     (if v = x then 1 else 0) + (count_list xs x - (if xs ! i = x then 1 else 0))
   \<and> (xs ! i = x \<longrightarrow> 0 < count_list xs x)"
proof -
  assume i: "i < length xs"
  then have "xs ! i = x \<longrightarrow> 0 < count_list xs x" by (auto simp: count_list_0_iff intro!: gr0I)
  then show ?thesis using count_list_update_add [OF i, of v x] by (auto split: if_splits)
qed

definition counts_ok :: "workflow_instance \<Rightarrow> bool" where
  "counts_ok w \<longleftrightarrow> length (wi_node_states w) < 2 ^ 32
     \<and> unat (wi_pending_ct w) = count_list (wi_node_states w) Pending
     \<and> unat (wi_active_ct w) = count_list (wi_node_states w) Active
     \<and> unat (wi_failed_ct w) = count_list (wi_node_states w) Failed"

definition wi_wf :: "workflow_instance \<Rightarrow> bool" where
  "wi_wf w \<longleftrightarrow> wd_wf (wi_def w) \<and> counts_ok w
     \<and> length (wi_node_states w) = length (wd_nodes (wi_def w))
     \<and> length (wi_retries w) = length (wd_nodes (wi_def w))"

definition bump :: "u32 \<Rightarrow> bool \<Rightarrow> bool \<Rightarrow> u32" where
  "bump c dec inc = (let c1 = (if dec then saturating_sub c 1 else c) in if inc then c1 + 1 else c1)"

lemma transition_fields [simp]:
  "wi_def (transition w i v) = wi_def w" "wi_status (transition w i v) = wi_status w"
  "wi_retries (transition w i v) = wi_retries w" "wi_timeout_at (transition w i v) = wi_timeout_at w"
  "wi_node_states (transition w i v) = (wi_node_states w)[i := v]"
  by (auto simp: transition_def Let_def split: node_state.splits)

lemma transition_counters:
  "wi_pending_ct (transition w i v) = bump (wi_pending_ct w) (wi_node_states w ! i = Pending) (v = Pending)"
  "wi_active_ct (transition w i v) = bump (wi_active_ct w) (wi_node_states w ! i = Active) (v = Active)"
  "wi_failed_ct (transition w i v) = bump (wi_failed_ct w) (wi_node_states w ! i = Failed) (v = Failed)"
  by (cases "wi_node_states w ! i"; cases v; simp add: transition_def bump_def)+

lemma bump_count:
  assumes "unat c = count_list xs x" and "i < length xs" and "length xs < 2 ^ 32"
  shows "unat (bump c (xs ! i = x) (v = x)) = count_list (xs[i := v]) x"
proof -
  define c1 where "c1 = (if xs ! i = x then saturating_sub c 1 else c)"
  have c1: "unat c1 = count_list xs x - (if xs ! i = x then 1 else 0)"
    using assms(1) by (simp add: c1_def unat_saturating_sub)
  have "count_list (xs[i := v]) x \<le> length xs"
    using count_le_length [of "xs[i := v]" x] by simp
  then have "v = x \<Longrightarrow> unat c1 + 1 < 2 ^ 32"
    using count_list_update [OF assms(2), of v x] c1 assms(3) by simp
  then have "v = x \<Longrightarrow> unat (c1 + 1) = unat c1 + 1"
    using unat_add_no_overflow [of c1 1] by simp
  then show ?thesis
    using count_list_update [OF assms(2), of v x] c1 by (simp add: bump_def c1_def [symmetric] Let_def)
qed

lemma transition_counts_ok:
  "counts_ok w \<Longrightarrow> i < length (wi_node_states w) \<Longrightarrow> counts_ok (transition w i v)"
  by (simp add: counts_ok_def transition_counters bump_count)

lemma require_node_Inr: "require_node d n = Inr i \<longleftrightarrow> node_index d n = Some i"
  by (simp add: require_node_def ok_or_Inr_iff)

lemma update_status_fields [simp]:
  "wi_def (update_workflow_status w) = wi_def w"
  "wi_retries (update_workflow_status w) = wi_retries w"
  "wi_timeout_at (update_workflow_status w) = wi_timeout_at w"
  "wi_node_states (update_workflow_status w) = wi_node_states w"
  "wi_pending_ct (update_workflow_status w) = wi_pending_ct w"
  "wi_active_ct (update_workflow_status w) = wi_active_ct w"
  "wi_failed_ct (update_workflow_status w) = wi_failed_ct w"
  by (simp_all add: update_workflow_status_def)

text \<open>The three operations on success.\<close>

lemma start_node_Inr:
  "start_node w n = Inr w' \<longleftrightarrow> (\<exists>i. node_index (wi_def w) n = Some i \<and> wi_node_states w ! i = Pending
     \<and> dependencies_satisfied w n \<and> w' = transition w i Active)"
  by (auto simp: start_node_def and_then_Inr_iff require_node_Inr node_is_pending_def Let_def split: if_splits)

lemma complete_node_Inr:
  "complete_node w n = Inr w' \<longleftrightarrow> (\<exists>i. node_index (wi_def w) n = Some i \<and> wi_node_states w ! i = Active
     \<and> w' = update_workflow_status (transition w i Completed))"
  by (auto simp: complete_node_def and_then_Inr_iff require_node_Inr node_is_active_def Let_def split: if_splits)

lemma fail_node_Inr:
  "fail_node w n = Inr w' \<longleftrightarrow> (\<exists>i. node_index (wi_def w) n = Some i \<and> wi_node_states w ! i = Active
     \<and> w' = (if wi_retries w ! i > 0
             then (transition w i Pending)\<lparr>wi_retries := (wi_retries w)[i := wi_retries w ! i - 1]\<rparr>
             else (transition w i Failed)\<lparr>wi_status := Failure\<rparr>))"
  by (cases "node_index (wi_def w) n")
    (simp_all add: fail_node_def require_node_def node_is_active_def Let_def eq_commute [of w'])

lemma wi_wf_index:
  "wi_wf w \<Longrightarrow> node_index (wi_def w) n = Some i \<Longrightarrow> i < length (wi_node_states w) \<and> i < length (wi_retries w)"
  by (simp add: wi_wf_def wd_wf_index)

lemma wi_wf_transition: "wi_wf w \<Longrightarrow> i < length (wi_node_states w) \<Longrightarrow> wi_wf (transition w i v)"
  by (simp add: wi_wf_def transition_counts_ok)

lemma wi_wf_cong:
  "wi_wf w \<Longrightarrow> wi_def w' = wi_def w \<Longrightarrow> wi_node_states w' = wi_node_states w \<Longrightarrow>
   length (wi_retries w') = length (wi_retries w) \<Longrightarrow> wi_pending_ct w' = wi_pending_ct w \<Longrightarrow>
   wi_active_ct w' = wi_active_ct w \<Longrightarrow> wi_failed_ct w' = wi_failed_ct w \<Longrightarrow> wi_wf w'"
  by (simp add: wi_wf_def counts_ok_def)

lemma wi_wf_start: "wi_wf w \<Longrightarrow> start_node w n = Inr w' \<Longrightarrow> wi_wf w'"
  by (auto simp: start_node_Inr dest: wi_wf_index intro: wi_wf_transition)

lemma wi_wf_complete: "wi_wf w \<Longrightarrow> complete_node w n = Inr w' \<Longrightarrow> wi_wf w'"
proof -
  assume w: "wi_wf w" and "complete_node w n = Inr w'"
  then obtain i where i: "node_index (wi_def w) n = Some i"
    and w': "w' = update_workflow_status (transition w i Completed)"
    by (auto simp: complete_node_Inr)
  have "wi_wf (transition w i Completed)" using w wi_wf_index [OF w i] by (simp add: wi_wf_transition)
  then show ?thesis unfolding w' by (rule wi_wf_cong) simp_all
qed

lemma wi_wf_fail: "wi_wf w \<Longrightarrow> fail_node w n = Inr w' \<Longrightarrow> wi_wf w'"
proof -
  assume w: "wi_wf w" and "fail_node w n = Inr w'"
  then obtain i where i: "node_index (wi_def w) n = Some i"
    and w': "w' = (if wi_retries w ! i > 0
       then (transition w i Pending)\<lparr>wi_retries := (wi_retries w)[i := wi_retries w ! i - 1]\<rparr>
       else (transition w i Failed)\<lparr>wi_status := Failure\<rparr>)"
    by (auto simp: fail_node_Inr)
  have "wi_wf (transition w i v)" for v using w wi_wf_index [OF w i] by (simp add: wi_wf_transition)
  from wi_wf_cong [OF this] show ?thesis
    unfolding w' by (cases "wi_retries w ! i > 0") simp_all
qed

lemma wi_wf_timeout: "wi_wf w \<Longrightarrow> wi_wf (apply_timeout w)"
  by (rule wi_wf_cong [of w]) (simp_all add: apply_timeout_def)

lemma count_list_replicate: "count_list (replicate n x) y = (if x = y then n else 0)"
  by (induction n) auto

lemma wi_wf_new:
  assumes "wd_wf d" and "length (wd_nodes d) < 2 ^ 32"
  shows "wi_wf (instance_new d t m)"
  using assms
  by (simp add: wi_wf_def counts_ok_def instance_new_def Let_def count_list_replicate unat_of_nat)

section \<open>Runs of a workflow\<close>

datatype wf_op = StartOp u64 | CompleteOp u64 | FailOp u64

fun wf_exec :: "wf_op \<Rightarrow> workflow_instance \<Rightarrow> workflow_error + workflow_instance" where
  "wf_exec (StartOp n) w = start_node w n"
| "wf_exec (CompleteOp n) w = complete_node w n"
| "wf_exec (FailOp n) w = fail_node w n"

fun op_node :: "wf_op \<Rightarrow> u64" where
  "op_node (StartOp n) = n" | "op_node (CompleteOp n) = n" | "op_node (FailOp n) = n"

text \<open>What every successful operation does: one node moves along the state machine.\<close>

definition node_step :: "node_state \<Rightarrow> node_state \<Rightarrow> bool" where
  "node_step a b \<longleftrightarrow> a = Pending \<and> b = Active \<or> a = Active \<and> b \<noteq> Active"

definition retries_total :: "workflow_instance \<Rightarrow> nat" where
  "retries_total w = sum_list (map unat (wi_retries w))"

lemma wf_exec_moves:
  assumes "wi_wf w" and "wf_exec op w = Inr w'"
  obtains i v where "node_index (wi_def w) (op_node op) = Some i" and "i < length (wi_node_states w)"
    and "wi_def w' = wi_def w" and "wi_timeout_at w' = wi_timeout_at w"
    and "wi_node_states w' = (wi_node_states w)[i := v]" and "node_step (wi_node_states w ! i) v"
    and "v = Active \<Longrightarrow> dependencies_satisfied w (op_node op)"
    and "retries_total w' + (if v = Pending then 1 else 0) = retries_total w"
proof (cases op)
  case (StartOp n)
  with assms show ?thesis
    by (auto simp: start_node_Inr node_step_def retries_total_def dest: wi_wf_index intro!: that)
next
  case (CompleteOp n)
  with assms show ?thesis
    by (auto simp: complete_node_Inr node_step_def retries_total_def dest: wi_wf_index intro!: that)
next
  case (FailOp n)
  with assms obtain i where i: "node_index (wi_def w) n = Some i" "wi_node_states w ! i = Active"
    and w': "w' = (if wi_retries w ! i > 0
       then (transition w i Pending)\<lparr>wi_retries := (wi_retries w)[i := wi_retries w ! i - 1]\<rparr>
       else (transition w i Failed)\<lparr>wi_status := Failure\<rparr>)"
    by (auto simp: fail_node_Inr)
  have l: "i < length (wi_node_states w)" "i < length (wi_retries w)"
    using wi_wf_index [OF assms(1) i(1)] by simp_all
  show ?thesis
  proof (cases "wi_retries w ! i > 0")
    case True
    let ?r = "wi_retries w ! i"
    have r: "unat (?r - 1) + 1 = unat ?r" "unat ?r \<ge> 1"
      using True by (simp_all add: unat_sub word_le_nat_alt word_less_nat_alt)
    have mem: "unat ?r \<le> sum_list (map unat (wi_retries w))"
      using l(2) by (intro member_le_sum_list) auto
    have "retries_total w' + 1 = retries_total w"
      using True l(2) r mem by (simp add: w' retries_total_def map_update sum_list_update)
    with True i l FailOp show ?thesis
      by (intro that [of i Pending]) (simp_all add: w' node_step_def)
  next
    case False
    with i l FailOp show ?thesis
      by (intro that [of i Failed]) (simp_all add: w' node_step_def retries_total_def)
  qed
qed

lemma wf_exec_wf: "wi_wf w \<Longrightarrow> wf_exec op w = Inr w' \<Longrightarrow> wi_wf w'"
  by (cases op) (auto intro: wi_wf_start wi_wf_complete wi_wf_fail)

section \<open>Dependency order\<close>

definition deps_ok :: "workflow_instance \<Rightarrow> bool" where
  "deps_ok w \<longleftrightarrow> (\<forall>n \<in> set (wd_nodes (wi_def w)). get_node_state w n \<noteq> Pending \<longrightarrow>
     (\<forall>p \<in> set (dependencies (wi_def w) n). get_node_state w p = Completed))"

lemma deps_loop_iff:
  "deps_loop w ps \<longleftrightarrow> (\<forall>p \<in> set ps. node_index (wi_def w) p = None \<or> get_node_state w p = Completed)"
  by (induction ps) (auto simp: get_node_state_def node_is_completed_def split: option.splits)

lemma dependencies_in_nodes:
  "wd_wf d \<Longrightarrow> p \<in> set (dependencies d n) \<Longrightarrow> p \<in> set (wd_nodes d)"
  using dependencies_eq [of d n] wd_wf_index_None [of d n]
  by (cases "n \<in> set (wd_nodes d)") (auto simp: dependencies_def)

lemma dependencies_satisfied_iff:
  assumes "wd_wf (wi_def w)"
  shows "dependencies_satisfied w n \<longleftrightarrow>
    (\<forall>p \<in> set (dependencies (wi_def w) n). get_node_state w p = Completed)"
proof (cases "node_index (wi_def w) n")
  case None
  then show ?thesis by (simp add: dependencies_satisfied_def dependencies_def)
next
  case (Some i)
  have nn: "node_index (wi_def w) p \<noteq> None" if "p \<in> set (wd_predecessors (wi_def w) ! i)" for p
    using dependencies_in_nodes [OF assms, of p n] that Some
    by (simp add: dependencies_def wd_wf_index_None [OF assms])
  with Some show ?thesis
    by (simp add: dependencies_satisfied_def dependencies_def deps_loop_iff) (metis nn)
qed

lemma get_node_state_move:
  assumes "wi_wf w" and "node_index (wi_def w) n = Some i" and "wi_def w' = wi_def w"
    and "wi_node_states w' = (wi_node_states w)[i := v]"
  shows "get_node_state w' m = (if m = n then v else get_node_state w m)"
proof -
  have d: "wd_wf (wi_def w)" "i < length (wi_node_states w)"
    using assms(1,2) wi_wf_index by (auto simp: wi_wf_def)
  have "j = i \<longleftrightarrow> m = n" if "node_index (wi_def w) m = Some j" for j
  proof -
    have "j < length (wd_nodes (wi_def w))" "i < length (wd_nodes (wi_def w))"
      "wd_nodes (wi_def w) ! j = m" "wd_nodes (wi_def w) ! i = n" "distinct (wd_nodes (wi_def w))"
      using that assms(2) wd_wf_index [OF d(1)] d(1) by (simp_all add: wd_wf_def)
    then show ?thesis by (metis nth_eq_iff_index_eq)
  qed
  with assms d(2) show ?thesis
    by (cases "node_index (wi_def w) m") (auto simp: get_node_state_def)
qed

lemma wf_exec_deps:
  assumes "wi_wf w" and "deps_ok w" and "wf_exec op w = Inr w'"
  shows "deps_ok w'"
proof -
  let ?n = "op_node op"
  obtain i v where m: "node_index (wi_def w) ?n = Some i" "wi_def w' = wi_def w"
      "wi_node_states w' = (wi_node_states w)[i := v]" "node_step (wi_node_states w ! i) v"
      "v = Active \<Longrightarrow> dependencies_satisfied w ?n"
    using wf_exec_moves [OF assms(1,3)] by metis
  have d: "wd_wf (wi_def w)" using assms(1) by (simp add: wi_wf_def)
  have g: "get_node_state w' k = (if k = ?n then v else get_node_state w k)" for k
    by (rule get_node_state_move [OF assms(1) m(1-3)])
  have old: "get_node_state w ?n = wi_node_states w ! i" using m(1) by (simp add: get_node_state_def)
  have nc: "get_node_state w ?n \<noteq> Completed" using m(4) old by (auto simp: node_step_def)
  have n_in: "?n \<in> set (wd_nodes (wi_def w))" using m(1) wd_wf_index_None [OF d, of ?n] by auto
  have moved: "get_node_state w p = Completed"
    if "p \<in> set (dependencies (wi_def w) ?n)" "v \<noteq> Pending" for p
  proof (cases "v = Active")
    case True
    then show ?thesis using m(5) that(1) dependencies_satisfied_iff [OF d] by simp
  next
    case False
    then have "get_node_state w ?n \<noteq> Pending" using m(4) old by (auto simp: node_step_def)
    then show ?thesis using assms(2) n_in that(1) by (simp add: deps_ok_def)
  qed
  show ?thesis
    unfolding deps_ok_def m(2)
  proof (intro ballI impI)
    fix k p
    assume k: "k \<in> set (wd_nodes (wi_def w))" "get_node_state w' k \<noteq> Pending"
      and p: "p \<in> set (dependencies (wi_def w) k)"
    have "get_node_state w p = Completed"
      using moved p k assms(2) by (cases "k = ?n") (auto simp: g deps_ok_def)
    then show "get_node_state w' p = Completed" using nc by (auto simp: g)
  qed
qed

section \<open>Termination\<close>

definition potential :: "workflow_instance \<Rightarrow> nat" where
  "potential w = 2 * count_list (wi_node_states w) Pending + count_list (wi_node_states w) Active
     + 2 * retries_total w"

definition nat_measure :: "workflow_instance \<Rightarrow> time \<Rightarrow> nat" where
  "nat_measure w now = (unat (wi_timeout_at w) - unat now)
     + 1000 * count_list (wi_node_states w) Pending + 100 * count_list (wi_node_states w) Active
     + 1000 * retries_total w"

lemma wf_exec_counts:
  assumes "wi_wf w" and "wf_exec op w = Inr w'"
  shows "potential w' + 1 = potential w" and "nat_measure w' now + 100 \<le> nat_measure w now"
proof -
  obtain i v where m: "i < length (wi_node_states w)"
      "wi_node_states w' = (wi_node_states w)[i := v]" "node_step (wi_node_states w ! i) v"
      "retries_total w' + (if v = Pending then 1 else 0) = retries_total w"
      "wi_timeout_at w' = wi_timeout_at w"
    using wf_exec_moves [OF assms] by metis
  note c = count_list_update_add [OF m(1), of v, folded m(2)]
  show "potential w' + 1 = potential w"
    using c [of Pending] c [of Active] m(3,4) by (auto simp: potential_def node_step_def split: if_splits)
  show "nat_measure w' now + 100 \<le> nat_measure w now"
    using c [of Pending] c [of Active] m(3,4,5)
    by (auto simp: nat_measure_def node_step_def split: if_splits)
qed

lemma fold_saturating:
  "unat (fold (\<lambda>r acc. saturating_add acc (ucast r)) rs (a :: u64)) =
     min (unat a + sum_list (map unat (rs :: u16 list))) (2 ^ 64 - 1)"
proof (induction rs arbitrary: a)
  case Nil
  show ?case using unsigned_less [of a, where ?'a = nat] by simp
next
  case (Cons r rs)
  then show ?case by (simp add: unat_saturating_add unat_ucast_wide)
qed

lemma min_chain:
  "min (min (min (a + min b M) M + min c M) M + min (min s M * 1000) M) M
     = min (a + b + c + 1000 * s) (M :: nat)"
  by (auto simp: min_def)

lemma wi_measure_nat:
  assumes "counts_ok w"
  shows "unat (wi_measure w now) = min (nat_measure w now) (2 ^ 64 - 1)"
proof -
  have "unat (wi_measure w now) =
      min (min (min (unat (wi_timeout_at w) - unat now
          + min (count_list (wi_node_states w) Pending * 1000) (2 ^ 64 - 1)) (2 ^ 64 - 1)
        + min (count_list (wi_node_states w) Active * 100) (2 ^ 64 - 1)) (2 ^ 64 - 1)
        + min (min (retries_total w) (2 ^ 64 - 1) * 1000) (2 ^ 64 - 1)) (2 ^ 64 - 1)"
    using assms
    by (simp add: wi_measure_def Let_def unat_saturating_add unat_saturating_mul unat_saturating_sub
        fold_saturating unat_ucast_wide counts_ok_def retries_total_def)
  then show ?thesis unfolding min_chain by (simp add: nat_measure_def mult.commute)
qed

lemma completed_stays:
  assumes "wi_wf w" and "wf_exec op w = Inr w'" and "get_node_state w n = Completed"
  shows "get_node_state w' n = Completed"
proof -
  obtain i v where m: "node_index (wi_def w) (op_node op) = Some i" "wi_def w' = wi_def w"
      "wi_node_states w' = (wi_node_states w)[i := v]" "node_step (wi_node_states w ! i) v"
    using wf_exec_moves [OF assms(1,2)] by metis
  have "get_node_state w' n = (if n = op_node op then v else get_node_state w n)"
    by (rule get_node_state_move [OF assms(1) m(1-3)])
  moreover have "n \<noteq> op_node op" using m(1,4) assms(3) by (auto simp: get_node_state_def node_step_def)
  ultimately show ?thesis using assms(3) by simp
qed

text \<open>The executions of a workflow as a system with an invariant and a progress order.\<close>

definition wf_inv :: "workflow_instance \<Rightarrow> bool" where
  "wf_inv w \<longleftrightarrow> wi_wf w \<and> deps_ok w"

definition wf_progress :: "workflow_instance \<Rightarrow> workflow_instance \<Rightarrow> bool" where
  "wf_progress w w' \<longleftrightarrow> wi_def w' = wi_def w \<and> wi_timeout_at w' = wi_timeout_at w
     \<and> potential w' \<le> potential w
     \<and> (\<forall>n. get_node_state w n = Completed \<longrightarrow> get_node_state w' n = Completed)"

interpretation wf: preorder_system wf_exec wf_inv wf_progress
proof unfold_locales
  fix w op w'
  assume i: "wf_inv w" and e: "wf_exec op w = Inr w'"
  then have w: "wi_wf w" "deps_ok w" by (simp_all add: wf_inv_def)
  show "wf_inv w'" using wf_exec_wf [OF w(1) e] wf_exec_deps [OF w e] by (simp add: wf_inv_def)
  have "wi_def w' = wi_def w" "wi_timeout_at w' = wi_timeout_at w"
    using wf_exec_moves [OF w(1) e] by metis+
  then show "wf_progress w w'"
    using wf_exec_counts(1) [OF w(1) e] completed_stays [OF w(1) e] by (simp add: wf_progress_def)
qed (auto simp: wf_progress_def)

lemma run_potential:
  "wf_inv w \<Longrightarrow> run_all wf_exec ops w = Inr w' \<Longrightarrow> length ops + potential w' = potential w"
proof (induction ops arbitrary: w)
  case (Cons op ops)
  then obtain m where m: "wf_exec op w = Inr m" "run_all wf_exec ops m = Inr w'"
    by (auto split: sum.splits)
  have "wf_inv m" using wf.exec_inv [OF Cons.prems(1) m(1)] .
  then show ?case
    using Cons.IH [OF _ m(2)] wf_exec_counts(1) [OF _ m(1)] Cons.prems(1) by (simp add: wf_inv_def)
qed simp

lemma new_inv:
  assumes "wd_wf d" and "length (wd_nodes d) < 2 ^ 32"
  shows "wf_inv (instance_new d t m)"
proof -
  have "get_node_state (instance_new d t m) n = Pending" for n
    using assms(1) by (auto simp: get_node_state_def instance_new_def Let_def wd_wf_index split: option.splits)
  then show ?thesis using wi_wf_new [OF assms] by (simp add: wf_inv_def deps_ok_def)
qed

lemma retry_clamp: "unat (if m > 65535 then 65535 else ucast m :: u16) = min (unat m) 65535" for m :: u64
proof (cases "m > 65535")
  case True
  then show ?thesis by (simp add: word_less_nat_alt)
next
  case False
  then have "unat m \<le> 65535" by (simp add: word_less_nat_alt)
  then show ?thesis using False by (simp add: unsigned_ucast_eq take_bit_nat_eq_self)
qed

lemma new_potential:
  "potential (instance_new d t m) = 2 * length (wd_nodes d) * (1 + min (unat m) 65535)"
  using retry_clamp [of m]
  by (simp add: potential_def retries_total_def instance_new_def Let_def count_list_replicate
      sum_list_replicate algebra_simps split del: if_split)

section \<open>Properties\<close>

definition demo_graph :: workflow_def where
  "demo_graph = workflow_def_new [1, 2] [\<lparr>eg_source = 1, eg_target = 2\<rparr>]"

lemma demo_graph_wf: "wd_wf demo_graph" "length (wd_nodes demo_graph) = 2"
  "set (wd_nodes demo_graph) = {1, 2}"
  by (simp_all add: demo_graph_def workflow_def_new_wf)

lemma demo_index: "node_index demo_graph 1 = Some 0" "node_index demo_graph 2 = Some 1"
  by (simp_all add: demo_graph_def node_index_new)

lemma demo_deps: "dependencies demo_graph 1 = []" "dependencies demo_graph 2 = [1]"
proof -
  have "wd_edges demo_graph = [\<lparr>eg_source = 1, eg_target = 2\<rparr>]" by (simp add: demo_graph_def)
  then show "dependencies demo_graph 1 = []" "dependencies demo_graph 2 = [1]"
    using dependencies_eq [OF demo_graph_wf(1)] by (simp_all add: demo_graph_wf)
qed

lemma demo_preds: "wd_predecessors demo_graph ! 0 = []" "wd_predecessors demo_graph ! Suc 0 = [1]"
  using demo_deps by (simp_all add: dependencies_def demo_index)

lemma validated_graph:
  assumes "\<forall>x \<in> set es. eg_source x \<in> set ns \<and> eg_target x \<in> set ns"
  shows "workflow_def_validated ns es = Inr (workflow_def_new (remdups_adj (sort ns)) es)"
    and "distinct (remdups_adj (sort ns))"
proof -
  show "workflow_def_validated ns es = Inr (workflow_def_new (remdups_adj (sort ns)) es)"
    using assms check_edges_ok [OF remdups_adj_sort_strict, of ns es]
    by (simp add: workflow_def_validated_def workflow_def_new_def Let_def)
  show "distinct (remdups_adj (sort ns))"
    using remdups_adj_sort_strict [of ns] by (simp add: strict_sorted_iff)
qed

text \<open>A validated workflow definition is refused exactly when an edge endpoint is not a node, naming
  a missing one; otherwise its nodes are the given ones, sorted and without repetition, the index finds
  every node at its position, and the precomputed lists are the sources of the incoming and the targets
  of the outgoing edges, in edge order.\<close>

theorem workflow_validation:
  "case workflow_def_validated ns es of
     Inl e \<Rightarrow> \<exists>n. e = NodeNotFound n \<and> n \<notin> set ns \<and> (\<exists>x \<in> set es. n = eg_source x \<or> n = eg_target x)
   | Inr d \<Rightarrow> (\<forall>x \<in> set es. eg_source x \<in> set ns \<and> eg_target x \<in> set ns)
       \<and> sorted_wrt (<) (wd_nodes d) \<and> set (wd_nodes d) = set ns \<and> wd_edges d = es
       \<and> (\<forall>n i. node_index d n = Some i \<longleftrightarrow> i < length (wd_nodes d) \<and> wd_nodes d ! i = n)
       \<and> (\<forall>n \<in> set ns. dependencies d n = map eg_source (filter (\<lambda>x. eg_target x = n) es)
            \<and> dependents d n = map eg_target (filter (\<lambda>x. eg_source x = n) es))"
proof (cases "check_edges (remdups_adj (sort ns)) es")
  case (Inl e)
  then show ?thesis
    using check_edges_err [OF remdups_adj_sort_strict Inl] by (simp add: workflow_def_validated_def)
next
  case (Inr u)
  let ?ns = "remdups_adj (sort ns)" and ?d = "workflow_def_new (remdups_adj (sort ns)) es"
  have ends: "\<forall>x \<in> set es. eg_source x \<in> set ns \<and> eg_target x \<in> set ns"
    using Inr check_edges_ok [OF remdups_adj_sort_strict, of ns es] by simp
  have d: "workflow_def_validated ns es = Inr ?d"
    using Inr by (simp add: workflow_def_validated_def workflow_def_new_def Let_def)
  have s: "sorted_wrt (<) ?ns" "distinct ?ns"
    using remdups_adj_sort_strict [of ns] by (simp_all add: strict_sorted_iff)
  have wf: "wd_wf ?d" using s(2) by (rule workflow_def_new_wf)
  have "filter (\<lambda>x. eg_source x \<in> set ns \<and> eg_target x = n) es = filter (\<lambda>x. eg_target x = n) es"
    "filter (\<lambda>x. eg_target x \<in> set ns \<and> eg_source x = n) es = filter (\<lambda>x. eg_source x = n) es" for n
    using ends by (auto intro: filter_cong)
  then show ?thesis
    using ends s(1) wd_wf_index [OF wf] dependencies_eq [OF wf] dependents_eq [OF wf] by (simp add: d)
qed

lemma workflow_validation_witness:
  "workflow_def_validated [2, 1, 2] [\<lparr>eg_source = 1, eg_target = 3\<rparr>] = Inl (NodeNotFound 3)"
  using workflow_validation [of "[2, 1, 2]" "[\<lparr>eg_source = 1, eg_target = 3\<rparr>]"]
  by (auto split: sum.splits)

text \<open>Start, complete and fail succeed exactly when the node exists, is in the right state and (for
  start) all its dependencies have completed; every refusal names its reason and changes nothing.\<close>

theorem node_operations:
  assumes "wi_wf w"
  shows "start_node w n =
      (case node_index (wi_def w) n of
         None \<Rightarrow> Inl (NodeNotFound n)
       | Some i \<Rightarrow>
           if get_node_state w n \<noteq> Pending then Inl (InvalidTransition n (get_node_state w n) Active)
           else if \<forall>p \<in> set (dependencies (wi_def w) n). get_node_state w p = Completed
           then Inr (transition w i Active)
           else Inl (DependenciesNotSatisfied n
                  (filter (\<lambda>p. get_node_state w p \<noteq> Completed) (dependencies (wi_def w) n))))
    \<and> complete_node w n =
      (case node_index (wi_def w) n of
         None \<Rightarrow> Inl (NodeNotFound n)
       | Some i \<Rightarrow>
           if get_node_state w n \<noteq> Active then Inl (InvalidTransition n (get_node_state w n) Completed)
           else Inr (update_workflow_status (transition w i Completed)))
    \<and> fail_node w n =
      (case node_index (wi_def w) n of
         None \<Rightarrow> Inl (NodeNotFound n)
       | Some i \<Rightarrow>
           if get_node_state w n \<noteq> Active then Inl (InvalidTransition n (get_node_state w n) Failed)
           else if get_retries w n > 0
           then Inr ((transition w i Pending)\<lparr>wi_retries := (wi_retries w)[i := wi_retries w ! i - 1]\<rparr>)
           else Inr ((transition w i Failed)\<lparr>wi_status := Failure\<rparr>))"
proof -
  have d: "wd_wf (wi_def w)" using assms by (simp add: wi_wf_def)
  have loop: "unsatisfied_loop w ps acc = acc @ filter (\<lambda>p. get_node_state w p \<noteq> Completed) ps" for ps acc
    by (induction ps arbitrary: acc)
      (auto simp: get_node_state_def node_is_completed_def split: option.splits)
  have pos: "ucast r > (0 :: u64) \<longleftrightarrow> r > 0" for r :: u16
    by (simp add: word_less_nat_alt unat_ucast_wide)
  show ?thesis
  proof (cases "node_index (wi_def w) n")
    case None
    then show ?thesis by (simp add: start_node_def complete_node_def fail_node_def require_node_def)
  next
    case (Some i)
    then have g: "get_node_state w n = wi_node_states w ! i" "get_retries w n = ucast (wi_retries w ! i)"
      "dependencies (wi_def w) n = wd_predecessors (wi_def w) ! i"
      by (simp_all add: get_node_state_def get_retries_def dependencies_def)
    show ?thesis
      using Some by (simp add: start_node_def complete_node_def fail_node_def require_node_def g pos
          node_is_pending_def node_is_active_def loop dependencies_satisfied_iff [OF d] Let_def)
  qed
qed

text \<open>C19: whatever sequence of successful operations runs on a fresh instance, the counters agree with the
  node states, no counter wraps, the lists keep their lengths, no node has left Pending unless all its
  dependencies have completed, and completed nodes stay completed.\<close>

theorem workflow_run_invariant:
  assumes "wd_wf d" and "length (wd_nodes d) < 2 ^ 32"
    and "run_all wf_exec ops (instance_new d t m) = Inr w"
  shows "wi_wf w \<and> deps_ok w \<and> wi_def w = d \<and>
    (\<forall>op w'. wf_exec op w = Inr w' \<longrightarrow> wi_wf w' \<and>
       (\<forall>n. get_node_state w n = Completed \<longrightarrow> get_node_state w' n = Completed))"
proof -
  have i: "wf_inv (instance_new d t m)" by (rule new_inv [OF assms(1,2)])
  have w: "wf_inv w" using wf.run_inv [OF i assms(3)] .
  have "wi_def (instance_new d t m) = d" by (simp add: instance_new_def Let_def)
  then have "wi_def w = d" using wf.run_rel [OF i assms(3)] by (simp add: wf_progress_def)
  with w show ?thesis using wf_exec_wf completed_stays by (auto simp: wf_inv_def)
qed

lemma workflow_run_invariant_witness:
  "wi_wf (instance_new demo_graph 10 3) \<and> deps_ok (instance_new demo_graph 10 3)"
  using workflow_run_invariant [OF demo_graph_wf(1), of "[]" 10 3] by (simp add: demo_graph_wf)

text \<open>C18: every workflow ends. A run of successful operations on a fresh instance has at most
  \<open>2 n (1 + r)\<close> of them, for \<open>n\<close> nodes and the clamped retry budget \<open>r\<close>, cyclic graphs included.\<close>

theorem workflow_terminates:
  assumes "wd_wf d" and "length (wd_nodes d) < 2 ^ 32"
    and "run_all wf_exec ops (instance_new d t m) = Inr w"
  shows "length ops + potential w = 2 * length (wd_nodes d) * (1 + min (unat m) 65535)"
  using run_potential [OF new_inv [OF assms(1,2)] assms(3)] by (simp add: new_potential)

lemma workflow_terminates_witness:
  "\<exists>w. run_all wf_exec [StartOp 1, FailOp 1, StartOp 1] (instance_new demo_graph 10 3) = Inr w \<and> potential w = 13"
proof -
  let ?w = "instance_new demo_graph 10 3"
  have "is_ok (run_all wf_exec [StartOp 1, FailOp 1, StartOp 1] ?w)" by code_simp
  then obtain w where w: "run_all wf_exec [StartOp 1, FailOp 1, StartOp 1] ?w = Inr w" by (auto simp: is_ok_iff)
  from workflow_terminates [OF demo_graph_wf(1) _ this] have "potential w = 13" by (simp add: demo_graph_wf)
  with w show ?thesis by blast
qed

text \<open>The termination measure saturates at the largest \<open>u64\<close> and otherwise is the exact weighted sum;
  as long as it has not saturated, every successful operation lowers it by at least 100.\<close>

theorem workflow_measure_decreases:
  assumes "wi_wf w" and "wf_exec op w = Inr w'"
  shows "unat (wi_measure w now) = min (nat_measure w now) (2 ^ 64 - 1)
    \<and> (nat_measure w now < 2 ^ 64 \<longrightarrow> unat (wi_measure w' now) + 100 \<le> unat (wi_measure w now))"
  using wi_measure_nat [of w now] wi_measure_nat [of w' now] wf_exec_counts(2) [OF assms, of now]
    wf_exec_wf [OF assms] assms(1)
  by (auto simp: wi_wf_def min_def)

lemma workflow_measure_decreases_witness:
  "\<exists>w'. wf_exec (StartOp 1) (instance_new demo_graph 10 3) = Inr w'
    \<and> unat (wi_measure w' 0) + 100 \<le> unat (wi_measure (instance_new demo_graph 10 3) 0)"
proof -
  let ?w = "instance_new demo_graph 10 3"
  have wf: "wi_wf ?w" by (simp add: wi_wf_new demo_graph_wf)
  have e: "wf_exec (StartOp 1) ?w = Inr (transition ?w 0 Active)"
    by (simp add: start_node_Inr instance_new_def Let_def demo_index demo_graph_wf
        dependencies_satisfied_def demo_preds)
  have "nat_measure ?w 0 < 2 ^ 64"
    by (simp add: nat_measure_def retries_total_def instance_new_def Let_def count_list_replicate
        demo_graph_wf sum_list_replicate)
  then show ?thesis using workflow_measure_decreases [OF wf e, of 0] e by blast
qed

text \<open>A timeout is not final. Completing the last active node of an instance that \<open>apply_timeout\<close>
  has marked as failed sets its status to success.\<close>

theorem timeout_overridden:
  assumes "wi_wf w" and "node_index (wi_def w) n = Some i" and "get_node_state w n = Active"
    and "\<forall>j < length (wi_node_states w). j \<noteq> i \<longrightarrow> wi_node_states w ! j = Completed"
  shows "wi_status (apply_timeout w) = Failure \<and>
    (\<exists>w'. complete_node (apply_timeout w) n = Inr w' \<and> wi_status w' = Success)"
proof -
  let ?t = "apply_timeout w" and ?u = "transition (apply_timeout w) i Completed"
  have t: "wi_def ?t = wi_def w" "wi_node_states ?t = wi_node_states w" "wi_wf ?t"
    using wi_wf_timeout [OF assms(1)] by (simp_all add: apply_timeout_def)
  have i: "i < length (wi_node_states w)" using wi_wf_index [OF assms(1,2)] by simp
  have "wi_node_states ?u ! j = Completed" if "j < length (wi_node_states ?u)" for j
    using assms(4) that by (cases "j = i") (simp_all add: t)
  then have "set (wi_node_states ?u) \<subseteq> {Completed}" by (auto simp: in_set_conv_nth)
  then have "count_list (wi_node_states ?u) s = 0" if "s \<noteq> Completed" for s
    using that by (auto simp: count_list_0_iff)
  moreover have "counts_ok ?u" using t i by (intro transition_counts_ok) (simp_all add: wi_wf_def)
  ultimately have "wi_pending_ct ?u = 0" "wi_active_ct ?u = 0" "wi_failed_ct ?u = 0"
    by (simp_all add: counts_ok_def unat_eq_zero)
  then have "wi_status (update_workflow_status ?u) = Success"
    by (simp add: update_workflow_status_def wi_is_terminal_def wi_has_failure_def)
  moreover have "complete_node ?t n = Inr (update_workflow_status ?u)"
    using assms(2,3) by (auto simp: complete_node_Inr t get_node_state_def)
  ultimately show ?thesis by (simp add: apply_timeout_def)
qed

definition demo_single :: workflow_instance where
  "demo_single = transition (instance_new (workflow_def_new [1] []) 10 0) 0 Active"

lemma timeout_overridden_witness:
  "\<exists>w'. complete_node (apply_timeout demo_single) 1 = Inr w' \<and> wi_status w' = Success"
proof -
  have "wi_wf (instance_new (workflow_def_new [1] []) 10 0)" by (simp add: wi_wf_new workflow_def_new_wf)
  then have "wi_wf demo_single"
    unfolding demo_single_def by (rule wi_wf_transition) (simp add: instance_new_def Let_def)
  moreover have "node_index (wi_def demo_single) 1 = Some 0"
    by (simp add: demo_single_def instance_new_def Let_def node_index_new)
  moreover from this have "get_node_state demo_single 1 = Active"
    by (simp add: get_node_state_def) (simp add: demo_single_def instance_new_def Let_def)
  moreover have "\<forall>j < length (wi_node_states demo_single). j \<noteq> 0 \<longrightarrow> wi_node_states demo_single ! j = Completed"
    by (simp add: demo_single_def instance_new_def Let_def)
  ultimately show ?thesis using timeout_overridden by blast
qed

section \<open>Read access\<close>

definition status_is_success :: "workflow_status \<Rightarrow> bool" where
  "status_is_success s \<longleftrightarrow> s = Success"

definition status_is_failure :: "workflow_status \<Rightarrow> bool" where
  "status_is_failure s \<longleftrightarrow> s = Failure"

definition node_is_failed :: "node_state \<Rightarrow> bool" where
  "node_is_failed s \<longleftrightarrow> s = Failed"

definition edge_new :: "u64 \<Rightarrow> u64 \<Rightarrow> edge" where
  "edge_new a b = \<lparr>eg_source = a, eg_target = b\<rparr>"

definition node_count :: "workflow_def \<Rightarrow> nat" where
  "node_count d = length (wd_nodes d)"

definition edge_count :: "workflow_def \<Rightarrow> nat" where
  "edge_count d = length (wd_edges d)"

definition wi_require_node :: "workflow_instance \<Rightarrow> u64 \<Rightarrow> workflow_error + nat" where
  "wi_require_node w n = require_node (wi_def w) n"

record node_state_entry =
  ne_node_id :: u64
  ne_state :: node_state

record retry_entry =
  re_node_id :: u64
  re_count :: u64

lemma status_cases: "status_is_running s \<or> status_is_success s \<or> status_is_failure s"
  by (cases s) (simp_all add: status_is_running_def status_is_success_def status_is_failure_def)

lemma status_terminal_cases: "status_is_terminal s \<longleftrightarrow> status_is_success s \<or> status_is_failure s"
  by (cases s) (simp_all add: status_is_terminal_def status_is_success_def status_is_failure_def)

end
