(* ===== verification/LionWorkflowLive.thy ===== *)
theory LionWorkflowLive
  imports LionWorkflow
begin

text \<open>
  Liveness of workflows (\<open>state/workflow.rs\<close>): when an instance can go on, when it can be completed, and
  what blocks it for ever. A definition is not required to be acyclic by the code; its dependency
  relation is stated here and acyclicity is a hypothesis where it is needed.
\<close>

definition dep_rel :: "workflow_def \<Rightarrow> (u64 \<times> u64) set" where
  "dep_rel d = {(p, n). n \<in> set (wd_nodes d) \<and> p \<in> set (dependencies d n)}"

definition work_left :: "workflow_instance \<Rightarrow> nat" where
  "work_left w = 2 * count_list (wi_node_states w) Pending + count_list (wi_node_states w) Active"

definition wf_enabled :: "wf_op \<Rightarrow> workflow_instance \<Rightarrow> bool" where
  "wf_enabled op w \<longleftrightarrow> is_ok (wf_exec op w)"

definition status_settled :: "workflow_instance \<Rightarrow> bool" where
  "status_settled w \<longleftrightarrow>
     (wi_is_terminal w \<and> \<not> wi_has_failure w \<and> wi_node_states w \<noteq> [] \<longrightarrow> wi_status w = Success)
     \<and> (wi_status w = Success \<longrightarrow> wi_is_terminal w)"

lemma dep_rel_nodes:
  "wd_wf d \<Longrightarrow> (p, n) \<in> dep_rel d \<Longrightarrow> p \<in> set (wd_nodes d) \<and> n \<in> set (wd_nodes d)"
  using dependencies_in_nodes by (auto simp: dep_rel_def)

lemma wf_acyclic_dep:
  assumes "wd_wf d" and "acyclic (dep_rel d)"
  shows "wf (dep_rel d)"
proof -
  have "dep_rel d \<subseteq> set (wd_nodes d) \<times> set (wd_nodes d)" using dep_rel_nodes [OF assms(1)] by auto
  then have "finite (dep_rel d)" by (rule finite_subset) simp
  then show ?thesis using finite_acyclic_wf assms(2) by blast
qed

text \<open>The counters say whether a node state occurs.\<close>

lemma states_of_nodes:
  assumes "wi_wf w"
  shows "s \<in> set (wi_node_states w) \<longleftrightarrow> (\<exists>n \<in> set (wd_nodes (wi_def w)). get_node_state w n = s)"
proof -
  have d: "wd_wf (wi_def w)" "length (wi_node_states w) = length (wd_nodes (wi_def w))"
    using assms by (simp_all add: wi_wf_def)
  have "get_node_state w (wd_nodes (wi_def w) ! i) = wi_node_states w ! i"
    if "i < length (wi_node_states w)" for i
  proof -
    have "node_index (wi_def w) (wd_nodes (wi_def w) ! i) = Some i"
      using that d wd_wf_index [OF d(1)] by simp
    then show ?thesis by (simp add: get_node_state_def)
  qed
  with d(2) show ?thesis by (metis in_set_conv_nth)
qed

lemma terminal_iff:
  assumes "wi_wf w"
  shows "wi_is_terminal w \<longleftrightarrow> Pending \<notin> set (wi_node_states w) \<and> Active \<notin> set (wi_node_states w)"
    and "wi_has_failure w \<longleftrightarrow> Failed \<in> set (wi_node_states w)"
  using assms
  by (auto simp: wi_wf_def counts_ok_def wi_is_terminal_def wi_has_failure_def count_list_0_iff
      word_neq_0_conv [symmetric] unat_eq_zero [symmetric] simp del: unat_eq_zero)

lemma enabled_iff:
  assumes "wi_wf w"
  shows "wf_enabled (StartOp n) w \<longleftrightarrow> n \<in> set (wd_nodes (wi_def w)) \<and> get_node_state w n = Pending
      \<and> (\<forall>p \<in> set (dependencies (wi_def w) n). get_node_state w p = Completed)"
    and "wf_enabled (CompleteOp n) w \<longleftrightarrow> n \<in> set (wd_nodes (wi_def w)) \<and> get_node_state w n = Active"
    and "wf_enabled (FailOp n) w \<longleftrightarrow> n \<in> set (wd_nodes (wi_def w)) \<and> get_node_state w n = Active"
proof -
  have d: "wd_wf (wi_def w)" using assms by (simp add: wi_wf_def)
  have "n \<in> set (wd_nodes (wi_def w)) \<longleftrightarrow> (\<exists>i. node_index (wi_def w) n = Some i)"
    using wd_wf_index_None [OF d, of n] by auto
  then show "wf_enabled (StartOp n) w \<longleftrightarrow> n \<in> set (wd_nodes (wi_def w)) \<and> get_node_state w n = Pending
      \<and> (\<forall>p \<in> set (dependencies (wi_def w) n). get_node_state w p = Completed)"
    and "wf_enabled (CompleteOp n) w \<longleftrightarrow> n \<in> set (wd_nodes (wi_def w)) \<and> get_node_state w n = Active"
    and "wf_enabled (FailOp n) w \<longleftrightarrow> n \<in> set (wd_nodes (wi_def w)) \<and> get_node_state w n = Active"
    by (auto simp: wf_enabled_def is_ok_iff start_node_Inr complete_node_Inr fail_node_Inr get_node_state_def
        dependencies_satisfied_iff [OF d])
qed

text \<open>The status is settled after every operation.\<close>

lemma update_status_counts:
  "wi_is_terminal (update_workflow_status w) = wi_is_terminal w"
  "wi_has_failure (update_workflow_status w) = wi_has_failure w"
  by (simp_all add: wi_is_terminal_def wi_has_failure_def)

lemma settled_update: "wi_status w \<noteq> Success \<Longrightarrow> status_settled (update_workflow_status w)"
  unfolding status_settled_def update_status_counts
  by (simp add: update_workflow_status_def split: if_splits)

lemma settled_running:
  assumes "wi_wf w" and "wi_status w \<noteq> Success" and "v \<in> set (wi_node_states w)" and "v = Pending \<or> v = Active"
  shows "status_settled w"
  using assms terminal_iff(1) [OF assms(1)] by (auto simp: status_settled_def)

lemma settled_fail:
  assumes w: "wi_wf w" and w': "wi_wf w'" and ns: "wi_status w \<noteq> Success" and f: "fail_node w n = Inr w'"
  shows "status_settled w'"
proof -
  obtain j where j: "node_index (wi_def w) n = Some j"
    and d: "w' = (if wi_retries w ! j > 0
       then (transition w j Pending)\<lparr>wi_retries := (wi_retries w)[j := wi_retries w ! j - 1]\<rparr>
       else (transition w j Failed)\<lparr>wi_status := Failure\<rparr>)"
    using f by (auto simp: fail_node_Inr)
  have jl: "j < length (wi_node_states w)" using wi_wf_index [OF w j] by simp
  show ?thesis
  proof (cases "wi_retries w ! j > 0")
    case True
    then have "Pending \<in> set (wi_node_states w')" "wi_status w' = wi_status w"
      using jl by (simp_all add: d set_update_memI)
    then show ?thesis using ns settled_running [OF w'] by simp
  next
    case False
    then have "Failed \<in> set (wi_node_states w')" "wi_status w' = Failure"
      using jl by (simp_all add: d set_update_memI)
    then show ?thesis using terminal_iff(2) [OF w'] by (simp add: status_settled_def)
  qed
qed

lemma settled_step:
  assumes "wi_wf w" and "status_settled w" and "wf_exec op w = Inr w'"
  shows "status_settled w'"
proof -
  have w': "wi_wf w'" using wf_exec_wf [OF assms(1,3)] .
  obtain i v where m: "i < length (wi_node_states w)" "wi_node_states w' = (wi_node_states w)[i := v]"
      "node_step (wi_node_states w ! i) v"
    using wf_exec_moves [OF assms(1,3)] by metis
  have "wi_node_states w ! i = Pending \<or> wi_node_states w ! i = Active"
    using m(3) by (auto simp: node_step_def)
  with nth_mem [OF m(1)] have "\<not> wi_is_terminal w" unfolding terminal_iff(1) [OF assms(1)] by metis
  then have ns: "wi_status w \<noteq> Success" using assms(2) by (auto simp: status_settled_def)
  show ?thesis
  proof (cases op)
    case (StartOp n)
    then obtain j where j: "w' = transition w j Active" "wi_node_states w ! j = Pending"
        "node_index (wi_def w) n = Some j"
      using assms(3) by (auto simp: start_node_Inr)
    then have "Active \<in> set (wi_node_states w')"
      using wi_wf_index [OF assms(1) j(3)] by (simp add: set_update_memI)
    then show ?thesis using ns j(1) settled_running [OF w'] by simp
  next
    case (CompleteOp n)
    then obtain j where "w' = update_workflow_status (transition w j Completed)"
      using assms(3) by (auto simp: complete_node_Inr)
    then show ?thesis using ns by (simp add: settled_update)
  next
    case (FailOp n)
    then show ?thesis using assms(3) settled_fail [OF assms(1) w' ns, of n] by simp
  qed
qed

definition live_inv :: "workflow_instance \<Rightarrow> bool" where
  "live_inv w \<longleftrightarrow> wf_inv w \<and> status_settled w"

interpretation live: guarded_system wf_exec live_inv
proof unfold_locales
  fix w op w'
  assume "live_inv w" and e: "wf_exec op w = Inr w'"
  then have "wf_inv w" "status_settled w" by (simp_all add: live_inv_def)
  moreover from this have "wi_wf w" by (simp add: wf_inv_def)
  ultimately show "live_inv w'" using wf.exec_inv [OF _ e] settled_step [OF _ _ e] by (simp add: live_inv_def)
qed

section \<open>Going on\<close>

text \<open>Starting or completing a node uses up one unit of the work that is left and fails nothing.\<close>

fun is_fail :: "wf_op \<Rightarrow> bool" where
  "is_fail (FailOp n) = True" | "is_fail (StartOp n) = False" | "is_fail (CompleteOp n) = False"

lemma forward_step:
  assumes "wi_wf w" and "wf_exec op w = Inr w'" and "\<not> is_fail op"
  shows "work_left w' + 1 = work_left w" and "Failed \<notin> set (wi_node_states w) \<Longrightarrow> Failed \<notin> set (wi_node_states w')"
proof -
  obtain i v where m: "i < length (wi_node_states w)" "wi_node_states w' = (wi_node_states w)[i := v]"
      "wi_node_states w ! i = Pending \<and> v = Active \<or> wi_node_states w ! i = Active \<and> v = Completed"
  proof (cases op)
    case (StartOp n)
    with assms show ?thesis by (auto simp: start_node_Inr dest: wi_wf_index intro!: that)
  next
    case (CompleteOp n)
    with assms show ?thesis by (auto simp: complete_node_Inr dest: wi_wf_index intro!: that)
  next
    case (FailOp n)
    with assms(3) show ?thesis by simp
  qed
  note c = count_list_update_add [OF m(1), of v, folded m(2)]
  show "work_left w' + 1 = work_left w"
    using c [of Pending] c [of Active] m(3) by (auto simp: work_left_def)
  show "Failed \<notin> set (wi_node_states w')" if "Failed \<notin> set (wi_node_states w)"
    using that m(3) set_update_subset_insert [of "wi_node_states w" i v] by (auto simp: m(2))
qed

lemma minimal_pending:
  assumes "wd_wf d" and "acyclic (dep_rel d)" and "P \<subseteq> set (wd_nodes d)" and "n \<in> P"
  obtains m where "m \<in> P" and "\<And>p. p \<in> set (dependencies d m) \<Longrightarrow> p \<notin> P"
proof -
  obtain m where m: "m \<in> P" "\<And>p. (p, m) \<in> dep_rel d \<Longrightarrow> p \<notin> P"
    using wfE_min [OF wf_acyclic_dep [OF assms(1,2)] assms(4)] by blast
  with assms(3) show ?thesis by (intro that [of m]) (auto simp: dep_rel_def)
qed

lemma can_go_forward:
  assumes "wi_wf w" and "acyclic (dep_rel (wi_def w))" and "Failed \<notin> set (wi_node_states w)"
    and "\<not> wi_is_terminal w"
  obtains op where "\<not> is_fail op" and "wf_enabled op w"
proof (cases "\<exists>n \<in> set (wd_nodes (wi_def w)). get_node_state w n = Active")
  case True
  then obtain n where "n \<in> set (wd_nodes (wi_def w))" "get_node_state w n = Active" by blast
  then show ?thesis by (intro that [of "CompleteOp n"]) (simp_all add: enabled_iff [OF assms(1)])
next
  case False
  let ?N = "set (wd_nodes (wi_def w))" and ?P = "{n \<in> set (wd_nodes (wi_def w)). get_node_state w n = Pending}"
  have d: "wd_wf (wi_def w)" using assms(1) by (simp add: wi_wf_def)
  obtain n where "n \<in> ?P"
    using False assms(4) by (auto simp: terminal_iff [OF assms(1)] states_of_nodes [OF assms(1)])
  then obtain m where m: "m \<in> ?P" "\<And>p. p \<in> set (dependencies (wi_def w) m) \<Longrightarrow> p \<notin> ?P"
    using minimal_pending [OF d assms(2), of ?P n] by auto
  have "get_node_state w p = Completed" if "p \<in> set (dependencies (wi_def w) m)" for p
  proof -
    have "p \<in> ?N" using dependencies_in_nodes [OF d that] .
    moreover from this have "get_node_state w p \<noteq> Failed"
      using assms(3) by (auto simp: states_of_nodes [OF assms(1)])
    ultimately show ?thesis using m(2) [OF that] False by (cases "get_node_state w p") auto
  qed
  with m(1) show ?thesis by (intro that [of "StartOp m"]) (simp_all add: enabled_iff [OF assms(1)])
qed

lemma work_left_zero: "wi_wf w \<Longrightarrow> work_left w = 0 \<longleftrightarrow> wi_is_terminal w"
  by (simp add: work_left_def terminal_iff count_list_0_iff)

lemma completes:
  assumes "live_inv w" and "acyclic (dep_rel (wi_def w))" and "Failed \<notin> set (wi_node_states w)"
  shows "\<exists>ops w'. run_all wf_exec ops w = Inr w' \<and> length ops = work_left w \<and> (\<forall>op \<in> set ops. \<not> is_fail op)
    \<and> wi_is_terminal w' \<and> Failed \<notin> set (wi_node_states w')"
  using assms
proof (induction "work_left w" arbitrary: w)
  case 0
  then have "wi_is_terminal w" using work_left_zero by (simp add: live_inv_def wf_inv_def)
  with 0 show ?case by (intro exI [of _ "[]"]) auto
next
  case (Suc k)
  then have wf: "wi_wf w" by (simp add: live_inv_def wf_inv_def)
  have "\<not> wi_is_terminal w" using work_left_zero [OF wf] Suc.hyps(2) by simp
  then obtain op where fo: "\<not> is_fail op" "wf_enabled op w"
    using can_go_forward [OF wf Suc.prems(2,3)] by blast
  then obtain w1 where op: "\<not> is_fail op" "wf_exec op w = Inr w1" by (auto simp: wf_enabled_def is_ok_iff)
  note f = forward_step [OF wf op(2,1)]
  have d: "wi_def w1 = wi_def w" using wf_exec_moves [OF wf op(2)] by metis
  have "\<exists>ops w'. run_all wf_exec ops w1 = Inr w' \<and> length ops = work_left w1 \<and> (\<forall>op \<in> set ops. \<not> is_fail op)
      \<and> wi_is_terminal w' \<and> Failed \<notin> set (wi_node_states w')"
    using Suc.hyps(2) Suc.prems f live.exec_inv [OF Suc.prems(1) op(2)]
    by (intro Suc.hyps(1)) (simp_all add: d)
  then obtain ops w' where "run_all wf_exec ops w1 = Inr w'" "length ops = work_left w1"
      "\<forall>op \<in> set ops. \<not> is_fail op" "wi_is_terminal w'" "Failed \<notin> set (wi_node_states w')"
    by blast
  with op f(1) show ?case by (intro exI [of _ "op # ops"] exI [of _ w']) auto
qed

section \<open>Being stuck\<close>

text \<open>With no operation enabled on an acyclic definition, whatever is still pending waits, directly or not,
  for a failed node.\<close>

lemma stuck_behind_failure:
  assumes "wi_wf w" and "acyclic (dep_rel (wi_def w))" and "\<And>op. \<not> wf_enabled op w"
    and "n \<in> set (wd_nodes (wi_def w))" and "get_node_state w n = Pending"
  shows "\<exists>f. (f, n) \<in> (dep_rel (wi_def w))\<^sup>+ \<and> get_node_state w f = Failed"
  using assms(4,5)
proof (induction n rule: wf_induct_rule [OF wf_acyclic_dep [OF _ assms(2)]])
  case 1
  then show ?case using assms(1) by (simp add: wi_wf_def)
next
  case (2 n)
  have d: "wd_wf (wi_def w)" using assms(1) by (simp add: wi_wf_def)
  obtain p where p: "p \<in> set (dependencies (wi_def w) n)" "get_node_state w p \<noteq> Completed"
    using assms(3) [of "StartOp n"] 2(2,3) by (auto simp: enabled_iff [OF assms(1)])
  have pn: "p \<in> set (wd_nodes (wi_def w))" "(p, n) \<in> dep_rel (wi_def w)"
    using dependencies_in_nodes [OF d p(1)] p(1) 2(2) by (simp_all add: dep_rel_def)
  have "get_node_state w p \<noteq> Active"
    using assms(3) [of "CompleteOp p"] pn(1) by (auto simp: enabled_iff [OF assms(1)])
  with p(2) consider "get_node_state w p = Pending" | "get_node_state w p = Failed"
    by (cases "get_node_state w p") auto
  then show ?case
  proof cases
    case 1
    then obtain f where "(f, p) \<in> (dep_rel (wi_def w))\<^sup>+" "get_node_state w f = Failed"
      using 2(1) [OF pn(2,1)] by blast
    then show ?thesis using pn(2) by (blast intro: trancl_into_trancl)
  next
    case 2
    then show ?thesis using pn(2) by blast
  qed
qed

text \<open>A node that depends on a node that never completes stays pending.\<close>

lemma never_starts:
  assumes "wf_inv w" and "\<forall>n \<in> C. get_node_state w n = Pending"
    and "\<forall>n \<in> C. \<exists>p \<in> C. p \<in> set (dependencies (wi_def w) n)" and "wf_exec op w = Inr w'"
  shows "\<forall>n \<in> C. get_node_state w' n = Pending"
proof -
  have wf: "wi_wf w" and d: "wd_wf (wi_def w)" using assms(1) by (simp_all add: wf_inv_def wi_wf_def)
  obtain i v where m: "node_index (wi_def w) (op_node op) = Some i" "wi_def w' = wi_def w"
      "wi_node_states w' = (wi_node_states w)[i := v]" "node_step (wi_node_states w ! i) v"
      "v = Active \<Longrightarrow> dependencies_satisfied w (op_node op)"
    using wf_exec_moves [OF wf assms(4)] by metis
  have "op_node op \<notin> C"
  proof
    assume c: "op_node op \<in> C"
    then have "v = Active" using assms(2) m(1,4) by (auto simp: get_node_state_def node_step_def)
    then have "\<forall>p \<in> set (dependencies (wi_def w) (op_node op)). get_node_state w p = Completed"
      using m(5) dependencies_satisfied_iff [OF d] by simp
    then show False using assms(2,3) c by fastforce
  qed
  then show ?thesis using assms(2) get_node_state_move [OF wf m(1-3)] by auto
qed

lemma never_starts_run:
  assumes "wf_inv w" and "\<forall>n \<in> C. get_node_state w n = Pending"
    and "\<forall>n \<in> C. \<exists>p \<in> C. p \<in> set (dependencies (wi_def w) n)" and "run_all wf_exec ops w = Inr w'"
  shows "\<forall>n \<in> C. get_node_state w' n = Pending"
  using assms
proof (induction ops arbitrary: w)
  case (Cons op ops)
  obtain w1 where w1: "wf_exec op w = Inr w1" "run_all wf_exec ops w1 = Inr w'"
    using Cons.prems(4) by (auto split: sum.splits)
  have "wi_def w1 = wi_def w" using wf.exec_rel [OF Cons.prems(1) w1(1)] by (simp add: wf_progress_def)
  then show ?case
    using Cons.IH [OF wf.exec_inv [OF Cons.prems(1) w1(1)] never_starts [OF Cons.prems(1-3) w1(1)] _ w1(2)]
      Cons.prems(3) by simp
qed simp

lemma fresh_live:
  assumes "wd_wf d" and "length (wd_nodes d) < 2 ^ 32"
  shows "live_inv (instance_new d t m)" and "wi_def (instance_new d t m) = d"
    and "get_node_state (instance_new d t m) n = Pending"
proof -
  let ?w = "instance_new d t m"
  have st: "wi_node_states ?w = replicate (length (wd_nodes d)) Pending" "wi_status ?w = Running"
    by (simp_all add: instance_new_def Let_def)
  show d: "wi_def ?w = d" by (simp add: instance_new_def Let_def)
  have inv: "wf_inv ?w" by (rule new_inv [OF assms])
  then have wf: "wi_wf ?w" by (simp add: wf_inv_def)
  show "live_inv ?w"
    using inv st by (cases "wd_nodes d") (simp_all add: live_inv_def status_settled_def terminal_iff [OF wf])
  show "get_node_state ?w n = Pending"
    using assms(1) st by (auto simp: get_node_state_def d wd_wf_index split: option.splits)
qed

section \<open>Properties\<close>

text \<open>C20: no workflow without a cycle blocks by itself. After any run of operations on a fresh instance of
  an acyclic definition, as long as no node has failed there is a continuation of exactly the remaining
  starts and completions that completes every node and, unless the workflow is empty, ends in success;
  and when no operation is accepted any more, every node has completed, failed, or waits, directly or
  through others, for a failed one.\<close>

theorem workflow_completable:
  assumes "wd_wf d" and "length (wd_nodes d) < 2 ^ 32" and "acyclic (dep_rel d)"
    and "run_all wf_exec ops (instance_new d t m) = Inr w"
  shows "((\<forall>n \<in> set (wd_nodes d). get_node_state w n \<noteq> Failed) \<longrightarrow>
      (\<exists>rest w'. run_all wf_exec rest w = Inr w' \<and> length rest = work_left w \<and> (\<forall>op \<in> set rest. \<not> is_fail op)
        \<and> (\<forall>n \<in> set (wd_nodes d). get_node_state w' n = Completed)
        \<and> (wd_nodes d \<noteq> [] \<longrightarrow> wi_status w' = Success)))
    \<and> ((\<forall>op. \<not> wf_enabled op w) \<longrightarrow>
      (\<forall>n \<in> set (wd_nodes d). get_node_state w n = Completed \<or> get_node_state w n = Failed
        \<or> get_node_state w n = Pending \<and> (\<exists>f. (f, n) \<in> (dep_rel d)\<^sup>+ \<and> get_node_state w f = Failed)))"
    (is "?complete \<and> ?stuck")
proof
  note fresh = fresh_live [OF assms(1,2), where t = t and m = m]
  have live: "live_inv w" using live.run_inv [OF fresh(1) assms(4)] .
  then have inv: "wf_inv w" and wf: "wi_wf w" by (simp_all add: live_inv_def wf_inv_def)
  have d: "wi_def w = d"
    using wf.run_rel [OF new_inv [OF assms(1,2)] assms(4)] fresh(2) by (simp add: wf_progress_def)
  show ?complete
  proof
    assume "\<forall>n \<in> set (wd_nodes d). get_node_state w n \<noteq> Failed"
    then have "Failed \<notin> set (wi_node_states w)" by (auto simp: states_of_nodes [OF wf] d)
    then obtain rest w' where r: "run_all wf_exec rest w = Inr w'" "length rest = work_left w"
        "\<forall>op \<in> set rest. \<not> is_fail op" "wi_is_terminal w'" "Failed \<notin> set (wi_node_states w')"
      using completes [OF live] assms(3) d by auto
    have l': "live_inv w'" using live.run_inv [OF live r(1)] .
    then have wf': "wi_wf w'" by (simp add: live_inv_def wf_inv_def)
    have d': "wi_def w' = d" using wf.run_rel [OF inv r(1)] d by (simp add: wf_progress_def)
    have all: "get_node_state w' n = Completed" if "n \<in> set (wd_nodes d)" for n
      using r(4,5) that by (cases "get_node_state w' n") (auto simp: terminal_iff [OF wf'] states_of_nodes [OF wf'] d')
    moreover have "wi_status w' = Success" if "wd_nodes d \<noteq> []"
    proof -
      have "wi_node_states w' \<noteq> []" using that wf' d' by (auto simp: wi_wf_def)
      then show ?thesis
        using l' r(4,5) terminal_iff(2) [OF wf'] by (simp add: live_inv_def status_settled_def)
    qed
    ultimately show "\<exists>rest w'. run_all wf_exec rest w = Inr w' \<and> length rest = work_left w
        \<and> (\<forall>op \<in> set rest. \<not> is_fail op) \<and> (\<forall>n \<in> set (wd_nodes d). get_node_state w' n = Completed)
        \<and> (wd_nodes d \<noteq> [] \<longrightarrow> wi_status w' = Success)"
      using r(1-3) by blast
  qed
  show ?stuck
  proof (intro impI ballI)
    fix n assume s: "\<forall>op. \<not> wf_enabled op w" and n: "n \<in> set (wd_nodes d)"
    then have "get_node_state w n \<noteq> Active" using enabled_iff(2) [OF wf, of n] d by simp
    moreover have "\<exists>f. (f, n) \<in> (dep_rel d)\<^sup>+ \<and> get_node_state w f = Failed" if "get_node_state w n = Pending"
      using stuck_behind_failure [OF wf, of n] assms(3) s n that d by auto
    ultimately show "get_node_state w n = Completed \<or> get_node_state w n = Failed
        \<or> get_node_state w n = Pending \<and> (\<exists>f. (f, n) \<in> (dep_rel d)\<^sup>+ \<and> get_node_state w f = Failed)"
      by (cases "get_node_state w n") auto
  qed
qed

lemma demo_graph_acyclic: "acyclic (dep_rel demo_graph)"
proof -
  have "dep_rel demo_graph = {(1, 2)}" using demo_deps by (auto simp: dep_rel_def demo_graph_wf)
  then show ?thesis by (simp add: acyclic_insert) (simp add: acyclic_def)
qed

lemma workflow_completable_witness:
  "\<exists>rest w'. run_all wf_exec rest (instance_new demo_graph 10 3) = Inr w' \<and> length rest = 4
     \<and> get_node_state w' 2 = Completed \<and> wi_status w' = Success"
proof -
  have w: "work_left (instance_new demo_graph 10 3) = 4"
    by (simp add: work_left_def instance_new_def Let_def count_list_replicate demo_graph_wf)
  have l: "length (wd_nodes demo_graph) < 2 ^ 32" by (simp add: demo_graph_wf)
  have "\<forall>n \<in> set (wd_nodes demo_graph). get_node_state (instance_new demo_graph 10 3) n \<noteq> Failed"
    using fresh_live(3) [OF demo_graph_wf(1) l] by simp
  then have "\<exists>rest w'. run_all wf_exec rest (instance_new demo_graph 10 3) = Inr w' \<and> length rest = 4
      \<and> (\<forall>n \<in> set (wd_nodes demo_graph). get_node_state w' n = Completed)
      \<and> (wd_nodes demo_graph \<noteq> [] \<longrightarrow> wi_status w' = Success)"
    using workflow_completable [OF demo_graph_wf(1) l demo_graph_acyclic, of "[]" 10 3] w by auto
  moreover have "wd_nodes demo_graph \<noteq> []" "2 \<in> set (wd_nodes demo_graph)"
    using demo_graph_wf(3) by auto
  ultimately show ?thesis by blast
qed

text \<open>Nodes each of which depends on another of them, and the workflow without nodes, on any definition.\<close>

lemma cycle_blocks:
  assumes "wd_wf d" and "length (wd_nodes d) < 2 ^ 32"
    and "run_all wf_exec ops (instance_new d t m) = Inr w"
  shows "(\<forall>C. C \<subseteq> set (wd_nodes d) \<and> C \<noteq> {} \<and> (\<forall>n \<in> C. \<exists>p \<in> C. p \<in> set (dependencies d n)) \<longrightarrow>
        (\<forall>n \<in> C. get_node_state w n = Pending) \<and> \<not> wi_is_terminal w \<and> wi_status w \<noteq> Success)
    \<and> (wd_nodes d = [] \<longrightarrow> ops = [] \<and> wi_is_terminal w \<and> wi_status w = Running \<and> (\<forall>op. \<not> wf_enabled op w))"
proof (intro conjI allI impI ballI)
  note fresh = fresh_live [OF assms(1,2), where t = t and m = m]
  have inv: "wf_inv (instance_new d t m)" by (rule new_inv [OF assms(1,2)])
  have live: "live_inv w" using live.run_inv [OF fresh(1) assms(3)] .
  then have wf: "wi_wf w" by (simp add: live_inv_def wf_inv_def)
  have d: "wi_def w = d" using wf.run_rel [OF inv assms(3)] fresh(2) by (simp add: wf_progress_def)
  fix C
  assume C: "C \<subseteq> set (wd_nodes d) \<and> C \<noteq> {} \<and> (\<forall>n \<in> C. \<exists>p \<in> C. p \<in> set (dependencies d n))"
  have p: "\<forall>n \<in> C. get_node_state w n = Pending"
    using never_starts_run [OF inv _ _ assms(3), of C] C fresh(2,3) by simp
  then show "get_node_state w n = Pending" if "n \<in> C" for n using that by simp
  have "Pending \<in> set (wi_node_states w)" using p C d by (auto simp: states_of_nodes [OF wf])
  then show nt: "\<not> wi_is_terminal w" by (simp add: terminal_iff [OF wf])
  then show "wi_status w \<noteq> Success" using live by (auto simp: live_inv_def status_settled_def)
next
  assume e: "wd_nodes d = []"
  let ?w = "instance_new d t m"
  have wf: "wi_wf ?w" using new_inv [OF assms(1,2)] by (simp add: wf_inv_def)
  have off: "\<not> wf_enabled op ?w" for op
    using e fresh_live(2) [OF assms(1,2)] by (cases op) (simp_all add: enabled_iff [OF wf])
  show ops: "ops = []"
  proof (cases ops)
    case (Cons op os)
    then have "wf_enabled op ?w" using assms(3) by (auto simp: wf_enabled_def is_ok_iff split: sum.splits)
    then show ?thesis using off by simp
  qed
  then have w: "w = ?w" using assms(3) by simp
  show "\<not> wf_enabled op w" for op using off w by simp
  show "wi_is_terminal w" "wi_status w = Running"
    using e by (simp_all add: w instance_new_def Let_def wi_is_terminal_def)
qed

text \<open>C21: a cycle blocks its workflow for ever, and validation does not exclude one. Every graph whose edges
  join listed nodes is accepted, cyclic ones included. In an instance of it, nodes each of which depends
  on another of them stay pending along every run, so the workflow neither ends nor succeeds. The
  workflow without nodes is accepted too; it is terminal from the start, accepts no operation and stays
  Running.\<close>

theorem workflow_deadlocks:
  assumes "\<forall>x \<in> set es. eg_source x \<in> set ns \<and> eg_target x \<in> set ns" and "card (set ns) < 2 ^ 32"
  shows "\<exists>d. workflow_def_validated ns es = Inr d
    \<and> (\<forall>C ops w. C \<subseteq> set ns \<and> C \<noteq> {} \<and> (\<forall>n \<in> C. \<exists>x \<in> set es. eg_target x = n \<and> eg_source x \<in> C)
          \<and> run_all wf_exec ops (instance_new d t m) = Inr w \<longrightarrow>
        (\<forall>n \<in> C. get_node_state w n = Pending) \<and> \<not> wi_is_terminal w \<and> wi_status w \<noteq> Success)
    \<and> (ns = [] \<longrightarrow> wi_is_terminal (instance_new d t m) \<and> wi_status (instance_new d t m) = Running
        \<and> (\<forall>op. \<not> wf_enabled op (instance_new d t m)))"
proof -
  let ?d = "workflow_def_new (remdups_adj (sort ns)) es"
  note d = validated_graph [OF assms(1)]
  have wf: "wd_wf ?d" using d(2) by (rule workflow_def_new_wf)
  have n: "set (wd_nodes ?d) = set ns" "wd_edges ?d = es" by simp_all
  have l: "length (wd_nodes ?d) < 2 ^ 32" using distinct_card [OF d(2)] assms(2) by simp
  have deps: "set (dependencies ?d k) = {eg_source x |x. x \<in> set es \<and> eg_target x = k}" if "k \<in> set ns" for k
    using dependencies_eq [OF wf, of k] that assms(1) n by auto
  have "(\<forall>k \<in> C. get_node_state w k = Pending) \<and> \<not> wi_is_terminal w \<and> wi_status w \<noteq> Success"
    if "C \<subseteq> set ns \<and> C \<noteq> {} \<and> (\<forall>k \<in> C. \<exists>x \<in> set es. eg_target x = k \<and> eg_source x \<in> C)
        \<and> run_all wf_exec ops (instance_new ?d t m) = Inr w" for C ops w
  proof -
    have "\<forall>k \<in> C. \<exists>p \<in> C. p \<in> set (dependencies ?d k)" using that deps by fastforce
    with that n(1) show ?thesis
      using cycle_blocks [OF wf l, of ops t m w, THEN conjunct1, THEN spec, of C] by (simp only: simp_thms) blast
  qed
  moreover have "wi_is_terminal (instance_new ?d t m) \<and> wi_status (instance_new ?d t m) = Running
      \<and> (\<forall>op. \<not> wf_enabled op (instance_new ?d t m))" if "ns = []"
    using cycle_blocks [OF wf l, of "[]" t m] that by simp
  ultimately show ?thesis using d(1) by blast
qed

definition demo_edges :: "edge list" where
  "demo_edges = [\<lparr>eg_source = 1, eg_target = 2\<rparr>, \<lparr>eg_source = 2, eg_target = 1\<rparr>]"

lemma workflow_deadlocks_witness:
  "(\<exists>d. workflow_def_validated [1, 2] demo_edges = Inr d \<and> get_node_state (instance_new d 10 3) 1 = Pending
      \<and> \<not> wi_is_terminal (instance_new d 10 3))
   \<and> (\<exists>d. workflow_def_validated [] [] = Inr d \<and> wi_is_terminal (instance_new d 10 3))"
proof
  have e: "\<forall>x \<in> set demo_edges. eg_source x \<in> set [1, 2] \<and> eg_target x \<in> set [1, 2]"
    and c: "card (set [1, 2 :: u64]) < 2 ^ 32"
    by (simp_all add: demo_edges_def)
  obtain d where d: "workflow_def_validated [1, 2] demo_edges = Inr d"
    and b: "\<And>C ops w. C \<subseteq> set [1, 2] \<and> C \<noteq> {} \<and> (\<forall>n \<in> C. \<exists>x \<in> set demo_edges. eg_target x = n \<and> eg_source x \<in> C)
        \<and> run_all wf_exec ops (instance_new d 10 3) = Inr w \<Longrightarrow>
      (\<forall>n \<in> C. get_node_state w n = Pending) \<and> \<not> wi_is_terminal w \<and> wi_status w \<noteq> Success"
    using workflow_deadlocks [OF e c, of 10 3] by blast
  have "get_node_state (instance_new d 10 3) 1 = Pending \<and> \<not> wi_is_terminal (instance_new d 10 3)"
    using b [of "{1, 2}" "[]" "instance_new d 10 3"] by (simp add: demo_edges_def)
  with d show "\<exists>d. workflow_def_validated [1, 2] demo_edges = Inr d \<and> get_node_state (instance_new d 10 3) 1 = Pending
      \<and> \<not> wi_is_terminal (instance_new d 10 3)" by blast
  show "\<exists>d. workflow_def_validated [] [] = Inr d \<and> wi_is_terminal (instance_new d 10 3)"
    using workflow_deadlocks [of "[]" "[]" 10 3] by auto
qed

end
