(* ===== verification/LionWorkflowSpec.thy ===== *)
theory LionWorkflowSpec
  imports LionWorkflowLive
begin

text \<open>
  An abstract specification of a workflow instance (\<open>state/workflow.rs\<close>), and the proof that the node
  operations refine it: a map from nodes to states instead of an index into dense vectors, the edge
  list instead of precomputed adjacency, natural numbers for the retries, quantifiers over the
  nodes instead of the three counters.
\<close>

section \<open>The specification\<close>

record flow_spec =
  fs_state :: "u64 \<rightharpoonup> node_state"
  fs_retries :: "u64 \<Rightarrow> nat"
  fs_status :: workflow_status

definition flow_spec_initial :: "u64 set \<Rightarrow> nat \<Rightarrow> flow_spec" where
  "flow_spec_initial ns r =
     \<lparr>fs_state = (\<lambda>n. if n \<in> ns then Some Pending else None),
      fs_retries = (\<lambda>n. if n \<in> ns then r else 0), fs_status = Running\<rparr>"

text \<open>The sources of the edges into a node that have not completed, in edge order.\<close>

definition waiting_for :: "edge list \<Rightarrow> flow_spec \<Rightarrow> u64 \<Rightarrow> u64 list" where
  "waiting_for es s n =
     map eg_source (filter (\<lambda>e. eg_target e = n \<and> fs_state s (eg_source e) \<notin> {None, Some Completed}) es)"

definition flow_over :: "flow_spec \<Rightarrow> bool" where
  "flow_over s \<longleftrightarrow> Some Pending \<notin> range (fs_state s) \<and> Some Active \<notin> range (fs_state s)"

definition flow_failed :: "flow_spec \<Rightarrow> bool" where
  "flow_failed s \<longleftrightarrow> Some Failed \<in> range (fs_state s)"

definition flow_outcome :: "flow_spec \<Rightarrow> flow_spec" where
  "flow_outcome s =
     (if flow_over s then s\<lparr>fs_status := if flow_failed s then Failure else Success\<rparr> else s)"

definition flow_move :: "u64 \<Rightarrow> node_state \<Rightarrow> flow_spec \<Rightarrow> flow_spec" where
  "flow_move n v s = s\<lparr>fs_state := (fs_state s)(n \<mapsto> v)\<rparr>"

fun flow_spec_step :: "edge list \<Rightarrow> wf_op \<Rightarrow> flow_spec \<Rightarrow> workflow_error + flow_spec" where
  "flow_spec_step es (StartOp n) s =
     (case fs_state s n of
        None \<Rightarrow> Inl (NodeNotFound n)
      | Some st \<Rightarrow>
          if st \<noteq> Pending then Inl (InvalidTransition n st Active)
          else if waiting_for es s n \<noteq> [] then Inl (DependenciesNotSatisfied n (waiting_for es s n))
          else Inr (flow_move n Active s))"
| "flow_spec_step es (CompleteOp n) s =
     (case fs_state s n of
        None \<Rightarrow> Inl (NodeNotFound n)
      | Some st \<Rightarrow>
          if st \<noteq> Active then Inl (InvalidTransition n st Completed)
          else Inr (flow_outcome (flow_move n Completed s)))"
| "flow_spec_step es (FailOp n) s =
     (case fs_state s n of
        None \<Rightarrow> Inl (NodeNotFound n)
      | Some st \<Rightarrow>
          if st \<noteq> Active then Inl (InvalidTransition n st Failed)
          else if fs_retries s n > 0
          then Inr ((flow_move n Pending s)\<lparr>fs_retries := (fs_retries s)(n := fs_retries s n - 1)\<rparr>)
          else Inr ((flow_move n Failed s)\<lparr>fs_status := Failure\<rparr>))"

section \<open>The simulation\<close>

definition flow_abs :: "workflow_instance \<Rightarrow> flow_spec" where
  "flow_abs w =
     \<lparr>fs_state = (\<lambda>n. if n \<in> set (wd_nodes (wi_def w)) then Some (get_node_state w n) else None),
      fs_retries = (\<lambda>n. unat (get_retries w n)), fs_status = wi_status w\<rparr>"

lemma flow_abs_sel [simp]:
  "fs_state (flow_abs w) n = (if n \<in> set (wd_nodes (wi_def w)) then Some (get_node_state w n) else None)"
  "fs_retries (flow_abs w) n = unat (get_retries w n)" "fs_status (flow_abs w) = wi_status w"
  by (simp_all add: flow_abs_def)

lemma node_reads_cong:
  "wi_def w' = wi_def w \<Longrightarrow> wi_node_states w' = wi_node_states w \<Longrightarrow> get_node_state w' = get_node_state w"
  "wi_def w' = wi_def w \<Longrightarrow> wi_retries w' = wi_retries w \<Longrightarrow> get_retries w' = get_retries w"
  by (simp_all add: fun_eq_iff get_node_state_def get_retries_def split: option.split)

lemma flow_abs_status: "flow_abs (w\<lparr>wi_status := x\<rparr>) = (flow_abs w)\<lparr>fs_status := x\<rparr>"
  by (simp add: flow_abs_def fun_eq_iff node_reads_cong [of "w\<lparr>wi_status := x\<rparr>" w])

lemma flow_state_iff:
  "wi_wf w \<Longrightarrow> Some v \<in> range (fs_state (flow_abs w)) \<longleftrightarrow> v \<in> set (wi_node_states w)"
  by (auto simp: states_of_nodes image_iff split: if_splits)

lemma flow_over_abs:
  assumes "wi_wf w"
  shows "flow_over (flow_abs w) \<longleftrightarrow> wi_is_terminal w" and "flow_failed (flow_abs w) \<longleftrightarrow> wi_has_failure w"
  unfolding flow_over_def flow_failed_def flow_state_iff [OF assms] terminal_iff [OF assms] by simp_all

lemma flow_outcome_abs: "wi_wf w \<Longrightarrow> flow_abs (update_workflow_status w) = flow_outcome (flow_abs w)"
  by (simp add: flow_outcome_def flow_over_abs update_workflow_status_def flow_abs_status)

lemma flow_move_abs:
  assumes "wi_wf w" and "node_index (wi_def w) n = Some i"
  shows "flow_abs (transition w i v) = flow_move n v (flow_abs w)"
proof -
  have "n \<in> set (wd_nodes (wi_def w))"
    using assms wd_wf_index_None [of "wi_def w" n] by (auto simp: wi_wf_def)
  then show ?thesis
    using get_node_state_move [OF assms, of "transition w i v" v]
    by (simp add: flow_abs_def flow_move_def fun_eq_iff node_reads_cong(2) [of "transition w i v" w])
qed

lemma flow_waiting_abs:
  assumes "wi_wf w" and "n \<in> set (wd_nodes (wi_def w))"
  shows "waiting_for (wd_edges (wi_def w)) (flow_abs w) n =
    filter (\<lambda>p. get_node_state w p \<noteq> Completed) (dependencies (wi_def w) n)"
proof -
  have "wd_wf (wi_def w)" using assms(1) by (simp add: wi_wf_def)
  then show ?thesis
    by (auto simp: dependencies_eq [OF _ assms(2)] waiting_for_def filter_map o_def
        intro!: arg_cong [of _ _ "map eg_source"] filter_cong)
qed

lemma flow_retry_abs:
  assumes "wi_wf w" and "node_index (wi_def w) n = Some i" and "wi_retries w ! i > 0"
  shows "flow_abs ((transition w i Pending)\<lparr>wi_retries := (wi_retries w)[i := wi_retries w ! i - 1]\<rparr>) =
    (flow_move n Pending (flow_abs w))\<lparr>fs_retries := (fs_retries (flow_abs w))(n := fs_retries (flow_abs w) n - 1)\<rparr>"
proof -
  let ?w = "(transition w i Pending)\<lparr>wi_retries := (wi_retries w)[i := wi_retries w ! i - 1]\<rparr>"
  have l: "i < length (wi_retries w)" using wi_wf_index [OF assms(1,2)] by simp
  have "wd_wf (wi_def w)" using assms(1) by (simp add: wi_wf_def)
  then have j: "j = i \<longleftrightarrow> m = n" if "node_index (wi_def w) m = Some j" for m j
    using that assms(2) by (auto simp: wd_wf_index wd_wf_def nth_eq_iff_index_eq)
  have "unat (get_retries ?w m) = (if m = n then unat (get_retries w n) - 1 else unat (get_retries w m))" for m
  proof (cases "node_index (wi_def w) m")
    case (Some k)
    then show ?thesis using j [OF Some] l assms(2,3)
      by (auto simp: get_retries_def unat_ucast_wide unat_minus_one word_gt_0)
  qed (use assms(2) in \<open>auto simp: get_retries_def\<close>)
  moreover have "fs_state (flow_abs ?w) = fs_state (flow_abs (transition w i Pending))"
    by (simp add: flow_abs_def fun_eq_iff node_reads_cong(1) [of ?w "transition w i Pending"])
  ultimately show ?thesis
    using flow_move_abs [OF assms(1,2), of Pending]
    by (simp add: flow_abs_def flow_move_def fun_eq_iff)
qed

lemma flow_square:
  assumes w: "wi_wf w"
  shows "flow_spec_step (wd_edges (wi_def w)) op (flow_abs w) = map_sum id flow_abs (wf_exec op w)"
proof -
  note ops = node_operations [OF w]
  have d: "wd_wf (wi_def w)" using w by (simp add: wi_wf_def)
  show ?thesis
  proof (cases "node_index (wi_def w) (op_node op)")
    case None
    then have "op_node op \<notin> set (wd_nodes (wi_def w))" using wd_wf_index_None [OF d] by simp
    with None show ?thesis by (cases op) (simp_all add: ops)
  next
    case (Some i)
    have n: "op_node op \<in> set (wd_nodes (wi_def w))" using wd_wf_index_None [OF d, of "op_node op"] Some by fastforce
    have i: "i < length (wi_node_states w)" using wi_wf_index [OF w Some] by simp
    have r: "get_retries w (op_node op) > 0 \<longleftrightarrow> wi_retries w ! i > 0"
      using Some by (simp add: get_retries_def word_less_nat_alt unat_ucast_wide)
    note move = flow_move_abs [OF w Some]
    show ?thesis
    proof (cases op)
      case (StartOp m)
      then show ?thesis using Some n move flow_waiting_abs [OF w n]
        by (simp add: ops filter_empty_conv)
    next
      case (CompleteOp m)
      then show ?thesis
        using Some n move flow_outcome_abs [OF wi_wf_transition [OF w i, of Completed]] by (simp add: ops)
    next
      case (FailOp m)
      then show ?thesis
        using Some n move r flow_retry_abs [OF w Some]
        by (simp add: ops flow_abs_status word_less_nat_alt)
    qed
  qed
qed

interpretation flow_refines: functional_refinement wf_exec "\<lambda>w. wi_wf w \<and> wi_def w = d"
  "flow_spec_step (wd_edges d)" id flow_abs for d
proof unfold_locales
  show "wi_wf w' \<and> wi_def w' = d" if "wi_wf w \<and> wi_def w = d" "wf_exec op w = Inr w'" for op w w'
    using wf_exec_wf wf_exec_moves that by metis
qed (metis flow_square)

lemma flow_abs_new:
  assumes "wd_wf d"
  shows "flow_abs (instance_new d t m) = flow_spec_initial (set (wd_nodes d)) (min (unat m) 65535)"
proof -
  have "get_node_state (instance_new d t m) n = Pending \<and>
      unat (get_retries (instance_new d t m) n) = (if n \<in> set (wd_nodes d) then min (unat m) 65535 else 0)" for n
  proof (cases "node_index d n")
    case None
    then show ?thesis using wd_wf_index_None [OF assms, of n]
      by (simp add: get_node_state_def get_retries_def instance_new_def Let_def)
  next
    case (Some i)
    then have "i < length (wd_nodes d)" "n \<in> set (wd_nodes d)" using wd_wf_index [OF assms, of n i] by auto
    with Some retry_clamp [of m] show ?thesis
      by (simp add: get_node_state_def get_retries_def instance_new_def Let_def unat_ucast_wide split del: if_split)
  qed
  then show ?thesis by (simp add: flow_abs_def flow_spec_initial_def fun_eq_iff) (simp add: instance_new_def Let_def)
qed

text \<open>The counters count nodes.\<close>

lemma count_nodes:
  assumes "wi_wf w"
  shows "count_list (wi_node_states w) v = card {n. fs_state (flow_abs w) n = Some v}"
proof -
  let ?ns = "wd_nodes (wi_def w)"
  have d: "wd_wf (wi_def w)" "distinct ?ns" "length (wi_node_states w) = length ?ns"
    using assms by (simp_all add: wi_wf_def wd_wf_def)
  have g: "get_node_state w (?ns ! i) = wi_node_states w ! i" if "i < length ?ns" for i
    using that wd_wf_index [OF d(1), of "?ns ! i" i] by (simp add: get_node_state_def)
  have "{n. fs_state (flow_abs w) n = Some v} = (!) ?ns ` {i. i < length (wi_node_states w) \<and> v = wi_node_states w ! i}"
    using g d(3) by (auto simp: in_set_conv_nth image_iff split: if_splits)
  moreover have "inj_on ((!) ?ns) {i. i < length (wi_node_states w) \<and> v = wi_node_states w ! i}"
    using d by (auto intro: inj_onI simp: nth_eq_iff_index_eq)
  ultimately show ?thesis
    by (simp add: count_list_eq_length_filter length_filter_conv_card card_image)
qed

section \<open>Property\<close>

text \<open>C17: a workflow implements its specification. On a fresh instance every sequence of operations gets the
  specification's answer, the same refusal with the same reason included, and ends in corresponding
  states; the counts of pending and active nodes and the terminal and failure flags, which the code keeps
  in machine counters, are those of the specification's map.\<close>

theorem workflow_refines_spec:
  assumes "wd_wf d" and "length (wd_nodes d) < 2 ^ 32"
  shows "run_all (flow_spec_step (wd_edges d)) ops (flow_spec_initial (set (wd_nodes d)) (min (unat m) 65535))
      = map_sum id flow_abs (run_all wf_exec ops (instance_new d t m))
    \<and> (\<forall>w. run_all wf_exec ops (instance_new d t m) = Inr w \<longrightarrow>
         pending_count w = card {n. fs_state (flow_abs w) n = Some Pending} \<and>
         active_count w = card {n. fs_state (flow_abs w) n = Some Active} \<and>
         (wi_is_terminal w \<longleftrightarrow> flow_over (flow_abs w)) \<and> (wi_has_failure w \<longleftrightarrow> flow_failed (flow_abs w)))"
proof -
  have i: "wi_wf (instance_new d t m) \<and> wi_def (instance_new d t m) = d"
    using wi_wf_new [OF assms] by (simp add: instance_new_def Let_def)
  have "pending_count w = card {n. fs_state (flow_abs w) n = Some Pending} \<and>
         active_count w = card {n. fs_state (flow_abs w) n = Some Active} \<and>
         (wi_is_terminal w \<longleftrightarrow> flow_over (flow_abs w)) \<and> (wi_has_failure w \<longleftrightarrow> flow_failed (flow_abs w))"
    if "run_all wf_exec ops (instance_new d t m) = Inr w" for w
  proof -
    have w: "wi_wf w" using flow_refines.run_inv [OF i that] by simp
    then have "counts_ok w" by (simp add: wi_wf_def)
    with w show ?thesis
      unfolding count_nodes [OF w, symmetric] flow_over_abs [OF w]
      by (simp add: counts_ok_def pending_count_def active_count_def)
  qed
  then show ?thesis using flow_refines.run_square [OF i, of ops] flow_abs_new [OF assms(1)] by simp
qed

lemma workflow_refines_spec_witness:
  "\<exists>w. run_all wf_exec [StartOp 1, CompleteOp 1, StartOp 2, FailOp 2] (instance_new demo_graph 10 3) = Inr w
    \<and> pending_count w = 1 \<and> active_count w = 0"
proof -
  let ?ops = "[StartOp 1, CompleteOp 1, StartOp 2, FailOp 2]"
  let ?s = "(flow_spec_initial {1, 2} 3)\<lparr>fs_state := [1 \<mapsto> Completed, 2 \<mapsto> Pending],
    fs_retries := (fs_retries (flow_spec_initial {1, 2} 3))(2 := 2)\<rparr>"
  have "length (wd_nodes demo_graph) < 2 ^ 32" by (simp add: demo_graph_wf)
  note r = workflow_refines_spec [OF demo_graph_wf(1) this, of ?ops 3 10]
  have "wd_edges demo_graph = [\<lparr>eg_source = 1, eg_target = 2\<rparr>]" by (simp add: demo_graph_def)
  then have "run_all (flow_spec_step (wd_edges demo_graph)) ?ops (flow_spec_initial {1, 2} 3) = Inr ?s"
    by (simp add: flow_spec_initial_def waiting_for_def flow_move_def flow_outcome_def flow_over_def fun_eq_iff)
  then have "map_sum id flow_abs (run_all wf_exec ?ops (instance_new demo_graph 10 3)) = Inr ?s"
    using conjunct1 [OF r] by (simp only: demo_graph_wf) simp
  then obtain w where w: "run_all wf_exec ?ops (instance_new demo_graph 10 3) = Inr w" and a: "flow_abs w = ?s"
    by (rule map_sum_Inr)
  have "{n. fs_state ?s n = Some Pending} = {2}" "{n. fs_state ?s n = Some Active} = {}"
    by (auto split: if_splits)
  moreover have "pending_count w = card {n. fs_state (flow_abs w) n = Some Pending}"
    "active_count w = card {n. fs_state (flow_abs w) n = Some Active}" using r w by blast+
  ultimately show ?thesis using w unfolding a by simp
qed
end
