(* ===== verification/LionRights.thy ===== *)
theory LionRights
  imports LionPrelude
begin

unbundle bit_operations_syntax

text \<open>
  The rights algebra of \<open>types/rights.rs\<close>: ten rights, each one bit of a 16-bit word.
  \<open>rights_set\<close> is the abstract value of a bitset; the bitwise operations refine the set
  operations, and \<open>rights_wf\<close> (no bit outside \<open>ALL_RIGHTS_MASK\<close>) is kept by all of them.
\<close>

section \<open>Rights\<close>

datatype right =
  Read | Write | Execute | Create | Delete | Send | Receive | Delegate | Revoke | Declassify

fun right_to_u8 :: "right \<Rightarrow> u8" where
  "right_to_u8 Read = 0"
| "right_to_u8 Write = 1"
| "right_to_u8 Execute = 2"
| "right_to_u8 Create = 3"
| "right_to_u8 Delete = 4"
| "right_to_u8 Send = 5"
| "right_to_u8 Receive = 6"
| "right_to_u8 Delegate = 7"
| "right_to_u8 Revoke = 8"
| "right_to_u8 Declassify = 9"

definition right_ALL :: "right list" where
  "right_ALL =
     [Read, Write, Execute, Create, Delete, Send, Receive, Delegate, Revoke, Declassify]"

definition right_from_u8 :: "u8 \<Rightarrow> right option" where
  "right_from_u8 v =
     (if v = 0 then Some Read else if v = 1 then Some Write else if v = 2 then Some Execute
      else if v = 3 then Some Create else if v = 4 then Some Delete else if v = 5 then Some Send
      else if v = 6 then Some Receive else if v = 7 then Some Delegate
      else if v = 8 then Some Revoke else if v = 9 then Some Declassify else None)"

definition right_as_mask :: "right \<Rightarrow> u16" where
  "right_as_mask r = push_bit (unat (right_to_u8 r)) 1"

section \<open>Rights sets\<close>

datatype rights_error = NoRights | InvalidRight u8

definition ALL_RIGHTS_MASK :: u16 where
  "ALL_RIGHTS_MASK = 0x03FF"

record rights =
  rights_bits :: u16

definition rights_empty :: rights where
  "rights_empty = \<lparr>rights_bits = 0\<rparr>"

definition rights_all :: rights where
  "rights_all = \<lparr>rights_bits = ALL_RIGHTS_MASK\<rparr>"

definition rights_singleton :: "right \<Rightarrow> rights" where
  "rights_singleton x = \<lparr>rights_bits = right_as_mask x\<rparr>"

fun from_slice_loop :: "right list \<Rightarrow> u16 \<Rightarrow> u16" where
  "from_slice_loop [] bits = bits"
| "from_slice_loop (x # xs) bits = from_slice_loop xs (bits OR right_as_mask x)"

definition rights_from_slice :: "right list \<Rightarrow> rights" where
  "rights_from_slice xs = \<lparr>rights_bits = from_slice_loop xs 0\<rparr>"

definition rights_from_bits :: "u16 \<Rightarrow> rights" where
  "rights_from_bits b = \<lparr>rights_bits = b AND ALL_RIGHTS_MASK\<rparr>"

definition rights_is_empty :: "rights \<Rightarrow> bool" where
  "rights_is_empty r \<longleftrightarrow> rights_bits r = 0"

definition rights_len :: "rights \<Rightarrow> nat" where
  "rights_len r = length (filter (bit (rights_bits r)) [0..<16])"

definition rights_contains :: "rights \<Rightarrow> right \<Rightarrow> bool" where
  "rights_contains r x \<longleftrightarrow> rights_bits r AND right_as_mask x \<noteq> 0"

definition rights_insert :: "rights \<Rightarrow> right \<Rightarrow> bool \<times> rights" where
  "rights_insert r x =
     (let mask = right_as_mask x
      in (rights_bits r AND mask = 0, \<lparr>rights_bits = rights_bits r OR mask\<rparr>))"

definition rights_remove :: "rights \<Rightarrow> right \<Rightarrow> bool \<times> rights" where
  "rights_remove r x =
     (let mask = right_as_mask x
      in (rights_bits r AND mask \<noteq> 0, \<lparr>rights_bits = rights_bits r AND NOT mask\<rparr>))"

definition rights_is_subset_of :: "rights \<Rightarrow> rights \<Rightarrow> bool" where
  "rights_is_subset_of r s \<longleftrightarrow> rights_bits r AND NOT (rights_bits s) = 0"

definition rights_combine :: "rights \<Rightarrow> rights \<Rightarrow> rights" where
  "rights_combine r s = \<lparr>rights_bits = rights_bits r AND rights_bits s\<rparr>"

definition rights_intersection :: "rights \<Rightarrow> rights \<Rightarrow> rights" where
  "rights_intersection r s = rights_combine r s"

definition rights_union :: "rights \<Rightarrow> rights \<Rightarrow> rights" where
  "rights_union r s = \<lparr>rights_bits = rights_bits r OR rights_bits s\<rparr>"

definition rights_difference :: "rights \<Rightarrow> rights \<Rightarrow> rights" where
  "rights_difference r s = \<lparr>rights_bits = rights_bits r AND NOT (rights_bits s)\<rparr>"

definition rights_symmetric_difference :: "rights \<Rightarrow> rights \<Rightarrow> rights" where
  "rights_symmetric_difference r s = \<lparr>rights_bits = rights_bits r XOR rights_bits s\<rparr>"

definition rights_complement :: "rights \<Rightarrow> rights" where
  "rights_complement r = \<lparr>rights_bits = NOT (rights_bits r) AND ALL_RIGHTS_MASK\<rparr>"

definition rights_contains_any :: "rights \<Rightarrow> rights \<Rightarrow> bool" where
  "rights_contains_any r s \<longleftrightarrow> rights_bits r AND rights_bits s \<noteq> 0"

definition rights_with :: "rights \<Rightarrow> right \<Rightarrow> rights" where
  "rights_with r x = \<lparr>rights_bits = rights_bits r OR right_as_mask x\<rparr>"

definition rights_without :: "rights \<Rightarrow> right \<Rightarrow> rights" where
  "rights_without r x = \<lparr>rights_bits = rights_bits r AND NOT (right_as_mask x)\<rparr>"

text \<open>\<open>trailing_zeros\<close> of the standard library, and the loop of \<open>to_vec\<close>.\<close>

definition trailing_zeros :: "'a::len word \<Rightarrow> nat" where
  "trailing_zeros w = length (takeWhile (\<lambda>i. \<not> bit w i) [0..<LENGTH('a)])"

lemma clear_lowest_less: "w \<noteq> 0 \<Longrightarrow> unat (w AND (w - 1)) < unat (w :: 'a::len word)"
proof -
  assume w: "w \<noteq> 0"
  have "w AND (w - 1) \<le> w - 1" by (rule word_and_le1)
  then have "unat (w AND (w - 1)) \<le> unat (w - 1)" by (simp add: word_le_nat_alt)
  also have "\<dots> < unat w" using w by (rule measure_unat)
  finally show ?thesis .
qed

function to_vec_loop :: "u16 \<Rightarrow> right list" where
  "to_vec_loop remaining =
     (if remaining \<noteq> 0
      then (case right_from_u8 (of_nat (trailing_zeros remaining)) of
              Some r \<Rightarrow> r # to_vec_loop (remaining AND (remaining - 1))
            | None \<Rightarrow> to_vec_loop (remaining AND (remaining - 1)))
      else [])"
  by pat_completeness auto
termination
  by (relation "measure unat") (auto simp: clear_lowest_less)

declare to_vec_loop.simps [simp del]

definition rights_to_vec :: "rights \<Rightarrow> right list" where
  "rights_to_vec r = to_vec_loop (rights_bits r)"

section \<open>The set a bitset stands for\<close>

definition rights_set :: "rights \<Rightarrow> right set" where
  "rights_set r = {x. rights_contains r x}"

definition rights_wf :: "rights \<Rightarrow> bool" where
  "rights_wf r \<longleftrightarrow> rights_bits r AND NOT ALL_RIGHTS_MASK = 0"

definition right_index :: "right \<Rightarrow> nat" where
  "right_index x = unat (right_to_u8 x)"

lemma right_index_less: "right_index x < 10"
  by (cases x) (simp_all add: right_index_def)

lemma right_index_inj [simp]: "right_index x = right_index y \<longleftrightarrow> x = y"
  by (cases x; cases y) (simp_all add: right_index_def)

lemma right_of_index: "i < 10 \<Longrightarrow> \<exists>x. right_index x = i"
proof -
  assume "i < 10"
  then have "i \<in> {0,1,2,3,4,5,6,7,8,9}" by auto
  moreover have "right_index ` {Read, Write, Execute, Create, Delete, Send, Receive, Delegate, Revoke, Declassify}
      = {0,1,2,3,4,5,6,7,8,9}" by (simp add: right_index_def)
  ultimately show ?thesis by (metis imageE)
qed

lemma bit_as_mask: "bit (right_as_mask x) i \<longleftrightarrow> i = right_index x"
proof -
  have "right_as_mask x = push_bit (right_index x) 1" by (simp add: right_as_mask_def right_index_def)
  then show ?thesis using right_index_less [of x] by (auto simp: bit_exp_iff)
qed

lemma word_zero_iff: "w = 0 \<longleftrightarrow> (\<forall>i. \<not> bit w i)" for w :: "'a::len word"
  by (auto intro: bit_word_eqI)

lemma bit_not_u16: "bit (NOT w) i \<longleftrightarrow> i < 16 \<and> \<not> bit w i" for w :: u16
  by (simp add: bit_not_iff)

lemma bit_u16_less: "bit w i \<Longrightarrow> i < 16" for w :: u16
  using bit_imp_le_length [of w i] by simp

lemma and_as_mask: "w AND right_as_mask x \<noteq> 0 \<longleftrightarrow> bit w (right_index x)"
  by (auto simp: word_zero_iff bit_and_iff bit_as_mask)

lemma contains_bit: "rights_contains r x \<longleftrightarrow> bit (rights_bits r) (right_index x)"
  by (simp add: rights_contains_def and_as_mask)

lemma mem_rights_set: "x \<in> rights_set r \<longleftrightarrow> bit (rights_bits r) (right_index x)"
  by (simp add: rights_set_def contains_bit)

lemma ALL_RIGHTS_MASK_mask: "ALL_RIGHTS_MASK = mask 10"
  by (simp add: ALL_RIGHTS_MASK_def mask_eq_exp_minus_1)

lemma bit_ALL: "bit ALL_RIGHTS_MASK i \<longleftrightarrow> i < 10"
  by (auto simp: ALL_RIGHTS_MASK_mask bit_mask_iff)

lemma rights_wf_bits: "rights_wf r \<longleftrightarrow> (\<forall>i. bit (rights_bits r) i \<longrightarrow> i < 10)"
  by (auto simp: rights_wf_def word_zero_iff bit_and_iff bit_not_u16 bit_ALL bit_u16_less)

lemma rights_bit_index: "rights_wf r \<Longrightarrow> bit (rights_bits r) i \<longleftrightarrow> (\<exists>x \<in> rights_set r. i = right_index x)"
  unfolding mem_rights_set rights_wf_bits by (metis right_of_index mem_rights_set)

lemma rights_set_inject:
  assumes "rights_wf r" and "rights_wf s"
  shows "rights_set r = rights_set s \<longleftrightarrow> r = s"
proof
  assume "rights_set r = rights_set s"
  then have "rights_bits r = rights_bits s"
    by (intro bit_eqI) (simp add: rights_bit_index assms)
  then show "r = s" by (cases r; cases s) simp
qed simp

lemma rights_set_simps [simp]:
  "rights_set rights_empty = {}"
  "rights_set rights_all = UNIV"
  "rights_set (rights_singleton x) = {x}"
  "rights_set (rights_combine r s) = rights_set r \<inter> rights_set s"
  "rights_set (rights_intersection r s) = rights_set r \<inter> rights_set s"
  "rights_set (rights_union r s) = rights_set r \<union> rights_set s"
  "rights_set (rights_difference r s) = rights_set r - rights_set s"
  "rights_set (rights_symmetric_difference r s) =
     (rights_set r - rights_set s) \<union> (rights_set s - rights_set r)"
  "rights_set (rights_complement r) = - rights_set r"
  "rights_set (rights_with r x) = insert x (rights_set r)"
  "rights_set (rights_without r x) = rights_set r - {x}"
  "rights_set (rights_from_bits b) = {x. bit b (right_index x)}"
  using right_index_less
  by (auto simp: set_eq_iff mem_rights_set bit_not_u16 rights_empty_def rights_all_def rights_singleton_def
      rights_combine_def rights_intersection_def rights_union_def rights_difference_def
      rights_symmetric_difference_def rights_complement_def rights_with_def rights_without_def
      rights_from_bits_def bit_ALL bit_as_mask bit_and_iff bit_or_iff bit_xor_iff
      intro: less_trans [OF right_index_less])

lemma bit_from_slice_loop:
  "bit (from_slice_loop xs b) i \<longleftrightarrow> bit b i \<or> (\<exists>x \<in> set xs. i = right_index x)"
  by (induction xs arbitrary: b) (auto simp: bit_or_iff bit_as_mask)

lemma rights_set_from_slice [simp]: "rights_set (rights_from_slice xs) = set xs"
  by (auto simp: mem_rights_set rights_from_slice_def bit_from_slice_loop)

lemma rights_subset_iff:
  "rights_wf r \<Longrightarrow> rights_is_subset_of r s \<longleftrightarrow> rights_set r \<subseteq> rights_set s"
proof -
  assume wf: "rights_wf r"
  have "rights_is_subset_of r s \<longleftrightarrow> (\<forall>i. bit (rights_bits r) i \<longrightarrow> bit (rights_bits s) i)"
    by (auto simp: rights_is_subset_of_def word_zero_iff bit_and_iff bit_not_u16 bit_u16_less)
  also have "\<dots> \<longleftrightarrow> (\<forall>x. bit (rights_bits r) (right_index x) \<longrightarrow> bit (rights_bits s) (right_index x))"
    using wf unfolding rights_wf_bits by (metis right_of_index)
  finally show ?thesis by (simp add: subset_iff mem_rights_set)
qed

lemma rights_subset_sound: "rights_is_subset_of r s \<Longrightarrow> rights_set r \<subseteq> rights_set s"
  by (auto simp: rights_is_subset_of_def mem_rights_set word_zero_iff bit_and_iff bit_not_u16
      bit_u16_less)

lemma rights_is_empty_iff: "rights_wf r \<Longrightarrow> rights_is_empty r \<longleftrightarrow> rights_set r = {}"
  unfolding rights_is_empty_def word_zero_iff set_eq_iff mem_rights_set empty_iff rights_wf_bits
  by (metis right_of_index)

lemma rights_wf_ops [intro, simp]:
  "rights_wf rights_empty" "rights_wf rights_all" "rights_wf (rights_singleton x)"
  "rights_wf (rights_from_slice xs)" "rights_wf (rights_from_bits b)"
  "rights_wf (rights_complement r)"
  "rights_wf r \<Longrightarrow> rights_wf (rights_combine r s)"
  "rights_wf r \<Longrightarrow> rights_wf (rights_intersection r s)"
  "rights_wf s \<Longrightarrow> rights_wf (rights_intersection r s)"
  "rights_wf r \<Longrightarrow> rights_wf s \<Longrightarrow> rights_wf (rights_union r s)"
  "rights_wf r \<Longrightarrow> rights_wf (rights_difference r s)"
  "rights_wf r \<Longrightarrow> rights_wf s \<Longrightarrow> rights_wf (rights_symmetric_difference r s)"
  "rights_wf r \<Longrightarrow> rights_wf (rights_with r x)"
  "rights_wf r \<Longrightarrow> rights_wf (rights_without r x)"
  using right_index_less
  by (auto simp: rights_wf_bits rights_empty_def rights_all_def rights_singleton_def
      rights_from_slice_def bit_from_slice_loop
      rights_combine_def rights_intersection_def rights_union_def rights_difference_def
      rights_symmetric_difference_def rights_complement_def rights_with_def rights_without_def
      rights_from_bits_def bit_ALL bit_as_mask bit_and_iff bit_or_iff bit_xor_iff bit_not_iff)

section \<open>Enumerating a set\<close>

lemma length_takeWhile_stop: "x \<in> set xs \<Longrightarrow> \<not> P x \<Longrightarrow> length (takeWhile P xs) < length xs"
  by (induction xs) auto

lemma trailing_zeros_props:
  assumes "w \<noteq> (0 :: u16)"
  shows "bit w (trailing_zeros w)" and "\<And>i. i < trailing_zeros w \<Longrightarrow> \<not> bit w i"
proof -
  let ?P = "\<lambda>i. \<not> bit w i"
  obtain j where j: "bit w j" "j < 16" using assms by (auto simp: word_zero_iff dest: bit_u16_less)
  have "trailing_zeros w < length [0..<16]"
    using j length_takeWhile_stop [of j "[0..<16]" ?P] by (auto simp: trailing_zeros_def)
  then show "bit w (trailing_zeros w)"
    using nth_length_takeWhile [of ?P "[0..<16]"] by (simp add: trailing_zeros_def)
  fix i
  assume i: "i < trailing_zeros w"
  then have "takeWhile ?P [0..<16] ! i \<in> set (takeWhile ?P [0..<16])"
    by (simp add: trailing_zeros_def)
  moreover have "takeWhile ?P [0..<16] ! i = i"
    using i length_takeWhile_le [of ?P "[0..<16]"] by (simp add: trailing_zeros_def takeWhile_nth)
  ultimately show "\<not> bit w i" by (metis set_takeWhileD)
qed

lemma bit_clear_lowest:
  assumes "w \<noteq> (0 :: u16)"
  shows "bit (w AND (w - 1)) i \<longleftrightarrow> bit w i \<and> i \<noteq> trailing_zeros w"
proof -
  define n where "n = trailing_zeros w"
  have n: "bit w n" "\<And>i. i < n \<Longrightarrow> \<not> bit w i" "n < 16"
    using trailing_zeros_props [OF assms] bit_u16_less by (auto simp: n_def)
  define h where "h = push_bit (Suc n) (drop_bit (Suc n) w)"
  have h: "bit h i \<longleftrightarrow> n < i \<and> bit w i" for i
    by (auto simp: h_def bit_push_bit_iff bit_drop_bit_eq Suc_le_eq simp del: push_bit_Suc
        dest: bit_u16_less)
  have "w = h OR 2 ^ n"
    using n h by (intro bit_word_eqI) (auto simp: bit_or_iff bit_exp_iff, metis linorder_neqE_nat)
  also have "\<dots> = h + 2 ^ n"
    using h by (intro disjunctive_add_eq_or [symmetric] bit_word_eqI) (auto simp: bit_and_iff bit_exp_iff)
  finally have "w - 1 = h + mask n" by (simp add: mask_eq_exp_minus_1)
  also have "\<dots> = h OR mask n"
    using h by (intro disjunctive_add_eq_or bit_word_eqI) (auto simp: bit_and_iff bit_mask_iff)
  finally have "bit (w - 1) i \<longleftrightarrow> bit h i \<or> i < n" for i
    using n(3) by (auto simp: bit_or_iff bit_mask_iff)
  then have "bit (w AND (w - 1)) i \<longleftrightarrow> bit w i \<and> ((n < i \<and> bit w i) \<or> i < n)"
    by (simp only: bit_and_iff h)
  then show ?thesis using n(2) [of i] by (metis n_def nat_neq_iff)
qed

definition right_at :: "nat \<Rightarrow> right option" where
  "right_at i = right_from_u8 (of_nat i)"

lemma right_at_index: "right_at (right_index x) = Some x"
  by (cases x) (simp_all add: right_at_def right_index_def right_from_u8_def)

lemma bits_head:
  assumes "w \<noteq> (0 :: u16)"
  shows "filter (bit w) [0..<16] =
    trailing_zeros w # filter (bit (w AND (w - 1))) [0..<16]"
proof -
  let ?n = "trailing_zeros w"
  note n = trailing_zeros_props [OF assms]
  have lt: "?n < 16" using n(1) bit_u16_less by blast
  have "[0..<16] = [0..<?n] @ [?n..<16]"
    using lt upt_add_eq_append [of 0 ?n "16 - ?n"] by simp
  then have split: "[0..<16] = [0..<?n] @ ?n # [Suc ?n..<16]"
    using lt by (simp only: upt_conv_Cons)
  have "filter (bit w) [Suc ?n..<16] = filter (bit (w AND (w - 1))) [Suc ?n..<16]"
    by (rule filter_cong) (auto simp: bit_clear_lowest [OF assms])
  moreover have "filter (bit w) [0..<?n] = []" "filter (bit (w AND (w - 1))) [0..<?n] = []"
    using n(2) by (auto simp: filter_empty_conv bit_clear_lowest [OF assms])
  ultimately show ?thesis
    using n(1) by (simp add: split bit_clear_lowest [OF assms])
qed

lemma to_vec_loop_eq: "to_vec_loop w = List.map_filter right_at (filter (bit w) [0..<16])"
proof (induction w rule: to_vec_loop.induct)
  case (1 w)
  show ?case
  proof (cases "w = 0")
    case True
    then show ?thesis by (simp add: to_vec_loop.simps [of 0] map_filter_simps)
  next
    case False
    have "right_from_u8 (of_nat (trailing_zeros w)) = right_at (trailing_zeros w)"
      by (simp add: right_at_def)
    with False "1.IH" show ?thesis
      by (simp add: to_vec_loop.simps [of w] bits_head map_filter_simps split: option.splits)
  qed
qed

lemma rights_to_vec_eq: "rights_to_vec r = filter (rights_contains r) right_ALL"
proof -
  have "[0..<16] = [0,1,2,3,4,5,6,7,8,9,10,11,12,13,14,15]" by (simp add: upt_rec)
  moreover have "right_at 10 = None" "right_at 11 = None" "right_at 12 = None"
    "right_at 13 = None" "right_at 14 = None" "right_at 15 = None"
    by (simp_all add: right_at_def right_from_u8_def)
  moreover note r = right_at_index [of Read] right_at_index [of Write] right_at_index [of Execute]
    right_at_index [of Create] right_at_index [of Delete] right_at_index [of Send]
    right_at_index [of Receive] right_at_index [of Delegate] right_at_index [of Revoke]
    right_at_index [of Declassify]
  ultimately show ?thesis
    by (simp add: rights_to_vec_def to_vec_loop_eq right_ALL_def contains_bit map_filter_simps
        right_index_def)
qed

lemma right_ALL_UNIV: "set right_ALL = UNIV"
proof -
  have "x \<in> set right_ALL" for x by (cases x) (simp_all add: right_ALL_def)
  then show ?thesis by blast
qed

lemma right_ALL_sorted: "sorted_wrt (<) (map right_index right_ALL)"
  by (simp add: right_ALL_def right_index_def)

lemma rights_to_vec_set: "set (rights_to_vec r) = rights_set r"
  by (simp add: rights_to_vec_eq right_ALL_UNIV rights_set_def)

lemma rights_to_vec_sorted: "sorted_wrt (<) (map right_index (rights_to_vec r))"
  using right_ALL_sorted by (simp add: rights_to_vec_eq sorted_wrt_map sorted_wrt_filter)

lemma rights_len_card:
  assumes "rights_wf r"
  shows "rights_len r = card (rights_set r)"
proof -
  have "rights_len r = card (set (filter (bit (rights_bits r)) [0..<16]))"
    by (simp only: rights_len_def distinct_card distinct_filter distinct_upt)
  also have "set (filter (bit (rights_bits r)) [0..<16]) = right_index ` rights_set r"
  proof (rule set_eqI)
    fix i
    show "i \<in> set (filter (bit (rights_bits r)) [0..<16]) \<longleftrightarrow> i \<in> right_index ` rights_set r"
      using rights_bit_index [OF assms, of i] bit_u16_less [of "rights_bits r" i] by auto
  qed
  also have "card \<dots> = card (rights_set r)" by (rule card_image) (simp add: inj_on_def)
  finally show ?thesis .
qed

lemma right_u8_roundtrip: "right_from_u8 (right_to_u8 x) = Some x"
  by (cases x) (simp_all add: right_from_u8_def)

lemma right_from_u8_Some: "right_from_u8 v = Some x \<Longrightarrow> right_to_u8 x = v"
  by (auto simp: right_from_u8_def split: if_splits)

text \<open>C33: the bitset operations compute the set operations on rights: each returns a well-formed
  bitset whose set is the intersection, union, difference or complement of the operands' sets,
  the subset and emptiness tests decide inclusion and emptiness, and \<open>to_vec\<close> lists exactly the
  members in discriminant order without repetition, as many of them as \<open>len\<close> says.\<close>
theorem rights_algebra:
  assumes "rights_wf r" and "rights_wf s"
  shows "rights_set (rights_combine r s) = rights_set r \<inter> rights_set s
       \<and> rights_set (rights_union r s) = rights_set r \<union> rights_set s
       \<and> rights_set (rights_difference r s) = rights_set r - rights_set s
       \<and> rights_set (rights_complement r) = - rights_set r
       \<and> rights_wf (rights_combine r s) \<and> rights_wf (rights_union r s)
       \<and> rights_wf (rights_difference r s) \<and> rights_wf (rights_complement r)
       \<and> (rights_is_subset_of r s \<longleftrightarrow> rights_set r \<subseteq> rights_set s)
       \<and> (rights_is_empty r \<longleftrightarrow> rights_set r = {})
       \<and> set (rights_to_vec r) = rights_set r
       \<and> sorted_wrt (<) (map right_index (rights_to_vec r))
       \<and> length (rights_to_vec r) = rights_len r"
proof -
  have "distinct (rights_to_vec r)"
    using rights_to_vec_sorted [of r] by (metis distinct_map strict_sorted_iff)
  then have "length (rights_to_vec r) = rights_len r"
    using assms(1) by (simp add: rights_len_card distinct_card [symmetric] rights_to_vec_set)
  with assms show ?thesis
    by (simp add: rights_subset_iff rights_is_empty_iff rights_to_vec_set rights_to_vec_sorted)
qed

theorem rights_algebra_witness:
  "rights_to_vec (rights_combine (rights_from_slice [Write, Read]) (rights_singleton Read)) = [Read]
   \<and> rights_is_subset_of (rights_combine (rights_from_slice [Write, Read]) (rights_singleton Read))
       (rights_singleton Read)"
proof -
  let ?r = "rights_combine (rights_from_slice [Write, Read]) (rights_singleton Read)"
  have wf: "rights_wf ?r" "rights_wf (rights_singleton Read)" by simp_all
  have "rights_is_subset_of ?r (rights_singleton Read)"
    using rights_algebra [OF wf] by simp
  moreover have "rights_to_vec ?r = [Read]"
    by (simp add: rights_to_vec_eq right_ALL_def contains_bit rights_combine_def
        rights_from_slice_def rights_singleton_def bit_and_iff bit_or_iff bit_as_mask)
  ultimately show ?thesis by simp
qed

end
