(* ===== verification/LionSecurity.thy ===== *)
theory LionSecurity
  imports LionPrelude
begin

text \<open>
  The four-level information-flow lattice of \<open>types/security.rs\<close>. The \<open>Ord\<close> instance of the
  code, comparison of the numeric levels, is the \<open>linorder\<close> instance of the type.
\<close>

datatype security_level = Public | Internal | Confidential | Secret

fun level_to_u8 :: "security_level \<Rightarrow> u8" where
  "level_to_u8 Public = 0"
| "level_to_u8 Internal = 1"
| "level_to_u8 Confidential = 2"
| "level_to_u8 Secret = 3"

definition level_from_u8 :: "u8 \<Rightarrow> security_level option" where
  "level_from_u8 v =
     (if v = 0 then Some Public else if v = 1 then Some Internal
      else if v = 2 then Some Confidential else if v = 3 then Some Secret else None)"

instantiation security_level :: linorder
begin

definition less_eq_security_level :: "security_level \<Rightarrow> security_level \<Rightarrow> bool" where
  "less_eq_security_level a b \<longleftrightarrow> level_to_u8 a \<le> level_to_u8 b"

definition less_security_level :: "security_level \<Rightarrow> security_level \<Rightarrow> bool" where
  "less_security_level a b \<longleftrightarrow> level_to_u8 a < level_to_u8 b"

instance
proof
  fix x y z :: security_level
  show "x < y \<longleftrightarrow> x \<le> y \<and> \<not> y \<le> x"
    by (auto simp: less_eq_security_level_def less_security_level_def)
  show "x \<le> x" by (simp add: less_eq_security_level_def)
  show "x \<le> z" if "x \<le> y" "y \<le> z" using that by (simp add: less_eq_security_level_def)
  show "x = y" if "x \<le> y" "y \<le> x"
    using that by (cases x; cases y) (simp_all add: less_eq_security_level_def word_le_nat_alt)
  show "x \<le> y \<or> y \<le> x" by (auto simp: less_eq_security_level_def)
qed

end

definition flows_to :: "security_level \<Rightarrow> security_level \<Rightarrow> bool" where
  "flows_to a b \<longleftrightarrow> level_to_u8 a \<le> level_to_u8 b"

definition can_communicate :: "security_level \<Rightarrow> security_level \<Rightarrow> bool" where
  "can_communicate a b \<longleftrightarrow> flows_to a b \<or> flows_to b a"

definition level_join :: "security_level \<Rightarrow> security_level \<Rightarrow> security_level" where
  "level_join a b = (if level_to_u8 a \<ge> level_to_u8 b then a else b)"

definition level_meet :: "security_level \<Rightarrow> security_level \<Rightarrow> security_level" where
  "level_meet a b = (if level_to_u8 a \<le> level_to_u8 b then a else b)"

definition level_TOP :: security_level where
  "level_TOP = Secret"

definition level_BOT :: security_level where
  "level_BOT = Public"

definition level_is_top :: "security_level \<Rightarrow> bool" where
  "level_is_top a \<longleftrightarrow> (case a of Secret \<Rightarrow> True | _ \<Rightarrow> False)"

definition level_is_bot :: "security_level \<Rightarrow> bool" where
  "level_is_bot a \<longleftrightarrow> (case a of Public \<Rightarrow> True | _ \<Rightarrow> False)"

text \<open>\<open>cmp\<close> and \<open>partial_cmp\<close>, with the standard library's three-valued result. They agree with the
  order of the instance.\<close>

datatype ordering = Less | Equal | Greater

definition u8_cmp :: "u8 \<Rightarrow> u8 \<Rightarrow> ordering" where
  "u8_cmp a b = (if a < b then Less else if a = b then Equal else Greater)"

definition level_cmp :: "security_level \<Rightarrow> security_level \<Rightarrow> ordering" where
  "level_cmp a b = u8_cmp (level_to_u8 a) (level_to_u8 b)"

definition level_partial_cmp :: "security_level \<Rightarrow> security_level \<Rightarrow> ordering option" where
  "level_partial_cmp a b = Some (level_cmp a b)"

lemma level_cmp_order:
  "level_cmp a b = Less \<longleftrightarrow> a < b" "level_cmp a b = Equal \<longleftrightarrow> a = b" "level_cmp a b = Greater \<longleftrightarrow> b < a"
  "level_partial_cmp a b \<noteq> None"
  by (cases a; cases b; simp add: level_cmp_def u8_cmp_def less_security_level_def level_partial_cmp_def
      word_less_nat_alt)+

lemma flows_to_le: "flows_to a b \<longleftrightarrow> a \<le> b"
  by (simp add: flows_to_def less_eq_security_level_def)

lemma level_join_max: "level_join a b = max a b"
  by (cases a; cases b) (simp_all add: level_join_def max_def less_eq_security_level_def word_le_nat_alt)

lemma level_meet_min: "level_meet a b = min a b"
  by (cases a; cases b) (simp_all add: level_meet_def min_def less_eq_security_level_def word_le_nat_alt)

lemma Public_le [simp]: "Public \<le> a"
  by (cases a) (simp_all add: less_eq_security_level_def word_le_nat_alt)

lemma le_Secret [simp]: "a \<le> Secret"
  by (cases a) (simp_all add: less_eq_security_level_def word_le_nat_alt)

lemma level_is_top_iff: "level_is_top a \<longleftrightarrow> a = level_TOP"
  by (cases a) (simp_all add: level_is_top_def level_TOP_def)

lemma level_from_u8_Some: "level_from_u8 v = Some a \<longleftrightarrow> level_to_u8 a = v"
  by (cases a) (auto simp: level_from_u8_def)

text \<open>C35: \<open>join\<close> and \<open>meet\<close> are the least upper and greatest lower bounds of the flow relation,
  which is total with bottom \<open>Public\<close> and top \<open>Secret\<close> and decides \<open>cmp\<close>, and the numeric encoding of the levels
  embeds this order in the numbers below 4, in the order of the declaration (\<open>Public\<close>, \<open>Internal\<close>, \<open>Confidential\<close>,
  \<open>Secret\<close>), is inverted by \<open>from_u8\<close> and rejected outside it.\<close>
theorem level_lattice:
  "flows_to a (level_join a b) \<and> flows_to b (level_join a b)
   \<and> (flows_to (level_join a b) c \<longleftrightarrow> flows_to a c \<and> flows_to b c)
   \<and> flows_to (level_meet a b) a \<and> flows_to (level_meet a b) b
   \<and> (flows_to c (level_meet a b) \<longleftrightarrow> flows_to c a \<and> flows_to c b)
   \<and> can_communicate a b \<and> flows_to level_BOT a \<and> flows_to a level_TOP
   \<and> (level_cmp a b = Greater \<longleftrightarrow> \<not> flows_to a b) \<and> (level_cmp a b = Equal \<longleftrightarrow> a = b)
   \<and> (level_to_u8 a \<le> level_to_u8 b \<longleftrightarrow> flows_to a b) \<and> (level_to_u8 a = level_to_u8 b \<longleftrightarrow> a = b)
   \<and> map level_to_u8 [Public, Internal, Confidential, Secret] = [0, 1, 2, 3]
   \<and> sorted_wrt (\<lambda>x y. flows_to x y \<and> \<not> flows_to y x) [Public, Internal, Confidential, Secret]
   \<and> level_from_u8 (level_to_u8 a) = Some a
   \<and> (level_from_u8 v = None \<longleftrightarrow> 3 < v)"
proof -
  have "level_from_u8 v = None \<longleftrightarrow> v \<notin> {0, 1, 2, 3}" by (auto simp: level_from_u8_def)
  also have "\<dots> \<longleftrightarrow> 3 < v"
  proof
    assume n: "v \<notin> {0, 1, 2, 3}"
    show "3 < v"
    proof (rule ccontr)
      assume "\<not> 3 < v"
      then have "unat v \<le> 3" by (simp add: not_less word_le_nat_alt)
      then have "unat v = 0 \<or> unat v = 1 \<or> unat v = 2 \<or> unat v = 3" by linarith
      with n show False by (auto simp: word_unat_eq_iff)
    qed
  qed auto
  finally have "level_from_u8 v = None \<longleftrightarrow> 3 < v" .
  moreover have "level_to_u8 a \<le> level_to_u8 b \<longleftrightarrow> flows_to a b" "level_to_u8 a = level_to_u8 b \<longleftrightarrow> a = b"
    using level_from_u8_Some [of "level_to_u8 b" a] level_from_u8_Some [of "level_to_u8 b" b]
    by (auto simp: flows_to_def)
  moreover have "sorted_wrt (\<lambda>x y. flows_to x y \<and> \<not> flows_to y x) [Public, Internal, Confidential, Secret]"
    by (simp add: flows_to_def word_le_nat_alt)
  ultimately show ?thesis
    by (simp add: flows_to_le level_join_max level_meet_min can_communicate_def level_BOT_def
        level_TOP_def level_from_u8_Some level_cmp_order) (auto simp: not_le)
qed

section \<open>Constants of the type\<close>

definition level_top :: "security_level" where
  "level_top = level_TOP"

definition level_bot :: "security_level" where
  "level_bot = level_BOT"

definition level_ALL :: "security_level list" where
  "level_ALL = [Public, Internal, Confidential, Secret]"

definition level_default :: "security_level" where
  "level_default = Public"

lemma level_ALL_sorted: "sorted level_ALL \<and> distinct level_ALL \<and> set level_ALL = UNIV"
proof -
  have "l \<in> set level_ALL" for l by (cases l) (simp_all add: level_ALL_def)
  then show ?thesis by (auto simp: level_ALL_def less_eq_security_level_def)
qed

end
