(* ===== verification/LionCap.thy ===== *)
theory LionCap
  imports LionRights LionSecurity
begin

text \<open>
  Capabilities, their payloads, keys and seals: \<open>types/capability.rs\<close> and \<open>crypto.rs\<close>.
  HMAC-SHA256 is the external crates' function: every definition that seals or verifies takes
  \<open>hmac\<close>, from the key bytes and the message to the tag bytes. A panic (the \<open>expect\<close> on the
  parent identifier) is the value \<open>None\<close>.
\<close>

type_synonym bytes = "u8 list"
type_synonym hmac_fun = "bytes \<Rightarrow> bytes \<Rightarrow> bytes"

record key =
  key_bytes :: bytes

record sealed_tag =
  tag_bytes :: bytes

definition key_empty :: key where
  "key_empty = \<lparr>key_bytes = replicate 32 0\<rparr>"

definition key_is_empty :: "key \<Rightarrow> bool" where
  "key_is_empty k \<longleftrightarrow> key_bytes k = replicate 32 0"

definition tag_empty :: sealed_tag where
  "tag_empty = \<lparr>tag_bytes = replicate 32 0\<rparr>"

record hash32 =
  hash_bytes :: bytes

fun hash_copy_loop :: "bytes \<Rightarrow> bytes \<Rightarrow> nat \<Rightarrow> nat \<Rightarrow> bytes" where
  "hash_copy_loop sl bs i 0 = bs"
| "hash_copy_loop sl bs i (Suc n) = hash_copy_loop sl (bs[i := sl ! i]) (Suc i) n"

definition hash_from_slice :: "bytes \<Rightarrow> hash32 option" where
  "hash_from_slice sl =
     (if length sl \<noteq> 32 then None
      else Some \<lparr>hash_bytes = hash_copy_loop sl (replicate 32 0) 0 32\<rparr>)"

definition hash_zero :: hash32 where
  "hash_zero = \<lparr>hash_bytes = replicate 32 0\<rparr>"

definition hash_is_zero :: "hash32 \<Rightarrow> bool" where
  "hash_is_zero h \<longleftrightarrow> hash_bytes h = replicate 32 0"

record cap_payload =
  pl_holder :: plugin_id
  pl_target :: resource_id
  pl_rights :: rights
  pl_parent :: "cap_id option"
  pl_epoch :: u64

record capability =
  cp_id :: cap_id
  cp_holder :: plugin_id
  cp_target :: resource_id
  cp_rights :: rights
  cp_parent :: "cap_id option"
  cp_epoch :: u64
  cp_valid :: bool
  cp_signature :: sealed_tag

datatype capability_error =
  InvalidHolder | EmptyRights | InvalidSignature | Revoked | SealVerificationFailed

definition capability_new ::
  "cap_id \<Rightarrow> plugin_id \<Rightarrow> resource_id \<Rightarrow> rights \<Rightarrow> cap_id option \<Rightarrow> u64 \<Rightarrow> sealed_tag
     \<Rightarrow> capability_error + capability" where
  "capability_new i holder target rts parent epoch sig =
     (if holder = 0 then Inl InvalidHolder
      else if rights_is_empty rts then Inl EmptyRights
      else Inr \<lparr>cp_id = i, cp_holder = holder, cp_target = target, cp_rights = rts,
                cp_parent = parent, cp_epoch = epoch, cp_valid = True, cp_signature = sig\<rparr>)"

definition capability_payload :: "capability \<Rightarrow> cap_payload" where
  "capability_payload c =
     \<lparr>pl_holder = cp_holder c, pl_target = cp_target c, pl_rights = cp_rights c,
      pl_parent = cp_parent c, pl_epoch = cp_epoch c\<rparr>"

definition cap_revoke :: "capability \<Rightarrow> capability" where
  "cap_revoke c = c\<lparr>cp_valid := False\<rparr>"

definition cap_has_right :: "capability \<Rightarrow> right \<Rightarrow> bool" where
  "cap_has_right c x = rights_contains (cp_rights c) x"

lemma cap_revoke_simps [simp]:
  "cp_id (cap_revoke c) = cp_id c" "cp_holder (cap_revoke c) = cp_holder c"
  "cp_target (cap_revoke c) = cp_target c" "cp_rights (cap_revoke c) = cp_rights c"
  "cp_parent (cap_revoke c) = cp_parent c" "cp_epoch (cap_revoke c) = cp_epoch c"
  "cp_signature (cap_revoke c) = cp_signature c" "\<not> cp_valid (cap_revoke c)"
  "cap_revoke (cap_revoke c) = cap_revoke c"
  by (simp_all add: cap_revoke_def)

lemma capability_new_Inr_iff:
  "capability_new i h t r p e sig = Inr c \<longleftrightarrow>
     h \<noteq> 0 \<and> \<not> rights_is_empty r \<and>
     c = \<lparr>cp_id = i, cp_holder = h, cp_target = t, cp_rights = r, cp_parent = p,
          cp_epoch = e, cp_valid = True, cp_signature = sig\<rparr>"
  by (auto simp: capability_new_def)

section \<open>Serialisation\<close>

text \<open>\<open>to_le_bytes\<close>: the bytes of a word, least significant first.\<close>

definition to_le_bytes :: "nat \<Rightarrow> 'a::len word \<Rightarrow> bytes" where
  "to_le_bytes n w = map (\<lambda>i. ucast (drop_bit (8 * i) w)) [0..<n]"

definition parent_val :: "cap_id option \<Rightarrow> u128 option" where
  "parent_val p = (case p of None \<Rightarrow> Some 0 | Some i \<Rightarrow> checked_add i 1)"

definition serialize_payload :: "cap_payload \<Rightarrow> bytes option" where
  "serialize_payload p =
     (case parent_val (pl_parent p) of
        None \<Rightarrow> None
      | Some pv \<Rightarrow>
          Some (to_le_bytes 16 (pl_holder p) @ to_le_bytes 16 (pl_target p)
              @ to_le_bytes 8 (pl_epoch p) @ to_le_bytes 16 pv
              @ to_le_bytes 8 (ucast (rights_bits (pl_rights p)) :: u64)))"

definition seal_payload :: "hmac_fun \<Rightarrow> key \<Rightarrow> cap_payload \<Rightarrow> sealed_tag option" where
  "seal_payload hmac k p =
     (case serialize_payload p of
        None \<Rightarrow> None
      | Some d \<Rightarrow> Some \<lparr>tag_bytes = hmac (key_bytes k) d\<rparr>)"

definition constant_time_eq :: "bytes \<Rightarrow> bytes \<Rightarrow> bool" where
  "constant_time_eq a b = (if length a \<noteq> length b then False else a = b)"

definition verify_seal :: "hmac_fun \<Rightarrow> key \<Rightarrow> cap_payload \<Rightarrow> sealed_tag \<Rightarrow> bool option" where
  "verify_seal hmac k p tag =
     (case serialize_payload p of
        None \<Rightarrow> None
      | Some d \<Rightarrow> Some (constant_time_eq (hmac (key_bytes k) d) (tag_bytes tag)))"

lemma length_to_le_bytes [simp]: "length (to_le_bytes n w) = n"
  by (simp add: to_le_bytes_def)

lemma constant_time_eq_iff [simp]: "constant_time_eq a b \<longleftrightarrow> a = b"
  by (auto simp: constant_time_eq_def)

lemma bit_le_byte:
  assumes "i < n" and "j < 8"
  shows "bit (to_le_bytes n w ! i) j \<longleftrightarrow> bit w (8 * i + j)"
  using assms by (simp add: to_le_bytes_def bit_ucast_iff bit_drop_bit_eq)

lemma to_le_bytes_inject:
  fixes v w :: "'a::len word"
  assumes eq: "to_le_bytes n v = to_le_bytes n w" and n: "LENGTH('a) \<le> 8 * n"
  shows "v = w"
proof (rule bit_word_eqI)
  fix i
  assume "i < LENGTH('a)"
  with n have "i div 8 < n" by linarith
  then have "bit (to_le_bytes n u ! (i div 8)) (i mod 8) \<longleftrightarrow> bit u i" for u :: "'a word"
    using bit_le_byte [of "i div 8" n "i mod 8" u] by simp
  with eq show "bit v i \<longleftrightarrow> bit w i" by metis
qed

lemma append_inject: "length a = length c \<Longrightarrow> a @ b = c @ d \<longleftrightarrow> a = c \<and> b = d"
  by simp

lemma parent_val_inject: "parent_val p = Some v \<Longrightarrow> parent_val q = Some v \<Longrightarrow> p = q"
proof -
  have "i + 1 \<noteq> 0" if "checked_add i 1 = Some v" for i v :: u128
    using unat_checked_add [OF that] that by (auto simp: checked_add_Some_iff)
  moreover assume "parent_val p = Some v" "parent_val q = Some v"
  ultimately show ?thesis
    by (auto simp: parent_val_def checked_add_Some_iff split: option.splits)
qed

lemma ucast_u16_u64_inject: "(ucast a :: u64) = ucast b \<longleftrightarrow> a = b" for a b :: u16
proof
  assume eq: "(ucast a :: u64) = ucast b"
  show "a = b"
  proof (rule bit_word_eqI)
    fix n
    assume "n < LENGTH(16)"
    moreover from eq have "bit (ucast a :: u64) n \<longleftrightarrow> bit (ucast b :: u64) n" by simp
    ultimately show "bit a n \<longleftrightarrow> bit b n" by (simp add: bit_ucast_iff)
  qed
qed simp

lemma serialize_payload_None_iff: "serialize_payload p = None \<longleftrightarrow> pl_parent p = Some (- 1)"
proof -
  have "checked_add i (1 :: u128) = None \<longleftrightarrow> i = - 1" for i
  proof -
    have "checked_add i (1 :: u128) = None \<longleftrightarrow> 2 ^ 128 \<le> unat i + 1"
      by (simp add: checked_add_None_iff)
    also have "\<dots> \<longleftrightarrow> unat i = unat (- 1 :: u128)"
      using unsigned_less [of i, where ?'a = nat] by (simp add: unat_max_word) linarith
    finally show ?thesis by (simp add: word_unat_eq_iff)
  qed
  note chk = this
  have "serialize_payload p = None \<longleftrightarrow> (\<exists>i. pl_parent p = Some i \<and> checked_add i 1 = None)"
    by (auto simp: serialize_payload_def parent_val_def split: option.splits)
  then show ?thesis unfolding chk by blast
qed

lemma serialize_inject:
  assumes "serialize_payload p = Some d" and "serialize_payload q = Some d"
  shows "p = q"
proof -
  obtain v where v: "parent_val (pl_parent p) = Some v"
    using assms(1) by (auto simp: serialize_payload_def split: option.splits)
  obtain w where w: "parent_val (pl_parent q) = Some w"
    using assms(2) by (auto simp: serialize_payload_def split: option.splits)
  from assms v w have
    "to_le_bytes 16 (pl_holder p) = to_le_bytes 16 (pl_holder q)"
    "to_le_bytes 16 (pl_target p) = to_le_bytes 16 (pl_target q)"
    "to_le_bytes 8 (pl_epoch p) = to_le_bytes 8 (pl_epoch q)"
    "to_le_bytes 16 v = to_le_bytes 16 w"
    "to_le_bytes 8 (ucast (rights_bits (pl_rights p)) :: u64)
       = to_le_bytes 8 (ucast (rights_bits (pl_rights q)) :: u64)"
    by (auto simp: serialize_payload_def)
  then have "pl_holder p = pl_holder q" "pl_target p = pl_target q" "pl_epoch p = pl_epoch q"
    "v = w" "rights_bits (pl_rights p) = rights_bits (pl_rights q)"
    by (auto dest!: to_le_bytes_inject simp: ucast_u16_u64_inject)
  moreover from this v w have "pl_parent p = pl_parent q" by (metis parent_val_inject)
  ultimately show "p = q" by (cases p; cases q) (simp add: rights.equality)
qed

lemma verify_sealed: "seal_payload hmac k p = Some t \<Longrightarrow> verify_seal hmac k p t = Some True"
  by (auto simp: seal_payload_def verify_seal_def split: option.splits)

text \<open>C23: the 64-byte layout separates payloads: serialising panics exactly for the parent
  identifier \<open>u128::MAX\<close>, always yields 64 bytes otherwise, and two payloads with the same
  bytes are equal (so the parent \<open>None\<close> is never confused with \<open>Some(0)\<close>).\<close>
theorem serialize_payload_separates:
  "(serialize_payload p = None \<longleftrightarrow> pl_parent p = Some (- 1))
   \<and> (\<forall>d. serialize_payload p = Some d \<longrightarrow>
        length d = 64 \<and> (serialize_payload q = Some d \<longrightarrow> p = q))"
  using serialize_payload_None_iff serialize_inject
  by (auto simp: serialize_payload_def split: option.splits)

theorem serialize_payload_separates_witness:
  "serialize_payload \<lparr>pl_holder = 1, pl_target = 2, pl_rights = rights_empty, pl_parent = None,
      pl_epoch = 0\<rparr>
   \<noteq> serialize_payload \<lparr>pl_holder = 1, pl_target = 2, pl_rights = rights_empty,
      pl_parent = Some 0, pl_epoch = 0\<rparr>"
proof -
  let ?p = "\<lparr>pl_holder = 1, pl_target = 2, pl_rights = rights_empty, pl_parent = None,
      pl_epoch = 0\<rparr> :: cap_payload"
  let ?q = "\<lparr>pl_holder = 1, pl_target = 2, pl_rights = rights_empty, pl_parent = Some 0,
      pl_epoch = 0\<rparr> :: cap_payload"
  have "serialize_payload ?p \<noteq> None"
    using serialize_payload_separates [of ?p ?q] by simp
  then obtain d where d: "serialize_payload ?p = Some d" by blast
  with serialize_payload_separates [of ?p ?q] have "serialize_payload ?q = Some d \<longrightarrow> ?p = ?q"
    by blast
  with d show ?thesis by auto
qed

text \<open>C22: a seal verifies under the key that made it, and if the seal of one payload verifies
  for a different payload under the same key then the two serialised messages are distinct
  and collide under the HMAC: accepting a seal for another payload is an HMAC collision.\<close>
theorem seal_verification:
  assumes "seal_payload hmac k p = Some t"
  shows "verify_seal hmac k p t = Some True
    \<and> (verify_seal hmac k q t = Some True \<and> q \<noteq> p \<longrightarrow>
        (\<exists>m n. serialize_payload p = Some m \<and> serialize_payload q = Some n \<and> m \<noteq> n
             \<and> hmac (key_bytes k) m = hmac (key_bytes k) n))"
proof -
  from assms obtain m where m: "serialize_payload p = Some m" and t: "tag_bytes t = hmac (key_bytes k) m"
    by (auto simp: seal_payload_def split: option.splits)
  have "\<exists>m n. serialize_payload p = Some m \<and> serialize_payload q = Some n \<and> m \<noteq> n
             \<and> hmac (key_bytes k) m = hmac (key_bytes k) n"
    if v: "verify_seal hmac k q t = Some True" and ne: "q \<noteq> p"
  proof -
    from v t obtain n where "serialize_payload q = Some n"
      "hmac (key_bytes k) n = hmac (key_bytes k) m"
      by (auto simp: verify_seal_def split: option.splits)
    moreover from this m ne have "m \<noteq> n" by (metis serialize_inject)
    ultimately show ?thesis using m by metis
  qed
  then show ?thesis using verify_sealed [OF assms] by blast
qed

theorem seal_verification_witness:
  "verify_seal (\<lambda>k m. take 32 m) key_empty
     \<lparr>pl_holder = 1, pl_target = 2, pl_rights = rights_empty, pl_parent = None, pl_epoch = 0\<rparr>
     \<lparr>tag_bytes = to_le_bytes 16 (1 :: u128) @ to_le_bytes 16 (2 :: u128)\<rparr> = Some True"
proof -
  let ?p = "\<lparr>pl_holder = 1, pl_target = 2, pl_rights = rights_empty, pl_parent = None,
      pl_epoch = 0\<rparr> :: cap_payload"
  have "seal_payload (\<lambda>k m. take 32 m) key_empty ?p
      = Some \<lparr>tag_bytes = to_le_bytes 16 (1 :: u128) @ to_le_bytes 16 (2 :: u128)\<rparr>"
    by (simp add: seal_payload_def serialize_payload_def parent_val_def)
  from seal_verification [OF this] show ?thesis by blast
qed

section \<open>Constructors and fixed sizes\<close>

text \<open>A \<open>[u8; 32]\<close> is a list of 32 bytes: the constructors take one, the lengths are constants of the code.\<close>

definition KEY_SIZE :: "nat" where
  "KEY_SIZE = 32"

definition key_from_bytes :: "bytes \<Rightarrow> key" where
  "key_from_bytes bs = \<lparr>key_bytes = bs\<rparr>"

definition key_len :: "key \<Rightarrow> nat" where
  "key_len k = KEY_SIZE"

definition key_as_bytes :: "key \<Rightarrow> bytes" where
  "key_as_bytes k = key_bytes k"

definition tag_from_bytes :: "bytes \<Rightarrow> sealed_tag" where
  "tag_from_bytes bs = \<lparr>tag_bytes = bs\<rparr>"

definition tag_len :: "sealed_tag \<Rightarrow> nat" where
  "tag_len t = 32"

definition tag_is_empty :: "sealed_tag \<Rightarrow> bool" where
  "tag_is_empty t \<longleftrightarrow> tag_bytes t = replicate 32 0"

definition tag_as_bytes :: "sealed_tag \<Rightarrow> bytes" where
  "tag_as_bytes t = tag_bytes t"

definition HASH_SIZE :: "nat" where
  "HASH_SIZE = 32"

definition hash_len :: "hash32 \<Rightarrow> nat" where
  "hash_len h = HASH_SIZE"

definition hash_is_empty :: "hash32 \<Rightarrow> bool" where
  "hash_is_empty h \<longleftrightarrow> False"

definition hash_as_bytes :: "hash32 \<Rightarrow> bytes" where
  "hash_as_bytes h = hash_bytes h"

definition hash_default :: "hash32" where
  "hash_default = hash_zero"

definition payload_new :: "plugin_id \<Rightarrow> resource_id \<Rightarrow> rights \<Rightarrow> cap_id option \<Rightarrow> u64 \<Rightarrow> cap_payload" where
  "payload_new holder target rs parent epoch = \<lparr>pl_holder = holder, pl_target = target, pl_rights = rs, pl_parent = parent, pl_epoch = epoch\<rparr>"

lemma hash_copy_loop_length [simp]: "length (hash_copy_loop sl bs i n) = length bs"
  by (induction sl bs i n rule: hash_copy_loop.induct) simp_all

lemma fixed_sizes:
  "length (key_bytes key_empty) = key_len key_empty" "length (tag_bytes tag_empty) = tag_len tag_empty"
  "length (hash_bytes hash_zero) = hash_len hash_zero"
  "hash_from_slice bs = Some h \<Longrightarrow> length (hash_bytes h) = hash_len h"
  by (auto simp: key_empty_def tag_empty_def hash_zero_def key_len_def tag_len_def hash_len_def KEY_SIZE_def
      HASH_SIZE_def hash_from_slice_def split: if_splits)

lemma empty_values:
  "key_is_empty k \<longleftrightarrow> k = key_empty" "tag_is_empty t \<longleftrightarrow> t = tag_empty" "hash_is_zero h \<longleftrightarrow> h = hash_default"
  by (cases k; cases t; cases h; simp add: key_is_empty_def key_empty_def tag_is_empty_def tag_empty_def
      hash_is_zero_def hash_default_def hash_zero_def)+

lemma payload_of_capability:
  "capability_payload c = payload_new (cp_holder c) (cp_target c) (cp_rights c) (cp_parent c) (cp_epoch c)"
  by (simp add: capability_payload_def payload_new_def)

section \<open>Symbolic tags, symbolic hashes and log events\<close>

text \<open>Values of the audit log and of the symbolic view of sealing; no operation of the kernel makes one.\<close>

record symbolic_tag =
  sg_key :: key
  sg_payload :: bytes

definition symbolic_tag_new :: "key \<Rightarrow> bytes \<Rightarrow> symbolic_tag" where
  "symbolic_tag_new k p = \<lparr>sg_key = k, sg_payload = p\<rparr>"

record blake3_hash =
  bl_data :: bytes

definition blake3_new :: "bytes \<Rightarrow> blake3_hash" where
  "blake3_new d = \<lparr>bl_data = d\<rparr>"

record log_event =
  le_id :: u64
  le_event_type :: string
  le_payload :: bytes
  le_timestamp_us :: u64
  le_version :: u64
  le_prev_hash :: hash32

definition log_event_new :: "u64 \<Rightarrow> string \<Rightarrow> bytes \<Rightarrow> u64 \<Rightarrow> u64 \<Rightarrow> hash32 \<Rightarrow> log_event" where
  "log_event_new i ty p ts v h =
     \<lparr>le_id = i, le_event_type = ty, le_payload = p, le_timestamp_us = ts, le_version = v, le_prev_hash = h\<rparr>"

lemma symbolic_tag_inj: "symbolic_tag_new k p = symbolic_tag_new k' p' \<longleftrightarrow> k = k' \<and> p = p'"
  by (simp add: symbolic_tag_new_def)

end
