(* ===== verification/LionRevocation.thy ===== *)
theory LionRevocation
  imports LionVec LionCap
begin

text \<open>
  The capability table (\<open>RevocationState\<close> of \<open>state/kernel.rs\<close>): capabilities sorted by
  identifier, and the children index that the fast revocation walks. Transitive revocation exists
  twice in the code: \<open>revoke_transitive\<close> asks for every capability whether its parent chain meets
  the revoked one, with the identifier as fuel; \<open>revoke_transitive_fast\<close> walks the index breadth
  first. \<open>child_rel\<close> is the delegation relation both are specified against, and
  \<open>transitive_revocation\<close> the contract the clients rely on.
\<close>

datatype kernel_error =
  CapNotFound cap_id
| CapIdExhausted
| CapIdCollision cap_id
| InvalidCapability string
| KernelCounterOverflow string

type_synonym cap_table = "(cap_id, capability) table"
type_synonym children_index = "(cap_id, cap_id list) table"

record revocation_state =
  rv_caps :: cap_table
  rv_epoch :: u64
  rv_children_index :: children_index

definition rev_empty :: revocation_state where
  "rev_empty = \<lparr>rv_caps = [], rv_epoch = 0, rv_children_index = []\<rparr>"

definition rev_find_index :: "revocation_state \<Rightarrow> cap_id \<Rightarrow> nat option" where
  "rev_find_index r i = tb_find (rv_caps r) i"

definition rev_find_insert_pos :: "revocation_state \<Rightarrow> cap_id \<Rightarrow> nat \<times> bool" where
  "rev_find_insert_pos r i = tb_insert_pos (rv_caps r) i"

definition rev_get :: "revocation_state \<Rightarrow> cap_id \<Rightarrow> capability option" where
  "rev_get r i = map_option (\<lambda>idx. snd (rv_caps r ! idx)) (rev_find_index r i)"

definition rev_is_valid :: "revocation_state \<Rightarrow> cap_id \<Rightarrow> bool" where
  "rev_is_valid r i =
     (case rev_find_index r i of None \<Rightarrow> False | Some idx \<Rightarrow> cp_valid (snd (rv_caps r ! idx)))"

definition rev_contains :: "revocation_state \<Rightarrow> cap_id \<Rightarrow> bool" where
  "rev_contains r i \<longleftrightarrow> rev_find_index r i \<noteq> None"

definition rev_revoke :: "revocation_state \<Rightarrow> cap_id \<Rightarrow> revocation_state" where
  "rev_revoke r i =
     r\<lparr>rv_caps := map (\<lambda>(k, c). if k = i then (k, cap_revoke c) else (k, c)) (rv_caps r)\<rparr>"

definition rev_revoke_mut ::
  "revocation_state \<Rightarrow> cap_id \<Rightarrow> kernel_error + revocation_state" where
  "rev_revoke_mut r i =
     (case rev_find_index r i of
        Some idx \<Rightarrow>
          Inr (r\<lparr>rv_caps := (rv_caps r)[idx := (fst (rv_caps r ! idx), cap_revoke (snd (rv_caps r ! idx)))]\<rparr>)
      | None \<Rightarrow> Inl (CapNotFound i))"

function has_ancestor_with_fuel :: "revocation_state \<Rightarrow> cap_id \<Rightarrow> cap_id \<Rightarrow> u128 \<Rightarrow> bool" where
  "has_ancestor_with_fuel r i a fuel =
     (if fuel = 0 then False
      else case rev_get r i of
        None \<Rightarrow> False
      | Some c \<Rightarrow>
          (case cp_parent c of
             None \<Rightarrow> False
           | Some p \<Rightarrow> if p = a then True else has_ancestor_with_fuel r p a (fuel - 1)))"
  by pat_completeness auto
termination
  by (relation "measure (\<lambda>(r, i, a, fuel). unat fuel)") (auto intro: measure_unat)

declare has_ancestor_with_fuel.simps [simp del]

definition has_ancestor :: "revocation_state \<Rightarrow> cap_id \<Rightarrow> cap_id \<Rightarrow> bool" where
  "has_ancestor r i a = has_ancestor_with_fuel r i a i"

definition in_revoke_set :: "revocation_state \<Rightarrow> cap_id \<Rightarrow> cap_id \<Rightarrow> bool" where
  "in_revoke_set r k i \<longleftrightarrow> k = i \<or> has_ancestor r k i"

definition revoke_transitive :: "revocation_state \<Rightarrow> cap_id \<Rightarrow> revocation_state" where
  "revoke_transitive r i =
     r\<lparr>rv_caps := map (\<lambda>(k, c). if in_revoke_set r k i then (k, cap_revoke c) else (k, c)) (rv_caps r)\<rparr>"

definition revoke_at :: "nat \<Rightarrow> cap_table \<Rightarrow> cap_table" where
  "revoke_at idx t = t[idx := (fst (t ! idx), cap_revoke (snd (t ! idx)))]"

definition revoke_transitive_mut :: "revocation_state \<Rightarrow> cap_id \<Rightarrow> revocation_state" where
  "revoke_transitive_mut r i =
     (let to_revoke = filter (\<lambda>idx. in_revoke_set r (fst (rv_caps r ! idx)) i) [0..<length (rv_caps r)]
      in r\<lparr>rv_caps := fold revoke_at to_revoke (rv_caps r)\<rparr>)"

definition add_child_to_index :: "children_index \<Rightarrow> cap_id \<Rightarrow> cap_id \<Rightarrow> children_index" where
  "add_child_to_index ix p c =
     (case binary_search (map fst ix) p of
        Inr idx \<Rightarrow> ix[idx := (fst (ix ! idx), snd (ix ! idx) @ [c])]
      | Inl pos \<Rightarrow> vec_insert ix pos (p, [c]))"

definition rev_insert :: "revocation_state \<Rightarrow> capability \<Rightarrow> kernel_error + revocation_state" where
  "rev_insert r c =
     (let i = cp_id c; (pos, exists) = rev_find_insert_pos r i
      in if exists then Inl (CapIdCollision i)
         else Inr \<lparr>rv_caps = take pos (rv_caps r) @ [(i, c)] @ drop pos (rv_caps r),
                   rv_epoch = rv_epoch r,
                   rv_children_index =
                     (case cp_parent c of
                        Some p \<Rightarrow> add_child_to_index (rv_children_index r) p i
                      | None \<Rightarrow> rv_children_index r)\<rparr>)"

definition rev_insert_mut ::
  "revocation_state \<Rightarrow> capability \<Rightarrow> kernel_error + revocation_state" where
  "rev_insert_mut r c =
     (let i = cp_id c; (pos, exists) = rev_find_insert_pos r i
      in if exists then Inl (CapIdCollision i)
         else let r1 = r\<lparr>rv_caps := vec_insert (rv_caps r) pos (i, c)\<rparr>
              in Inr (case cp_parent c of
                        Some p \<Rightarrow> r1\<lparr>rv_children_index := add_child_to_index (rv_children_index r1) p i\<rparr>
                      | None \<Rightarrow> r1))"

definition get_children :: "revocation_state \<Rightarrow> cap_id \<Rightarrow> cap_id list" where
  "get_children r p =
     (case binary_search (map fst (rv_children_index r)) p of
        Inr idx \<Rightarrow> snd (rv_children_index r ! idx)
      | Inl _ \<Rightarrow> [])"

lemma get_children_tb: "get_children r p = (case tb_get (rv_children_index r) p of Some l \<Rightarrow> l | None \<Rightarrow> [])"
  by (simp add: get_children_def tb_get_def tb_find_def split: sum.splits)

lemma get_children_key: "get_children r p \<noteq> [] \<Longrightarrow> p \<in> fst ` set (rv_children_index r)"
  by (force simp: get_children_tb split: option.splits dest: tb_get_mem)

text \<open>The breadth-first loop of \<open>collect_descendants\<close>: it stops because every productive visit uses
  up a key of the index.\<close>

function collect_loop ::
  "revocation_state \<Rightarrow> cap_id list \<Rightarrow> nat \<Rightarrow> cap_id set \<Rightarrow> cap_id list \<Rightarrow> cap_id list" where
  "collect_loop r queue head visited collected =
     (if head < length queue
      then let i = queue ! head
           in if i \<in> visited then collect_loop r queue (head + 1) visited collected
              else collect_loop r (queue @ get_children r i) (head + 1) (insert i visited)
                     (collected @ [i])
      else collected)"
  by pat_completeness auto
termination
proof (relation "measures [\<lambda>(r, q, h, V, C). card (fst ` set (rv_children_index r) - V),
                           \<lambda>(r, q, h, V, C). length q - h]", goal_cases)
  case (3 r q h V C i)
  let ?K = "fst ` set (rv_children_index r)"
  show ?case
  proof (cases "get_children r i = []")
    case True
    have "card (?K - insert i V) \<le> card (?K - V)" by (rule card_mono) auto
    with True 3 show ?thesis by (auto simp: le_less)
  next
    case False
    then have "i \<in> ?K" by (rule get_children_key)
    with 3 have "?K - insert i V \<subset> ?K - V" by auto
    then have "card (?K - insert i V) < card (?K - V)" by (intro psubset_card_mono) auto
    then show ?thesis by simp
  qed
qed auto

declare collect_loop.simps [simp del]

definition collect_descendants :: "revocation_state \<Rightarrow> cap_id \<Rightarrow> cap_id list" where
  "collect_descendants r i = collect_loop r [i] 0 {} []"

definition revoke_transitive_fast :: "revocation_state \<Rightarrow> cap_id \<Rightarrow> revocation_state" where
  "revoke_transitive_fast r i =
     (let to_revoke = sort (collect_descendants r i)
      in r\<lparr>rv_caps := map (\<lambda>(k, c). if kv_contains to_revoke k then (k, cap_revoke c) else (k, c))
                       (rv_caps r)\<rparr>)"

definition revoke_transitive_fast_mut ::
  "revocation_state \<Rightarrow> cap_id \<Rightarrow> kernel_error + revocation_state" where
  "revoke_transitive_fast_mut r i =
     (if rev_find_index r i = None then Inl (CapNotFound i)
      else let to_revoke = sort (collect_descendants r i)
           in Inr (r\<lparr>rv_caps := fold (\<lambda>k t. tb_modify t k cap_revoke) to_revoke (rv_caps r)\<rparr>))"

definition rev_valid_caps :: "revocation_state \<Rightarrow> (cap_id \<times> capability) list" where
  "rev_valid_caps r = filter (\<lambda>(k, c). cp_valid c) (rv_caps r)"

definition rev_cap_ids :: "revocation_state \<Rightarrow> cap_id list" where
  "rev_cap_ids r = map fst (rv_caps r)"

definition any_valid_targeting :: "revocation_state \<Rightarrow> resource_id \<Rightarrow> bool" where
  "any_valid_targeting r target \<longleftrightarrow>
     list_ex (\<lambda>(_, c). cp_valid c \<and> cp_target c = target) (rv_caps r)"

section \<open>The delegation relation\<close>

definition child_rel :: "revocation_state \<Rightarrow> (cap_id \<times> cap_id) set" where
  "child_rel r = {(p, k). \<exists>c. rev_get r k = Some c \<and> cp_parent c = Some p}"

definition index_consistent :: "revocation_state \<Rightarrow> bool" where
  "index_consistent r \<longleftrightarrow> (\<forall>p k. k \<in> set (get_children r p) \<longleftrightarrow> (p, k) \<in> child_rel r)"

definition rev_wf :: "revocation_state \<Rightarrow> bool" where
  "rev_wf r \<longleftrightarrow> sorted_table (rv_caps r) \<and> (\<forall>(k, c) \<in> set (rv_caps r). cp_id c = k)
     \<and> sorted_table (rv_children_index r) \<and> index_consistent r"

definition parent_lt :: "revocation_state \<Rightarrow> bool" where
  "parent_lt r \<longleftrightarrow> (\<forall>(p, k) \<in> child_rel r. p < k)"

definition valid_parents :: "revocation_state \<Rightarrow> bool" where
  "valid_parents r \<longleftrightarrow>
     (\<forall>k c p. rev_get r k = Some c \<and> cp_valid c \<and> cp_parent c = Some p \<longrightarrow> rev_is_valid r p)"

lemma rev_get_tb: "rev_get r k = tb_get (rv_caps r) k"
  by (simp add: rev_get_def rev_find_index_def tb_get_def)

lemma rev_is_valid_get: "rev_is_valid r k \<longleftrightarrow> (\<exists>c. rev_get r k = Some c \<and> cp_valid c)"
  by (auto simp: rev_is_valid_def rev_get_def split: option.splits)

lemma rev_contains_get: "rev_contains r k \<longleftrightarrow> rev_get r k \<noteq> None"
  by (simp add: rev_contains_def rev_get_def)

lemma rev_find_index_get: "rev_find_index r k = None \<longleftrightarrow> rev_get r k = None"
  by (simp add: rev_get_def)

lemma rev_wf_caps: "rev_wf r \<Longrightarrow> sorted_table (rv_caps r)"
  by (simp add: rev_wf_def)

lemma rev_get_mem: "rev_wf r \<Longrightarrow> rev_get r k = Some c \<longleftrightarrow> (k, c) \<in> set (rv_caps r)"
  by (simp add: rev_get_tb tb_get_iff rev_wf_caps)

lemma rev_get_id: "rev_wf r \<Longrightarrow> rev_get r k = Some c \<Longrightarrow> cp_id c = k"
  by (auto simp: rev_get_mem rev_wf_def)

lemma rev_wf_empty [simp, intro]: "rev_wf rev_empty"
  by (simp add: rev_wf_def rev_empty_def index_consistent_def get_children_tb child_rel_def rev_get_tb)

section \<open>Marking capabilities\<close>

text \<open>Every revocation only rewrites capabilities in place, by a function of the identifier.\<close>

definition mark :: "(cap_id \<Rightarrow> bool) \<Rightarrow> cap_table \<Rightarrow> cap_table" where
  "mark P t = map (\<lambda>(k, c). if P k then (k, cap_revoke c) else (k, c)) t"

lemma mark_keys [simp]: "map fst (mark P t) = map fst t"
  by (auto simp: mark_def split: prod.splits)

lemma mark_length [simp]: "length (mark P t) = length t"
  by (simp add: mark_def)

lemma mark_get: "tb_get (mark P t) k = map_option (\<lambda>c. if P k then cap_revoke c else c) (tb_get t k)"
proof -
  have f: "tb_find (mark P t) k = tb_find t k" by (rule tb_find_cong) simp
  show ?thesis
  proof (cases "tb_find t k")
    case None
    with f show ?thesis by (simp add: tb_get_def)
  next
    case (Some i)
    from tb_find_Some [OF Some] f Some show ?thesis
      by (cases "t ! i") (auto simp: tb_get_def mark_def)
  qed
qed

lemma mark_cong: "(\<And>k. k \<in> fst ` set t \<Longrightarrow> P k = Q k) \<Longrightarrow> mark P t = mark Q t"
  unfolding mark_def by (rule map_cong) force+

lemma tb_modify_mark: "sorted_table t \<Longrightarrow> tb_modify t k cap_revoke = mark (\<lambda>j. j = k) t"
proof (rule nth_equalityI)
  fix i
  assume s: "sorted_table t" and i: "i < length (tb_modify t k cap_revoke)"
  obtain j c where jc: "t ! i = (j, c)" by (cases "t ! i")
  show "tb_modify t k cap_revoke ! i = mark (\<lambda>j. j = k) t ! i"
  proof (cases "tb_find t k")
    case None
    then have "k \<notin> fst ` set t" using s by (simp add: tb_find_None)
    moreover have "(j, c) \<in> set t" using i jc by (metis length_tb_modify nth_mem)
    ultimately have "j \<noteq> k" by force
    with None i jc show ?thesis by (simp add: tb_modify_def mark_def)
  next
    case (Some i')
    have "i' = i \<longleftrightarrow> j = k"
    proof
      assume "i' = i"
      then show "j = k" using tb_find_Some [OF Some] jc by simp
    next
      assume "j = k"
      then have "map fst t ! i = map fst t ! i'" using tb_find_Some [OF Some] i jc by simp
      then show "i' = i"
        using sorted_table_distinct [OF s] tb_find_Some [OF Some] i
        by (metis length_map length_tb_modify nth_eq_iff_index_eq)
    qed
    with Some i jc show ?thesis by (auto simp: tb_modify_def mark_def nth_list_update)
  qed
qed simp

lemma mark_mark: "mark P (mark Q t) = mark (\<lambda>k. P k \<or> Q k) t"
  by (auto simp: mark_def split: prod.splits)

lemma fold_modify_mark:
  "sorted_table t \<Longrightarrow> fold (\<lambda>k u. tb_modify u k cap_revoke) ks t = mark (\<lambda>k. k \<in> set ks) t"
proof (induction ks arbitrary: t)
  case Nil
  then show ?case by (simp add: mark_def split_def)
next
  case (Cons k ks)
  have "sorted_table (tb_modify t k cap_revoke)" using Cons.prems by simp
  then have "fold (\<lambda>k u. tb_modify u k cap_revoke) ks (tb_modify t k cap_revoke)
      = mark (\<lambda>k. k \<in> set ks) (mark (\<lambda>j. j = k) t)"
    using Cons.IH tb_modify_mark [OF Cons.prems] by metis
  then show ?case by (simp add: mark_mark disj_commute)
qed

definition marked :: "(cap_id \<Rightarrow> bool) \<Rightarrow> revocation_state \<Rightarrow> revocation_state" where
  "marked P r = r\<lparr>rv_caps := mark P (rv_caps r)\<rparr>"

lemma marked_get: "rev_get (marked P r) k = map_option (\<lambda>c. if P k then cap_revoke c else c) (rev_get r k)"
  by (simp add: marked_def rev_get_tb mark_get)

lemma marked_index [simp]: "rv_children_index (marked P r) = rv_children_index r"
  by (simp add: marked_def)

lemma marked_children [simp]: "get_children (marked P r) = get_children r"
  by (intro ext) (simp add: get_children_tb)

lemma marked_child_rel [simp]: "child_rel (marked P r) = child_rel r"
proof -
  have "(\<exists>c. rev_get (marked P r) k = Some c \<and> cp_parent c = Some p)
      \<longleftrightarrow> (\<exists>c. rev_get r k = Some c \<and> cp_parent c = Some p)" for p k
    by (cases "rev_get r k"; cases "P k") (simp_all add: marked_get)
  then show ?thesis by (simp add: child_rel_def)
qed

lemma marked_wf: "rev_wf r \<Longrightarrow> rev_wf (marked P r)"
proof -
  assume wf: "rev_wf r"
  have "cp_id c = k" if "(k, c) \<in> set (mark P (rv_caps r))" for k c
    using that wf by (auto simp: mark_def rev_wf_def split: if_splits)
  with wf show ?thesis by (auto simp: rev_wf_def index_consistent_def) (simp_all add: marked_def)
qed

lemma rev_revoke_marked: "rev_revoke r i = marked (\<lambda>k. k = i) r"
  by (simp add: rev_revoke_def marked_def mark_def)

lemma revoke_transitive_marked: "revoke_transitive r i = marked (\<lambda>k. in_revoke_set r k i) r"
  by (simp add: revoke_transitive_def marked_def mark_def)

section \<open>The ancestor search\<close>

lemma child_rel_parent: "rev_get r k = Some c \<Longrightarrow> (p, k) \<in> child_rel r \<longleftrightarrow> cp_parent c = Some p"
  by (simp add: child_rel_def)

lemma has_ancestor_fuel_Suc:
  assumes "f \<noteq> 0"
  shows "has_ancestor_with_fuel r k a f \<longleftrightarrow>
    (\<exists>p. (p, k) \<in> child_rel r \<and> (p = a \<or> has_ancestor_with_fuel r p a (f - 1)))"
  using assms
  by (auto simp: has_ancestor_with_fuel.simps [of r k a f] child_rel_def
      split: option.splits if_splits)

text \<open>With fuel \<open>f\<close> the search sees exactly the ancestors at distance at most \<open>f\<close>.\<close>

lemma has_ancestor_fuel_iff:
  "has_ancestor_with_fuel r k a f \<longleftrightarrow> (\<exists>n. 0 < n \<and> n \<le> unat f \<and> (a, k) \<in> child_rel r ^^ n)"
proof (induction "unat f" arbitrary: f k)
  case 0
  then have "f = 0" by (simp add: unat_eq_zero)
  then show ?case by (simp add: has_ancestor_with_fuel.simps [of r k a 0])
next
  case (Suc m)
  then have f: "f \<noteq> 0" and m: "m = unat (f - 1)"
    by (auto simp: unat_sub word_le_nat_alt)
  have IH: "has_ancestor_with_fuel r p a (f - 1)
      \<longleftrightarrow> (\<exists>n. 0 < n \<and> n \<le> m \<and> (a, p) \<in> child_rel r ^^ n)" for p
    using Suc.hyps(1) [OF m] m by simp
  show ?case
  proof
    assume "has_ancestor_with_fuel r k a f"
    then obtain p where p: "(p, k) \<in> child_rel r" "p = a \<or> has_ancestor_with_fuel r p a (f - 1)"
      unfolding has_ancestor_fuel_Suc [OF f] by blast
    show "\<exists>n. 0 < n \<and> n \<le> unat f \<and> (a, k) \<in> child_rel r ^^ n"
    proof (cases "p = a")
      case True
      then show ?thesis using p(1) Suc.hyps(2) by (intro exI [of _ 1]) simp
    next
      case False
      with p IH obtain n where "0 < n" "n \<le> m" "(a, p) \<in> child_rel r ^^ n" by blast
      then show ?thesis using p(1) Suc.hyps(2) by (intro exI [of _ "Suc n"]) auto
    qed
  next
    assume "\<exists>n. 0 < n \<and> n \<le> unat f \<and> (a, k) \<in> child_rel r ^^ n"
    then obtain n where n: "n \<le> m" "(a, k) \<in> child_rel r ^^ Suc n"
      using Suc.hyps(2) by (metis Suc_le_mono gr0_implies_Suc)
    then obtain p where p: "(a, p) \<in> child_rel r ^^ n" "(p, k) \<in> child_rel r" by auto
    have "p = a \<or> has_ancestor_with_fuel r p a (f - 1)"
      using p(1) n(1) unfolding IH by (cases "n = 0") (auto simp del: relpow.simps(2))
    then show "has_ancestor_with_fuel r k a f"
      using p(2) unfolding has_ancestor_fuel_Suc [OF f] by blast
  qed
qed

lemma parent_lt_relpow: "parent_lt r \<Longrightarrow> (a, k) \<in> child_rel r ^^ n \<Longrightarrow> unat a + n \<le> unat k"
proof (induction n arbitrary: k)
  case (Suc n)
  from Suc.prems(2) obtain p where p: "(a, p) \<in> child_rel r ^^ n" "(p, k) \<in> child_rel r" by auto
  have "unat a + n \<le> unat p" by (rule Suc.IH [OF Suc.prems(1) p(1)])
  moreover have "unat p < unat k"
    using p(2) Suc.prems(1) by (auto simp: parent_lt_def word_less_nat_alt)
  ultimately show ?case by simp
qed simp

lemma in_revoke_set_bounded:
  "in_revoke_set r k i \<longleftrightarrow> (\<exists>n. n \<le> unat k \<and> (i, k) \<in> child_rel r ^^ n)"
proof
  assume "in_revoke_set r k i"
  then show "\<exists>n. n \<le> unat k \<and> (i, k) \<in> child_rel r ^^ n"
    unfolding in_revoke_set_def has_ancestor_def has_ancestor_fuel_iff
    by (metis le0 relpow_0_I)
next
  assume "\<exists>n. n \<le> unat k \<and> (i, k) \<in> child_rel r ^^ n"
  then obtain n where "n \<le> unat k" "(i, k) \<in> child_rel r ^^ n" by blast
  then show "in_revoke_set r k i"
    unfolding in_revoke_set_def has_ancestor_def has_ancestor_fuel_iff
    by (cases "n = 0") (auto simp del: relpow.simps(2))
qed

lemma in_revoke_set_rtrancl:
  assumes "parent_lt r"
  shows "in_revoke_set r k i \<longleftrightarrow> (i, k) \<in> (child_rel r)\<^sup>*"
proof -
  have "n \<le> unat k" if "(i, k) \<in> child_rel r ^^ n" for n
    using parent_lt_relpow [OF assms that] by simp
  then show ?thesis unfolding in_revoke_set_bounded rtrancl_power by blast
qed

section \<open>The breadth-first walk\<close>

definition walk_rel :: "revocation_state \<Rightarrow> (cap_id \<times> cap_id) set" where
  "walk_rel r = {(p, k). k \<in> set (get_children r p)}"

lemma walk_rel_child: "index_consistent r \<Longrightarrow> walk_rel r = child_rel r"
  by (auto simp: walk_rel_def index_consistent_def)

lemma walk_absorb:
  "R `` D \<subseteq> R `` {x} \<Longrightarrow> (x, x) \<in> R \<Longrightarrow> C \<union> {x} \<union> R `` S \<union> R `` D \<subseteq> C \<union> R `` insert x S"
  by blast

lemma set_drop_Suc: "h < length q \<Longrightarrow> set (drop h q) = insert (q ! h) (set (drop (Suc h) q))"
  by (simp add: Cons_nth_drop_Suc [symmetric])

lemma collect_loop_sound:
  "V = set C \<Longrightarrow> h \<le> length q \<Longrightarrow>
   set (collect_loop r q h V C) \<subseteq> set C \<union> (walk_rel r)\<^sup>* `` set (drop h q)"
proof (induction r q h V C rule: collect_loop.induct)
  case (1 r q h V C)
  show ?case
  proof (cases "h < length q")
    case True
    let ?i = "q ! h"
    note split = set_drop_Suc [OF True]
    show ?thesis
    proof (cases "?i \<in> V")
      case in_V: True
      have "collect_loop r q h V C = collect_loop r q (h + 1) V C"
        using True in_V by (simp add: collect_loop.simps [of r q h V C])
      with "1.IH"(1) [OF True refl in_V "1.prems"(1)] True show ?thesis
        by (auto simp: split)
    next
      case False
      let ?q = "q @ get_children r ?i"
      have sub: "(walk_rel r)\<^sup>* `` set (get_children r ?i) \<subseteq> (walk_rel r)\<^sup>* `` {?i}"
        by (auto simp: walk_rel_def intro: converse_rtrancl_into_rtrancl)
      have eq: "collect_loop r q h V C = collect_loop r ?q (h + 1) (insert ?i V) (C @ [?i])"
        using True False by (simp add: collect_loop.simps [of r q h V C] Let_def)
      have "set (collect_loop r q h V C)
          \<subseteq> set (C @ [?i]) \<union> (walk_rel r)\<^sup>* `` set (drop (h + 1) ?q)"
        unfolding eq by (rule "1.IH"(2) [OF True refl False]) (use "1.prems" True in auto)
      also have "\<dots> = set C \<union> {?i} \<union> (walk_rel r)\<^sup>* `` set (drop (h + 1) q)
          \<union> (walk_rel r)\<^sup>* `` set (get_children r ?i)"
        using True by (auto simp: Image_Un)
      also have "\<dots> \<subseteq> set C \<union> (walk_rel r)\<^sup>* `` set (drop h q)"
        unfolding split Suc_eq_plus1 by (rule walk_absorb [OF sub]) simp
      finally show ?thesis .
    qed
  next
    case False
    then show ?thesis by (simp add: collect_loop.simps [of r q h V C])
  qed
qed

lemma collect_loop_closed:
  "V = set C \<Longrightarrow> h \<le> length q \<Longrightarrow> distinct C \<Longrightarrow>
   walk_rel r `` set C \<subseteq> set C \<union> set (drop h q) \<Longrightarrow>
   set C \<union> set (drop h q) \<subseteq> set (collect_loop r q h V C)
   \<and> walk_rel r `` set (collect_loop r q h V C) \<subseteq> set (collect_loop r q h V C)
   \<and> distinct (collect_loop r q h V C)"
proof (induction r q h V C rule: collect_loop.induct)
  case (1 r q h V C)
  show ?case
  proof (cases "h < length q")
    case True
    let ?i = "q ! h"
    note split = set_drop_Suc [OF True]
    show ?thesis
    proof (cases "?i \<in> V")
      case in_V: True
      have "walk_rel r `` set C \<subseteq> set C \<union> set (drop (h + 1) q)"
        using "1.prems"(1,4) in_V by (auto simp: split)
      note IH = "1.IH"(1) [OF True refl in_V "1.prems"(1) _ "1.prems"(3) this]
      have "collect_loop r q h V C = collect_loop r q (h + 1) V C"
        using True in_V by (simp add: collect_loop.simps [of r q h V C])
      with IH True in_V "1.prems"(1) show ?thesis by (auto simp: split)
    next
      case False
      let ?q = "q @ get_children r ?i" and ?C = "C @ [?i]"
      have "walk_rel r `` {?i} = set (get_children r ?i)" by (auto simp: walk_rel_def)
      then have cl: "walk_rel r `` set ?C \<subseteq> set ?C \<union> set (drop (h + 1) ?q)"
        using "1.prems"(4) True by (auto simp: split)
      have "distinct ?C" using "1.prems"(1,3) False by simp
      note IH = "1.IH"(2) [OF True refl False _ _ this cl]
      have "collect_loop r q h V C = collect_loop r ?q (h + 1) (insert ?i V) ?C"
        using True False by (simp add: collect_loop.simps [of r q h V C] Let_def)
      with IH True "1.prems"(1) show ?thesis by (auto simp: split)
    qed
  next
    case False
    then have "collect_loop r q h V C = C" by (simp add: collect_loop.simps [of r q h V C])
    with False "1.prems" show ?thesis by simp
  qed
qed

lemma closed_rtrancl: "E `` S \<subseteq> S \<Longrightarrow> E\<^sup>* `` S \<subseteq> S"
proof
  fix y
  assume E: "E `` S \<subseteq> S" and "y \<in> E\<^sup>* `` S"
  then obtain x where "x \<in> S" "(x, y) \<in> E\<^sup>*" by blast
  from this(2,1) show "y \<in> S" using E by (induction rule: rtrancl_induct) auto
qed

lemma collect_descendants_set: "set (collect_descendants r i) = (walk_rel r)\<^sup>* `` {i}"
proof
  show "set (collect_descendants r i) \<subseteq> (walk_rel r)\<^sup>* `` {i}"
    using collect_loop_sound [of "{}" "[]" 0 "[i]" r] by (simp add: collect_descendants_def)
  let ?S = "set (collect_descendants r i)"
  have c: "i \<in> ?S" "walk_rel r `` ?S \<subseteq> ?S"
    using collect_loop_closed [of "{}" "[]" 0 "[i]" r] by (simp_all add: collect_descendants_def)
  have "(walk_rel r)\<^sup>* `` {i} \<subseteq> (walk_rel r)\<^sup>* `` ?S" using c(1) by blast
  also have "\<dots> \<subseteq> ?S" by (rule closed_rtrancl [OF c(2)])
  finally show "(walk_rel r)\<^sup>* `` {i} \<subseteq> ?S" .
qed

lemma collect_descendants_distinct: "distinct (collect_descendants r i)"
  using collect_loop_closed [of "{}" "[]" 0 "[i]" r] by (simp add: collect_descendants_def)

lemma collect_descendants_child:
  "rev_wf r \<Longrightarrow> set (collect_descendants r i) = (child_rel r)\<^sup>* `` {i}"
  by (simp add: collect_descendants_set walk_rel_child rev_wf_def)

lemma revoke_transitive_fast_marked:
  "rev_wf r \<Longrightarrow> revoke_transitive_fast r i = marked (\<lambda>k. (i, k) \<in> (child_rel r)\<^sup>*) r"
proof -
  assume wf: "rev_wf r"
  let ?l = "sort (collect_descendants r i)"
  have "sorted_wrt (<) ?l"
    using collect_descendants_distinct [of r i] by (simp add: strict_sorted_iff)
  then have "kv_contains ?l k \<longleftrightarrow> (i, k) \<in> (child_rel r)\<^sup>*" for k
    by (simp add: kv_contains_iff collect_descendants_child [OF wf] Image_singleton)
  then show ?thesis by (simp add: revoke_transitive_fast_def marked_def mark_def Let_def)
qed

lemma revoke_transitive_fast_mut_marked:
  assumes "rev_wf r"
  shows "revoke_transitive_fast_mut r i =
    (if rev_get r i = None then Inl (CapNotFound i)
     else Inr (marked (\<lambda>k. (i, k) \<in> (child_rel r)\<^sup>*) r))"
  using rev_wf_caps [OF assms]
  by (simp add: revoke_transitive_fast_mut_def rev_find_index_get fold_modify_mark Let_def
      marked_def collect_descendants_child [OF assms] Image_singleton)

lemma fold_revoke_at:
  "distinct is \<Longrightarrow> fold revoke_at is t =
     map (\<lambda>j. if j \<in> set is then (fst (t ! j), cap_revoke (snd (t ! j))) else t ! j) [0..<length t]"
proof (induction "is" arbitrary: t)
  case Nil
  then show ?case by (simp add: map_nth)
next
  case (Cons i "is")
  have "fold revoke_at (i # is) t = map (\<lambda>j. if j \<in> set is
      then (fst (revoke_at i t ! j), cap_revoke (snd (revoke_at i t ! j))) else revoke_at i t ! j)
    [0..<length (revoke_at i t)]"
    using Cons.prems by (simp add: Cons.IH)
  also have "\<dots> = map (\<lambda>j. if j \<in> set (i # is) then (fst (t ! j), cap_revoke (snd (t ! j))) else t ! j)
      [0..<length t]"
    using Cons.prems
    by (auto simp: revoke_at_def nth_list_update) (metis nth_list_update_neq)+
  finally show ?case .
qed

lemma revoke_transitive_mut_eq: "revoke_transitive_mut r i = revoke_transitive r i"
proof -
  let ?t = "rv_caps r" and ?P = "\<lambda>k. in_revoke_set r k i"
  have "fold revoke_at (filter (\<lambda>j. ?P (fst (?t ! j))) [0..<length ?t]) ?t = mark ?P ?t"
    by (rule nth_equalityI)
      (auto simp: fold_revoke_at mark_def split: prod.splits)
  then show ?thesis by (simp add: revoke_transitive_mut_def revoke_transitive_marked marked_def Let_def)
qed

section \<open>Insertion\<close>

definition inserted :: "revocation_state \<Rightarrow> capability \<Rightarrow> revocation_state" where
  "inserted r c =
     r\<lparr>rv_caps := vec_insert (rv_caps r) (fst (tb_insert_pos (rv_caps r) (cp_id c))) (cp_id c, c),
       rv_children_index :=
         (case cp_parent c of
            Some p \<Rightarrow> add_child_to_index (rv_children_index r) p (cp_id c)
          | None \<Rightarrow> rv_children_index r)\<rparr>"

lemma rev_insert_eq:
  "rev_insert r c = (if rev_get r (cp_id c) = None then Inr (inserted r c) else Inl (CapIdCollision (cp_id c)))"
proof -
  obtain pos ex where pe: "tb_insert_pos (rv_caps r) (cp_id c) = (pos, ex)" by force
  then have "ex \<longleftrightarrow> rev_get r (cp_id c) \<noteq> None"
    using tb_insert_pos_exists [of "rv_caps r" "cp_id c"] by (simp add: rev_get_tb)
  then show ?thesis
    by (simp add: rev_insert_def rev_find_insert_pos_def pe inserted_def vec_insert_def Let_def)
qed

lemma rev_insert_mut_eq: "rev_insert_mut r c = rev_insert r c"
proof -
  obtain pos ex where pe: "tb_insert_pos (rv_caps r) (cp_id c) = (pos, ex)" by force
  then show ?thesis
    by (simp add: rev_insert_mut_def rev_insert_def rev_find_insert_pos_def pe vec_insert_def Let_def
        split: option.splits)
qed

lemma inserted_get:
  "sorted_table (rv_caps r) \<Longrightarrow> rev_get r (cp_id c) = None \<Longrightarrow>
   rev_get (inserted r c) k = (if k = cp_id c then Some c else rev_get r k)"
  by (simp add: rev_get_tb inserted_def tb_insert_get)

lemma add_child_table:
  "add_child_to_index ix p c =
     (if tb_get ix p = None then vec_insert ix (fst (tb_insert_pos ix p)) (p, [c])
      else tb_modify ix p (\<lambda>l. l @ [c]))"
  by (auto simp: add_child_to_index_def tb_get_def tb_find_def tb_insert_pos_def tb_modify_def
      split: sum.splits)

lemma add_child_sorted: "sorted_table ix \<Longrightarrow> sorted_table (add_child_to_index ix p c)"
  by (simp add: add_child_table tb_insert_sorted)

lemma add_child_get:
  "sorted_table ix \<Longrightarrow> tb_get (add_child_to_index ix p c) q =
     (if q = p then Some ((case tb_get ix p of None \<Rightarrow> [] | Some l \<Rightarrow> l) @ [c]) else tb_get ix q)"
  by (auto simp: add_child_table tb_insert_get tb_modify_get)

lemma inserted_child_rel:
  assumes "sorted_table (rv_caps r)" and "rev_get r (cp_id c) = None"
  shows "child_rel (inserted r c) = child_rel r \<union> {(p, k). k = cp_id c \<and> cp_parent c = Some p}"
  using assms(2) by (auto simp: child_rel_def inserted_get [OF assms] split: if_splits)

lemma inserted_children:
  assumes "sorted_table (rv_children_index r)"
  shows "get_children (inserted r c) p =
    (if cp_parent c = Some p then get_children r p @ [cp_id c] else get_children r p)"
  by (auto simp: get_children_tb inserted_def add_child_get [OF assms] split: option.splits)

lemma inserted_wf:
  assumes "rev_wf r" and "rev_get r (cp_id c) = None"
  shows "rev_wf (inserted r c)"
proof -
  have s: "sorted_table (rv_caps r)" "sorted_table (rv_children_index r)"
    using assms(1) by (simp_all add: rev_wf_def)
  have "sorted_table (rv_caps (inserted r c))"
    using s(1) assms(2) by (simp add: inserted_def tb_insert_sorted rev_get_tb)
  moreover have "\<forall>(k, d) \<in> set (rv_caps (inserted r c)). cp_id d = k"
    using assms(1) by (auto simp: inserted_def set_vec_insert rev_wf_def)
  moreover have "sorted_table (rv_children_index (inserted r c))"
    using s(2) by (auto simp: inserted_def add_child_sorted split: option.splits)
  moreover have "index_consistent (inserted r c)"
    using assms(1) unfolding index_consistent_def inserted_child_rel [OF s(1) assms(2)] inserted_children [OF s(2)]
    by (auto simp: rev_wf_def index_consistent_def)
  ultimately show ?thesis by (simp add: rev_wf_def)
qed

section \<open>The contract of transitive revocation\<close>

text \<open>
  What a client of a revocation may use: the capabilities reachable from the revoked one along
  delegations lose their validity, nothing else changes.
\<close>

locale transitive_revocation =
  fixes revoke :: "revocation_state \<Rightarrow> cap_id \<Rightarrow> revocation_state"
    and inv :: "revocation_state \<Rightarrow> bool"
  assumes revoke_get: "inv r \<Longrightarrow> rev_get (revoke r a) k =
      map_option (\<lambda>c. if (a, k) \<in> (child_rel r)\<^sup>* then cap_revoke c else c) (rev_get r k)"
    and revoke_inv: "inv r \<Longrightarrow> inv (revoke r a)"
begin

lemma revoke_child_rel:
  assumes "inv r"
  shows "child_rel (revoke r a) = child_rel r"
proof -
  have "(\<exists>c. rev_get (revoke r a) k = Some c \<and> cp_parent c = Some p)
      \<longleftrightarrow> (\<exists>c. rev_get r k = Some c \<and> cp_parent c = Some p)" for p k
    by (cases "rev_get r k") (simp_all add: revoke_get [OF assms])
  then show ?thesis by (simp add: child_rel_def)
qed

lemma revoke_valid:
  "inv r \<Longrightarrow> rev_is_valid (revoke r a) k \<longleftrightarrow> rev_is_valid r k \<and> (a, k) \<notin> (child_rel r)\<^sup>*"
  by (cases "rev_get r k") (simp_all add: rev_is_valid_get revoke_get)

lemma revoke_self: "inv r \<Longrightarrow> \<not> rev_is_valid (revoke r a) a"
  by (simp add: revoke_valid)

lemma revoke_mono: "inv r \<Longrightarrow> rev_is_valid (revoke r a) k \<Longrightarrow> rev_is_valid r k"
  by (simp add: revoke_valid)

lemma revoke_idem: "inv r \<Longrightarrow> rev_get (revoke (revoke r a) a) k = rev_get (revoke r a) k"
  by (cases "rev_get r k")
    (simp_all add: revoke_get revoke_inv revoke_child_rel)

lemma revoke_commute:
  "inv r \<Longrightarrow> rev_get (revoke (revoke r a) b) k = rev_get (revoke (revoke r b) a) k"
  by (cases "rev_get r k") (simp_all add: revoke_get revoke_inv revoke_child_rel)

lemma revoke_valid_parents:
  assumes "inv r" and "valid_parents r"
  shows "valid_parents (revoke r a)"
  unfolding valid_parents_def
proof (intro allI impI)
  fix k c p
  assume h: "rev_get (revoke r a) k = Some c \<and> cp_valid c \<and> cp_parent c = Some p"
  then obtain c0 where c0: "rev_get r k = Some c0" "c = (if (a, k) \<in> (child_rel r)\<^sup>* then cap_revoke c0 else c0)"
    by (auto simp: revoke_get [OF assms(1)])
  with h have n: "(a, k) \<notin> (child_rel r)\<^sup>*" "cp_valid c0" "cp_parent c0 = Some p"
    by (auto split: if_splits)
  then have "rev_is_valid r p" using assms(2) c0(1) by (auto simp: valid_parents_def)
  moreover have "(p, k) \<in> child_rel r" using c0(1) n(3) by (simp add: child_rel_def)
  ultimately show "rev_is_valid (revoke r a) p"
    using n(1) by (auto simp: revoke_valid [OF assms(1)] intro: rtrancl_into_rtrancl)
qed

end

interpretation fast: transitive_revocation revoke_transitive_fast rev_wf
  by unfold_locales (simp_all add: revoke_transitive_fast_marked marked_get marked_wf)

interpretation slow: transitive_revocation revoke_transitive "\<lambda>r. rev_wf r \<and> parent_lt r"
  by unfold_locales
    (auto simp: revoke_transitive_marked marked_get marked_wf in_revoke_set_rtrancl parent_lt_def)

section \<open>Properties\<close>

definition demo_cap :: "cap_id \<Rightarrow> cap_id option \<Rightarrow> capability" where
  "demo_cap i p = \<lparr>cp_id = i, cp_holder = 1, cp_target = 7, cp_rights = rights_singleton Read,
     cp_parent = p, cp_epoch = 0, cp_valid = True, cp_signature = tag_empty\<rparr>"

definition demo_chain :: revocation_state where
  "demo_chain = inserted (inserted rev_empty (demo_cap 1 None)) (demo_cap 2 (Some 1))"

definition demo_inverted :: revocation_state where
  "demo_inverted = inserted (inserted rev_empty (demo_cap 100 None)) (demo_cap 0 (Some 100))"

lemma demo_cap_sel [simp]:
  "cp_id (demo_cap i p) = i" "cp_parent (demo_cap i p) = p" "cp_valid (demo_cap i p)"
  by (simp_all add: demo_cap_def)

lemma rev_get_empty [simp]: "rev_get rev_empty k = None"
  by (simp add: rev_get_tb rev_empty_def)

lemma demo_get:
  "i \<noteq> j \<Longrightarrow> rev_get (inserted (inserted rev_empty (demo_cap i p)) (demo_cap j q)) k =
     (if k = j then Some (demo_cap j q) else if k = i then Some (demo_cap i p) else None)"
  by (simp add: inserted_get rev_wf_caps inserted_wf)

lemma demo_wf: "i \<noteq> j \<Longrightarrow> rev_wf (inserted (inserted rev_empty (demo_cap i p)) (demo_cap j q))"
  by (simp add: inserted_wf inserted_get rev_wf_caps)

lemma demo_child_rel:
  "i \<noteq> j \<Longrightarrow> child_rel (inserted (inserted rev_empty (demo_cap i None)) (demo_cap j (Some i))) = {(i, j)}"
  by (auto simp: child_rel_def demo_get split: if_splits)

text \<open>C13: the revocation the kernel performs (\<open>revoke_transitive_fast_mut\<close>) invalidates exactly the
  revoked capability and everything delegated from it, directly or indirectly; every other capability,
  every other field and the well-formedness of the table are kept, and an unknown identifier is refused.
  The pure variant computes the same table.\<close>

theorem revocation_exact:
  assumes "rev_wf r"
  shows "(rev_get r a = None \<longrightarrow> revoke_transitive_fast_mut r a = Inl (CapNotFound a)) \<and>
    (rev_get r a \<noteq> None \<longrightarrow> revoke_transitive_fast_mut r a = Inr (revoke_transitive_fast r a)) \<and>
    rev_wf (revoke_transitive_fast r a) \<and>
    (\<forall>k. rev_get (revoke_transitive_fast r a) k =
       map_option (\<lambda>c. if (a, k) \<in> (child_rel r)\<^sup>* then cap_revoke c else c) (rev_get r k)) \<and>
    rv_children_index (revoke_transitive_fast r a) = rv_children_index r \<and>
    rv_epoch (revoke_transitive_fast r a) = rv_epoch r \<and>
    rev_cap_ids (revoke_transitive_fast r a) = rev_cap_ids r"
  using fast.revoke_get [OF assms] fast.revoke_inv [OF assms]
  by (simp add: revoke_transitive_fast_mut_marked [OF assms] revoke_transitive_fast_marked [OF assms]
      rev_cap_ids_def marked_def)

lemma revocation_exact_witness:
  "rev_wf demo_chain \<and> revoke_transitive_fast_mut demo_chain 1 = Inr (revoke_transitive_fast demo_chain 1)
   \<and> \<not> rev_is_valid (revoke_transitive_fast demo_chain 1) 2"
proof -
  have wf: "rev_wf demo_chain" by (simp add: demo_chain_def demo_wf)
  have g: "rev_get demo_chain 1 = Some (demo_cap 1 None)" "rev_get demo_chain 2 = Some (demo_cap 2 (Some 1))"
    by (simp_all add: demo_chain_def demo_get)
  have "(1, 2) \<in> (child_rel demo_chain)\<^sup>*" by (simp add: demo_chain_def demo_child_rel r_into_rtrancl)
  then show ?thesis using revocation_exact [OF wf, of 1] wf g by (simp add: rev_is_valid_get)
qed

text \<open>C27: when every parent has a smaller identifier than its children (identifiers minted in order),
  the fuel-bounded ancestor search (\<open>revoke_transitive\<close>, pure and in place) and the indexed
  breadth-first revocation compute the same table.\<close>

theorem revocation_paths_agree:
  assumes "rev_wf r" and "parent_lt r"
  shows "revoke_transitive r a = revoke_transitive_fast r a
    \<and> revoke_transitive_mut r a = revoke_transitive_fast r a"
proof -
  have "(\<lambda>k. in_revoke_set r k a) = (\<lambda>k. (a, k) \<in> (child_rel r)\<^sup>*)"
    using in_revoke_set_rtrancl [OF assms(2)] by auto
  then show ?thesis
    by (simp add: revoke_transitive_mut_eq revoke_transitive_marked revoke_transitive_fast_marked [OF assms(1)])
qed

lemma revocation_paths_agree_witness:
  "revoke_transitive demo_chain 1 = revoke_transitive_fast demo_chain 1"
proof -
  have "rev_wf demo_chain" by (simp add: demo_chain_def demo_wf)
  moreover have "parent_lt demo_chain" by (simp add: parent_lt_def demo_chain_def demo_child_rel)
  ultimately show ?thesis using revocation_paths_agree [of demo_chain 1] by simp
qed

text \<open>C28: in general the ancestor search reaches only as many delegation steps as the identifier of the
  capability in question allows, so a child with identifier 0 of the capability 100 survives
  \<open>revoke_transitive\<close> of its parent although the breadth-first revocation invalidates it.\<close>

theorem revocation_fuel_bound:
  "rev_get (revoke_transitive r a) k =
     map_option (\<lambda>c. if \<exists>n. n \<le> unat k \<and> (a, k) \<in> child_rel r ^^ n then cap_revoke c else c) (rev_get r k)
   \<and> rev_wf demo_inverted
   \<and> rev_is_valid (revoke_transitive demo_inverted 100) 0
   \<and> \<not> rev_is_valid (revoke_transitive_fast demo_inverted 100) 0"
proof -
  have wf: "rev_wf demo_inverted" by (simp add: demo_inverted_def demo_wf)
  have g: "rev_get demo_inverted 0 = Some (demo_cap 0 (Some 100))" by (simp add: demo_inverted_def demo_get)
  have "(100, 0) \<in> (child_rel demo_inverted)\<^sup>*" by (simp add: demo_inverted_def demo_child_rel r_into_rtrancl)
  then have "\<not> rev_is_valid (revoke_transitive_fast demo_inverted 100) 0"
    by (simp add: fast.revoke_valid [OF wf])
  moreover have "rev_is_valid (revoke_transitive demo_inverted 100) 0"
    by (simp add: rev_is_valid_get revoke_transitive_marked marked_get in_revoke_set_bounded g)
  ultimately show ?thesis
    using wf by (simp add: revoke_transitive_marked marked_get in_revoke_set_bounded)
qed

text \<open>C26: the breadth-first walk over the children index ends on every index, visits nothing twice, and
  on a well-formed table collects the capability and exactly its descendants.\<close>

theorem collect_descendants_correct:
  "distinct (collect_descendants r a)
   \<and> set (collect_descendants r a) = {(p, k). k \<in> set (get_children r p)}\<^sup>* `` {a}
   \<and> (rev_wf r \<longrightarrow> set (collect_descendants r a) = (child_rel r)\<^sup>* `` {a})"
  using collect_descendants_set [of r a] collect_descendants_distinct [of r a]
    collect_descendants_child [of r a]
  unfolding walk_rel_def by blast

lemma collect_descendants_correct_witness:
  "set (collect_descendants demo_chain 1) = (child_rel demo_chain)\<^sup>* `` {1}"
proof -
  have "rev_wf demo_chain" by (simp add: demo_chain_def demo_wf)
  then show ?thesis using collect_descendants_correct [of demo_chain 1] by blast
qed

text \<open>Inserting a capability refuses an identifier that is already taken; otherwise the table stays
  sorted, the new capability is found under its identifier, all others are unchanged, and the children
  index gains exactly the new delegation edge. The in-place variant computes the same result.\<close>

theorem insertion_correct:
  assumes "rev_wf r"
  shows "rev_insert_mut r c = rev_insert r c \<and>
    (case rev_insert r c of
       Inl e \<Rightarrow> e = CapIdCollision (cp_id c) \<and> rev_contains r (cp_id c)
     | Inr r' \<Rightarrow> \<not> rev_contains r (cp_id c) \<and> rev_wf r' \<and> rv_epoch r' = rv_epoch r
         \<and> rev_get r' = (rev_get r)(cp_id c \<mapsto> c)
         \<and> child_rel r' = child_rel r \<union> {(p, k). k = cp_id c \<and> cp_parent c = Some p})"
  using inserted_wf [OF assms] inserted_child_rel [OF rev_wf_caps [OF assms]]
  by (auto simp: rev_insert_mut_eq rev_insert_eq rev_contains_get inserted_get rev_wf_caps [OF assms])
    (simp add: inserted_def)

lemma insertion_correct_witness:
  "rev_insert demo_chain (demo_cap 2 None) = Inl (CapIdCollision 2)
   \<and> is_ok (rev_insert demo_chain (demo_cap 3 (Some 2)))"
proof -
  have wf: "rev_wf demo_chain" by (simp add: demo_chain_def demo_wf)
  have "rev_contains demo_chain 2" "\<not> rev_contains demo_chain 3"
    by (simp_all add: rev_contains_get demo_chain_def demo_get)
  then show ?thesis
    using insertion_correct [OF wf, of "demo_cap 2 None"] insertion_correct [OF wf, of "demo_cap 3 (Some 2)"]
    by (auto split: sum.splits)
qed

section \<open>Read access and defaults\<close>

definition rev_cap_count :: "revocation_state \<Rightarrow> nat" where
  "rev_cap_count r = length (rv_caps r)"

definition rev_iter :: "revocation_state \<Rightarrow> (cap_id \<times> capability) list" where
  "rev_iter r = rv_caps r"

definition rev_default :: "revocation_state" where
  "rev_default = rev_empty"

definition rev_get_mut :: "(capability \<Rightarrow> capability) \<Rightarrow> revocation_state \<Rightarrow> cap_id \<Rightarrow> revocation_state option" where
  "rev_get_mut f r i = 
     map_option (\<lambda>idx. r\<lparr>rv_caps := (rv_caps r)[idx := (fst (rv_caps r ! idx), f (snd (rv_caps r ! idx)))]\<rparr>)
       (rev_find_index r i)"

lemma rev_cap_count_card: "rev_wf r \<Longrightarrow> rev_cap_count r = card {k. rev_get r k \<noteq> None}"
proof -
  assume "rev_wf r"
  then have s: "sorted_table (rv_caps r)" by (simp add: rev_wf_def)
  then have "{k. rev_get r k \<noteq> None} = set (map fst (rv_caps r))"
    by (auto simp: rev_get_tb tb_get_None_iff simp del: not_None_eq)
  then show ?thesis using distinct_card [OF sorted_table_distinct [OF s]] by (simp add: rev_cap_count_def)
qed

end
