(* ===== verification/LionPolicy.thy ===== *)
theory LionPolicy
  imports LionRights
begin

text \<open>
  Policy evaluation (\<open>types/policy.rs\<close>): the three-valued decisions and their combinators, the
  actions to authorise, the evaluation context, and the fail-closed check.
\<close>

datatype policy_decision = Permit | Deny | Indeterminate

fun pd_combine :: "policy_decision \<Rightarrow> policy_decision \<Rightarrow> policy_decision" where
  "pd_combine Deny _ = Deny"
| "pd_combine _ Deny = Deny"
| "pd_combine Permit Permit = Permit"
| "pd_combine _ _ = Indeterminate"

fun and_policy :: "policy_decision \<Rightarrow> policy_decision \<Rightarrow> policy_decision" where
  "and_policy Permit Permit = Permit"
| "and_policy Deny _ = Deny"
| "and_policy _ Deny = Deny"
| "and_policy _ _ = Indeterminate"

fun or_policy :: "policy_decision \<Rightarrow> policy_decision \<Rightarrow> policy_decision" where
  "or_policy Permit _ = Permit"
| "or_policy _ Permit = Permit"
| "or_policy Deny Deny = Deny"
| "or_policy _ _ = Indeterminate"

fun not_policy :: "policy_decision \<Rightarrow> policy_decision" where
  "not_policy Permit = Deny"
| "not_policy Deny = Permit"
| "not_policy Indeterminate = Indeterminate"

fun override_policy :: "policy_decision \<Rightarrow> policy_decision \<Rightarrow> policy_decision" where
  "override_policy Indeterminate q = q"
| "override_policy p q = p"

fun implies_policy :: "policy_decision \<Rightarrow> policy_decision \<Rightarrow> policy_decision" where
  "implies_policy Permit q = q"
| "implies_policy Deny q = Permit"
| "implies_policy Indeterminate q = Indeterminate"

definition is_determinate :: "policy_decision \<Rightarrow> bool" where
  "is_determinate d \<longleftrightarrow> \<not> (case d of Indeterminate \<Rightarrow> True | _ \<Rightarrow> False)"

definition is_permit :: "policy_decision \<Rightarrow> bool" where
  "is_permit d \<longleftrightarrow> (case d of Permit \<Rightarrow> True | _ \<Rightarrow> False)"

definition is_deny :: "policy_decision \<Rightarrow> bool" where
  "is_deny d \<longleftrightarrow> (case d of Deny \<Rightarrow> True | _ \<Rightarrow> False)"

datatype policy_error = InvalidAction string | EvaluationFailed string

record action =
  ac_subject :: plugin_id
  ac_target :: resource_id
  ac_rights :: rights
  ac_kind :: string

definition action_new ::
  "plugin_id \<Rightarrow> resource_id \<Rightarrow> rights \<Rightarrow> string \<Rightarrow> policy_error + action" where
  "action_new subject target rts kind =
     (if kind = [] then Inl (InvalidAction ''kind cannot be empty'')
      else Inr \<lparr>ac_subject = subject, ac_target = target, ac_rights = rts, ac_kind = kind\<rparr>)"

record policy_context =
  pc_now :: time
  pc_call_origin :: "plugin_id option"

datatype policy_decision_fn = DenyAll | PermitAll | Custom policy_decision

fun pdf_eval :: "policy_decision_fn \<Rightarrow> action \<Rightarrow> policy_context \<Rightarrow> policy_decision" where
  "pdf_eval DenyAll a c = Deny"
| "pdf_eval PermitAll a c = Permit"
| "pdf_eval (Custom d) a c = d"

fun pdf_from :: "policy_decision \<Rightarrow> policy_decision_fn" where
  "pdf_from Permit = PermitAll"
| "pdf_from Deny = DenyAll"
| "pdf_from Indeterminate = Custom Indeterminate"

record policy_state =
  ps_decide :: policy_decision_fn

definition policy_deny_all :: policy_state where
  "policy_deny_all = \<lparr>ps_decide = DenyAll\<rparr>"

definition policy_permit_all :: policy_state where
  "policy_permit_all = \<lparr>ps_decide = PermitAll\<rparr>"

definition policy_from_decision :: "policy_decision \<Rightarrow> policy_state" where
  "policy_from_decision d =
     \<lparr>ps_decide = (case d of Permit \<Rightarrow> PermitAll | Deny \<Rightarrow> DenyAll
                   | Indeterminate \<Rightarrow> Custom Indeterminate)\<rparr>"

definition policy_eval :: "policy_state \<Rightarrow> action \<Rightarrow> policy_context \<Rightarrow> policy_decision" where
  "policy_eval ps a c = pdf_eval (ps_decide ps) a c"

definition policy_check :: "policy_state \<Rightarrow> action \<Rightarrow> policy_context \<Rightarrow> policy_decision" where
  "policy_check ps a c =
     (case policy_eval ps a c of Permit \<Rightarrow> Permit | Deny \<Rightarrow> Deny | Indeterminate \<Rightarrow> Deny)"

lemma is_permit_iff [simp]: "is_permit d \<longleftrightarrow> d = Permit"
  by (cases d) (simp_all add: is_permit_def)

lemma pd_combine_and: "pd_combine p q = and_policy p q"
  by (cases p; cases q) simp_all

text \<open>Policy evaluation fails closed: \<open>check\<close> never returns an indeterminate decision and
  permits exactly when evaluation permits, a policy built from a decision evaluates to that
  decision, and the conjunction permits only when both sides do.\<close>
theorem policy_fail_closed:
  "policy_check ps a c \<noteq> Indeterminate
   \<and> (policy_check ps a c = Permit \<longleftrightarrow> policy_eval ps a c = Permit)
   \<and> policy_eval (policy_from_decision d) a c = d
   \<and> (and_policy p q = Permit \<longleftrightarrow> p = Permit \<and> q = Permit)
   \<and> (and_policy p q = Deny \<longleftrightarrow> p = Deny \<or> q = Deny)
   \<and> not_policy (and_policy p q) = or_policy (not_policy p) (not_policy q)
   \<and> implies_policy Permit q = q"
  by (cases p; cases q; cases d)
    (simp_all add: policy_check_def policy_eval_def policy_from_decision_def
      split: policy_decision.splits)

section \<open>Constructors\<close>

definition context_new :: "time \<Rightarrow> plugin_id option \<Rightarrow> policy_context" where
  "context_new now origin = \<lparr>pc_now = now, pc_call_origin = origin\<rparr>"

definition policy_new :: "policy_decision_fn \<Rightarrow> policy_state" where
  "policy_new d = \<lparr>ps_decide = d\<rparr>"

definition policy_default :: "policy_state" where
  "policy_default = policy_deny_all"

lemma policy_new_eval: "policy_eval (policy_new d) a c = pdf_eval d a c"
  by (simp add: policy_new_def policy_eval_def)

lemma policy_default_denies: "policy_check policy_default a c = Deny"
  by (simp add: policy_default_def policy_deny_all_def policy_check_def policy_eval_def)

end
