(* ===== verification/LionKernelState.thy ===== *)
theory LionKernelState
  imports LionRevocation LionPolicy
begin

text \<open>
  The trusted kernel state of \<open>state/kernel.rs\<close>: key rotation with its grace period
  (\<open>KeyState\<close>), the kernel record with its clock and capability counter (\<open>KernelState\<close>), and
  the extractable core with its request dispatcher (\<open>KernelStateCore\<close>, \<open>kernel_dispatch\<close>). A panic
  (epoch overflow, unserialisable payload) is the outer \<open>None\<close>.
\<close>

section \<open>Keys\<close>

record key_state =
  ky_current :: key
  ky_epoch :: u64
  ky_previous :: "key option"
  ky_previous_epoch :: "u64 option"

definition key_state_initial :: "key \<Rightarrow> key_state" where
  "key_state_initial k =
     \<lparr>ky_current = k, ky_epoch = 0, ky_previous = None, ky_previous_epoch = None\<rparr>"

definition key_state_empty :: key_state where
  "key_state_empty =
     \<lparr>ky_current = key_empty, ky_epoch = 0, ky_previous = None, ky_previous_epoch = None\<rparr>"

definition key_rotate :: "key_state \<Rightarrow> key \<Rightarrow> key_state option" where
  "key_rotate s new_key =
     (let s1 = s\<lparr>ky_previous := Some (ky_current s), ky_previous_epoch := Some (ky_epoch s),
                 ky_current := new_key\<rparr>
      in case checked_add (ky_epoch s1) 1 of
           None \<Rightarrow> None
         | Some e \<Rightarrow> Some (s1\<lparr>ky_epoch := e\<rparr>))"

definition key_rotated :: "key_state \<Rightarrow> key \<Rightarrow> key_state option" where
  "key_rotated s new_key =
     (case checked_add (ky_epoch s) 1 of
        None \<Rightarrow> None
      | Some e \<Rightarrow> Some \<lparr>ky_current = new_key, ky_epoch = e, ky_previous = Some (ky_current s),
                        ky_previous_epoch = Some (ky_epoch s)\<rparr>)"

definition epoch_valid :: "key_state \<Rightarrow> u64 \<Rightarrow> bool" where
  "epoch_valid s cap_epoch =
     (if cap_epoch \<ge> ky_epoch s then True
      else case ky_previous_epoch s of Some prev \<Rightarrow> cap_epoch \<ge> prev | None \<Rightarrow> False)"

definition key_verify_seal :: "hmac_fun \<Rightarrow> key_state \<Rightarrow> cap_payload \<Rightarrow> sealed_tag \<Rightarrow> bool option" where
  "key_verify_seal hmac s p tag =
     (case verify_seal hmac (ky_current s) p tag of
        None \<Rightarrow> None
      | Some True \<Rightarrow> Some True
      | Some False \<Rightarrow>
          (case ky_previous s of Some k \<Rightarrow> verify_seal hmac k p tag | None \<Rightarrow> Some False))"

definition verify_with_epoch ::
  "hmac_fun \<Rightarrow> key_state \<Rightarrow> cap_payload \<Rightarrow> sealed_tag \<Rightarrow> u64 \<Rightarrow> bool option" where
  "verify_with_epoch hmac s p tag cap_epoch =
     (if epoch_valid s cap_epoch then key_verify_seal hmac s p tag else Some False)"

definition clear_previous :: "key_state \<Rightarrow> key_state" where
  "clear_previous s = s\<lparr>ky_previous := None, ky_previous_epoch := None\<rparr>"

section \<open>Kernel state\<close>

record kernel_state =
  ks_key_state :: key_state
  ks_policy :: policy_state
  ks_revocation :: revocation_state
  ks_now :: time
  ks_next_cap_id :: cap_id

definition kernel_state_initial :: "key \<Rightarrow> policy_state \<Rightarrow> kernel_state" where
  "kernel_state_initial k pol =
     \<lparr>ks_key_state = key_state_initial k, ks_policy = pol, ks_revocation = rev_empty,
      ks_now = 0, ks_next_cap_id = 0\<rparr>"

definition kernel_tick :: "kernel_state \<Rightarrow> kernel_error + kernel_state" where
  "kernel_tick k =
     and_then (ok_or (checked_add (ks_now k) 1) (KernelCounterOverflow ''time''))
       (\<lambda>new_now. Inr \<lparr>ks_key_state = ks_key_state k, ks_policy = ks_policy k,
          ks_revocation = ks_revocation k, ks_now = new_now, ks_next_cap_id = ks_next_cap_id k\<rparr>)"

definition kernel_rotate_key :: "kernel_state \<Rightarrow> key \<Rightarrow> kernel_state option" where
  "kernel_rotate_key k new_key =
     map_option (\<lambda>s. k\<lparr>ks_key_state := s\<rparr>) (key_rotate (ks_key_state k) new_key)"

definition kernel_with_rotated_key :: "kernel_state \<Rightarrow> key \<Rightarrow> kernel_state option" where
  "kernel_with_rotated_key k new_key =
     map_option (\<lambda>s. \<lparr>ks_key_state = s, ks_policy = ks_policy k, ks_revocation = ks_revocation k,
        ks_now = ks_now k, ks_next_cap_id = ks_next_cap_id k\<rparr>)
       (key_rotated (ks_key_state k) new_key)"

definition verify_cap_seal :: "hmac_fun \<Rightarrow> kernel_state \<Rightarrow> capability \<Rightarrow> bool option" where
  "verify_cap_seal hmac k c =
     verify_with_epoch hmac (ks_key_state k) (capability_payload c) (cp_signature c) (cp_epoch c)"

definition alloc_cap_id :: "kernel_state \<Rightarrow> kernel_error + (cap_id \<times> kernel_state)" where
  "alloc_cap_id k =
     (let i = ks_next_cap_id k
      in case checked_add (ks_next_cap_id k) 1 of
           Some v \<Rightarrow> Inr (i, k\<lparr>ks_next_cap_id := v\<rparr>)
         | None \<Rightarrow> Inl CapIdExhausted)"

definition tick_checked :: "kernel_state \<Rightarrow> kernel_error + kernel_state" where
  "tick_checked k =
     and_then (ok_or (checked_add (ks_now k) 1) (KernelCounterOverflow ''time''))
       (\<lambda>v. Inr (k\<lparr>ks_now := v\<rparr>))"

definition cap_not_revoked :: "kernel_state \<Rightarrow> capability \<Rightarrow> bool" where
  "cap_not_revoked k c \<longleftrightarrow> rev_is_valid (ks_revocation k) (cp_id c)"

definition kernel_state_default :: kernel_state where
  "kernel_state_default =
     \<lparr>ks_key_state = key_state_empty, ks_policy = policy_deny_all, ks_revocation = rev_empty,
      ks_now = 0, ks_next_cap_id = 0\<rparr>"

section \<open>The extractable core\<close>

record plugin_meta =
  pm_level :: security_level
  pm_held_caps :: "cap_id list"

record resource_meta =
  rm_level :: security_level

definition plugin_meta_empty :: plugin_meta where
  "plugin_meta_empty = \<lparr>pm_level = Public, pm_held_caps = []\<rparr>"

definition pm_grant_cap :: "plugin_meta \<Rightarrow> cap_id \<Rightarrow> plugin_meta" where
  "pm_grant_cap m i =
     (case binary_search (pm_held_caps m) i of
        Inr _ \<Rightarrow> m
      | Inl pos \<Rightarrow> m\<lparr>pm_held_caps := vec_insert (pm_held_caps m) pos i\<rparr>)"

definition pm_revoke_cap :: "plugin_meta \<Rightarrow> cap_id \<Rightarrow> plugin_meta" where
  "pm_revoke_cap m i =
     (case binary_search (pm_held_caps m) i of
        Inr pos \<Rightarrow> m\<lparr>pm_held_caps := take pos (pm_held_caps m) @ drop (Suc pos) (pm_held_caps m)\<rparr>
      | Inl _ \<Rightarrow> m)"

definition pm_holds_cap :: "plugin_meta \<Rightarrow> cap_id \<Rightarrow> bool" where
  "pm_holds_cap m i \<longleftrightarrow> is_ok (binary_search (pm_held_caps m) i)"

definition resource_meta_empty :: resource_meta where
  "resource_meta_empty = \<lparr>rm_level = Public\<rparr>"

record kernel_core =
  kc_key_state :: key_state
  kc_revocation :: revocation_state
  kc_plugin_metas :: "(plugin_id, plugin_meta) table"
  kc_resource_metas :: "(resource_id, resource_meta) table"
  kc_now :: time
  kc_next_cap_id :: cap_id

definition core_empty :: "key \<Rightarrow> kernel_core" where
  "core_empty k =
     \<lparr>kc_key_state = key_state_initial k, kc_revocation = rev_empty, kc_plugin_metas = [],
      kc_resource_metas = [], kc_now = 0, kc_next_cap_id = 0\<rparr>"

definition get_plugin_meta :: "kernel_core \<Rightarrow> plugin_id \<Rightarrow> plugin_meta" where
  "get_plugin_meta c pid =
     (case binary_search (map fst (kc_plugin_metas c)) pid of
        Inr i \<Rightarrow> snd (kc_plugin_metas c ! i)
      | Inl _ \<Rightarrow> plugin_meta_empty)"

definition set_plugin_meta :: "kernel_core \<Rightarrow> plugin_id \<Rightarrow> plugin_meta \<Rightarrow> kernel_core" where
  "set_plugin_meta c pid m =
     (let m' = m\<lparr>pm_held_caps := remdups_adj (sort (pm_held_caps m))\<rparr>
      in c\<lparr>kc_plugin_metas := tb_upsert (kc_plugin_metas c) pid m'\<rparr>)"

definition get_resource_meta :: "kernel_core \<Rightarrow> resource_id \<Rightarrow> resource_meta" where
  "get_resource_meta c rid =
     (case binary_search (map fst (kc_resource_metas c)) rid of
        Inr i \<Rightarrow> snd (kc_resource_metas c ! i)
      | Inl _ \<Rightarrow> resource_meta_empty)"

definition set_resource_meta :: "kernel_core \<Rightarrow> resource_id \<Rightarrow> resource_meta \<Rightarrow> kernel_core" where
  "set_resource_meta c rid m = c\<lparr>kc_resource_metas := tb_upsert (kc_resource_metas c) rid m\<rparr>"

definition core_plugin_level :: "kernel_core \<Rightarrow> plugin_id \<Rightarrow> security_level" where
  "core_plugin_level c pid = pm_level (get_plugin_meta c pid)"

definition core_resource_level :: "kernel_core \<Rightarrow> resource_id \<Rightarrow> security_level" where
  "core_resource_level c rid = rm_level (get_resource_meta c rid)"

definition core_plugin_holds :: "kernel_core \<Rightarrow> plugin_id \<Rightarrow> cap_id \<Rightarrow> bool" where
  "core_plugin_holds c pid i =
     (case binary_search (map fst (kc_plugin_metas c)) pid of
        Inr j \<Rightarrow> pm_holds_cap (snd (kc_plugin_metas c ! j)) i
      | Inl _ \<Rightarrow> False)"

definition core_rotate_key :: "kernel_core \<Rightarrow> key \<Rightarrow> kernel_core option" where
  "core_rotate_key c new_key = map_option (\<lambda>ks. c\<lparr>kc_key_state := ks\<rparr>) (key_rotate (kc_key_state c) new_key)"

definition core_verify_cap_seal :: "hmac_fun \<Rightarrow> kernel_core \<Rightarrow> capability \<Rightarrow> bool option" where
  "core_verify_cap_seal hmac c cap =
     verify_with_epoch hmac (kc_key_state c) (capability_payload cap) (cp_signature cap) (cp_epoch cap)"

definition core_cap_is_valid :: "kernel_core \<Rightarrow> cap_id \<Rightarrow> bool" where
  "core_cap_is_valid c i = rev_is_valid (kc_revocation c) i"

datatype kernel_request =
  RqCapDelegate capability plugin_id
| RqCapRevoke cap_id
| RqSetPluginLevel plugin_id security_level
| RqSetResourceLevel resource_id security_level
| RqTick
| RqRotateKey key

definition dispatch_cap_delegate ::
  "kernel_core \<Rightarrow> capability \<Rightarrow> plugin_id \<Rightarrow> kernel_error + kernel_core" where
  "dispatch_cap_delegate c new_cap target =
     (if rev_contains (kc_revocation c) (cp_id new_cap) then Inl (CapIdCollision (cp_id new_cap))
      else let i = cp_id new_cap
           in and_then (rev_insert_mut (kc_revocation c) new_cap) (\<lambda>r.
                let c1 = c\<lparr>kc_revocation := r\<rparr>;
                    m = pm_grant_cap (get_plugin_meta c1 target) i
                in Inr (set_plugin_meta c1 target m)))"

definition dispatch_cap_revoke :: "kernel_core \<Rightarrow> cap_id \<Rightarrow> kernel_error + kernel_core" where
  "dispatch_cap_revoke c i =
     and_then (revoke_transitive_fast_mut (kc_revocation c) i) (\<lambda>r. Inr (c\<lparr>kc_revocation := r\<rparr>))"

definition dispatch_set_plugin_level ::
  "kernel_core \<Rightarrow> plugin_id \<Rightarrow> security_level \<Rightarrow> kernel_error + kernel_core" where
  "dispatch_set_plugin_level c pid l =
     Inr (set_plugin_meta c pid ((get_plugin_meta c pid)\<lparr>pm_level := l\<rparr>))"

definition dispatch_set_resource_level ::
  "kernel_core \<Rightarrow> resource_id \<Rightarrow> security_level \<Rightarrow> kernel_error + kernel_core" where
  "dispatch_set_resource_level c rid l =
     Inr (set_resource_meta c rid ((get_resource_meta c rid)\<lparr>rm_level := l\<rparr>))"

definition dispatch_tick :: "kernel_core \<Rightarrow> kernel_error + kernel_core" where
  "dispatch_tick c =
     and_then (ok_or (checked_add (kc_now c) 1) (KernelCounterOverflow ''time''))
       (\<lambda>v. Inr (c\<lparr>kc_now := v\<rparr>))"

definition dispatch_rotate_key :: "kernel_core \<Rightarrow> key \<Rightarrow> kernel_core option" where
  "dispatch_rotate_key c k =
     map_option (\<lambda>s. c\<lparr>kc_key_state := s\<rparr>) (key_rotate (kc_key_state c) k)"

fun kernel_dispatch :: "kernel_core \<Rightarrow> kernel_request \<Rightarrow> (kernel_error + kernel_core) option" where
  "kernel_dispatch c (RqCapDelegate new_cap target) = Some (dispatch_cap_delegate c new_cap target)"
| "kernel_dispatch c (RqCapRevoke i) = Some (dispatch_cap_revoke c i)"
| "kernel_dispatch c (RqSetPluginLevel pid l) = Some (dispatch_set_plugin_level c pid l)"
| "kernel_dispatch c (RqSetResourceLevel rid l) = Some (dispatch_set_resource_level c rid l)"
| "kernel_dispatch c RqTick = Some (dispatch_tick c)"
| "kernel_dispatch c (RqRotateKey k) = map_option Inr (dispatch_rotate_key c k)"

section \<open>Key rotation\<close>

definition key_wf :: "key_state \<Rightarrow> bool" where
  "key_wf s \<longleftrightarrow> (case ky_previous_epoch s of
       None \<Rightarrow> ky_previous s = None
     | Some p \<Rightarrow> ky_previous s \<noteq> None \<and> unat p + 1 = unat (ky_epoch s))"

lemma key_wf_initial [simp]: "key_wf (key_state_initial k)" "key_wf key_state_empty"
  by (simp_all add: key_wf_def key_state_initial_def key_state_empty_def)

lemma key_rotate_Some:
  "key_rotate s k = Some s' \<longleftrightarrow> unat (ky_epoch s) + 1 < 2 ^ 64 \<and>
     s' = \<lparr>ky_current = k, ky_epoch = ky_epoch s + 1, ky_previous = Some (ky_current s),
           ky_previous_epoch = Some (ky_epoch s)\<rparr>"
  by (cases s) (auto simp: key_rotate_def checked_add_def Let_def)

lemma key_rotated_eq: "key_rotated s k = key_rotate s k"
  by (simp add: key_rotated_def key_rotate_def Let_def split: option.splits)

lemma key_rotate_epoch: "key_rotate s k = Some s' \<Longrightarrow> unat (ky_epoch s') = unat (ky_epoch s) + 1"
  using unat_add_no_overflow [of "ky_epoch s" 1] by (simp add: key_rotate_Some)

lemma key_wf_rotate: "key_rotate s k = Some s' \<Longrightarrow> key_wf s'"
  using key_rotate_epoch [of s k s'] by (simp add: key_rotate_Some key_wf_def)

lemma key_wf_clear: "key_wf (clear_previous s)"
  by (simp add: key_wf_def clear_previous_def)

lemma epoch_valid_wf:
  "key_wf s \<Longrightarrow> epoch_valid s e \<longleftrightarrow>
     unat (ky_epoch s) \<le> unat e + (if ky_previous s = None then 0 else 1)"
  by (auto simp: epoch_valid_def key_wf_def word_le_nat_alt split: option.splits)

lemma verify_current: "seal_payload hmac (ky_current s) p = Some t \<Longrightarrow> key_verify_seal hmac s p t = Some True"
  by (simp add: key_verify_seal_def verify_sealed)

lemma verify_previous:
  "seal_payload hmac k p = Some t \<Longrightarrow> ky_previous s = Some k \<Longrightarrow> key_verify_seal hmac s p t = Some True"
  using verify_sealed [of hmac k p t]
  by (auto simp: key_verify_seal_def verify_seal_def split: option.splits bool.splits)

section \<open>The dispatcher\<close>

definition core_wf :: "kernel_core \<Rightarrow> bool" where
  "core_wf c \<longleftrightarrow> rev_wf (kc_revocation c) \<and> key_wf (kc_key_state c)
     \<and> sorted_table (kc_plugin_metas c) \<and> sorted_table (kc_resource_metas c)
     \<and> (\<forall>(pid, m) \<in> set (kc_plugin_metas c). sorted_wrt (<) (pm_held_caps m))"

lemma core_wf_empty: "core_wf (core_empty k)"
  by (simp add: core_wf_def core_empty_def)

lemma get_plugin_meta_tb:
  "get_plugin_meta c pid = (case tb_get (kc_plugin_metas c) pid of Some m \<Rightarrow> m | None \<Rightarrow> plugin_meta_empty)"
  by (simp add: get_plugin_meta_def tb_get_def tb_find_def split: sum.splits)

lemma get_resource_meta_tb:
  "get_resource_meta c rid = (case tb_get (kc_resource_metas c) rid of Some m \<Rightarrow> m | None \<Rightarrow> resource_meta_empty)"
  by (simp add: get_resource_meta_def tb_get_def tb_find_def split: sum.splits)

lemma core_plugin_holds_get:
  "core_plugin_holds c pid i \<longleftrightarrow> pm_holds_cap (get_plugin_meta c pid) i"
  by (auto simp: core_plugin_holds_def get_plugin_meta_def pm_holds_cap_def plugin_meta_empty_def
      binary_search_def split: sum.splits)

lemma get_plugin_meta_sorted:
  assumes "core_wf c"
  shows "sorted_wrt (<) (pm_held_caps (get_plugin_meta c pid))"
  using assms tb_get_iff [of "kc_plugin_metas c" pid]
  by (auto simp: core_wf_def get_plugin_meta_tb plugin_meta_empty_def split: option.splits)

lemma remdups_adj_sort_id: "sorted_wrt (<) xs \<Longrightarrow> remdups_adj (sort xs) = xs"
  by (simp add: strict_sorted_iff sorted_sort_id remdups_adj_distinct)

lemma pm_grant_cap_eq: "pm_grant_cap m i = m\<lparr>pm_held_caps := kv_insert (pm_held_caps m) i\<rparr>"
  by (simp add: pm_grant_cap_def kv_insert_def vec_insert_def split: sum.splits)

lemma pm_holds_cap_iff: "sorted_wrt (<) (pm_held_caps m) \<Longrightarrow> pm_holds_cap m i \<longleftrightarrow> i \<in> set (pm_held_caps m)"
  by (simp add: pm_holds_cap_def is_ok_iff binary_search_ok_iff)

lemma set_plugin_meta_get:
  "core_wf c \<Longrightarrow> sorted_wrt (<) (pm_held_caps m) \<Longrightarrow>
   get_plugin_meta (set_plugin_meta c pid m) p = (if p = pid then m else get_plugin_meta c p)"
  by (simp add: get_plugin_meta_tb set_plugin_meta_def remdups_adj_sort_id tb_upsert_get core_wf_def)

lemma set_plugin_meta_frame [simp]:
  "kc_revocation (set_plugin_meta c pid m) = kc_revocation c"
  "kc_key_state (set_plugin_meta c pid m) = kc_key_state c"
  "kc_resource_metas (set_plugin_meta c pid m) = kc_resource_metas c"
  "kc_now (set_plugin_meta c pid m) = kc_now c"
  "kc_next_cap_id (set_plugin_meta c pid m) = kc_next_cap_id c"
  "get_resource_meta (set_plugin_meta c pid m) = get_resource_meta c"
  by (simp_all add: set_plugin_meta_def get_resource_meta_tb fun_eq_iff)

lemma set_resource_meta_frame [simp]:
  "kc_revocation (set_resource_meta c rid m) = kc_revocation c"
  "kc_key_state (set_resource_meta c rid m) = kc_key_state c"
  "kc_plugin_metas (set_resource_meta c rid m) = kc_plugin_metas c"
  "kc_now (set_resource_meta c rid m) = kc_now c"
  "kc_next_cap_id (set_resource_meta c rid m) = kc_next_cap_id c"
  "get_plugin_meta (set_resource_meta c rid m) = get_plugin_meta c"
  by (simp_all add: set_resource_meta_def get_plugin_meta_tb fun_eq_iff)

lemma set_resource_meta_get:
  "core_wf c \<Longrightarrow> get_resource_meta (set_resource_meta c rid m) r = (if r = rid then m else get_resource_meta c r)"
  by (simp add: get_resource_meta_tb set_resource_meta_def tb_upsert_get core_wf_def)

lemma tb_upsert_mem:
  assumes "sorted_table t"
  shows "(j, u) \<in> set (tb_upsert t k v) \<longleftrightarrow> (if j = k then u = v else (j, u) \<in> set t)"
  using tb_get_iff [OF tb_upsert_sorted [OF assms, of k v], of j u] tb_get_iff [OF assms, of j u]
  by (auto simp: tb_upsert_get [OF assms])

lemma core_wf_set_plugin_meta: "core_wf c \<Longrightarrow> core_wf (set_plugin_meta c pid m)"
  by (auto simp: core_wf_def set_plugin_meta_def tb_upsert_sorted tb_upsert_mem remdups_adj_sort_strict
      split: if_splits)

lemma core_wf_set_resource_meta: "core_wf c \<Longrightarrow> core_wf (set_resource_meta c rid m)"
  by (simp add: core_wf_def set_resource_meta_def tb_upsert_sorted)

lemma core_wf_revocation: "core_wf c \<Longrightarrow> rev_wf r \<Longrightarrow> core_wf (c\<lparr>kc_revocation := r\<rparr>)"
  by (simp add: core_wf_def)

definition core_exec :: "kernel_request \<Rightarrow> kernel_core \<Rightarrow> kernel_error option + kernel_core" where
  "core_exec rq c =
     (case kernel_dispatch c rq of
        None \<Rightarrow> Inl None
      | Some (Inl e) \<Rightarrow> Inl (Some e)
      | Some (Inr c') \<Rightarrow> Inr c')"

lemma core_exec_Inr: "core_exec rq c = Inr c' \<longleftrightarrow> kernel_dispatch c rq = Some (Inr c')"
  by (auto simp: core_exec_def split: option.splits sum.splits)

text \<open>What a request may do to the capability table: entries stay, and only lose validity.\<close>

definition caps_extend :: "revocation_state \<Rightarrow> revocation_state \<Rightarrow> bool" where
  "caps_extend r r' \<longleftrightarrow> (\<forall>k c. rev_get r k = Some c \<longrightarrow>
     rev_get r' k = Some c \<or> rev_get r' k = Some (cap_revoke c))"

lemma caps_extend_refl [simp, intro]: "caps_extend r r"
  by (simp add: caps_extend_def)

lemma caps_extend_trans: "caps_extend r s \<Longrightarrow> caps_extend s t \<Longrightarrow> caps_extend r t"
  unfolding caps_extend_def by (metis cap_revoke_simps(9))

lemma caps_extend_revoked:
  assumes "caps_extend r r'" and "rev_contains r k" and "\<not> rev_is_valid r k"
  shows "rev_contains r' k \<and> \<not> rev_is_valid r' k"
proof -
  obtain c where c: "rev_get r k = Some c" "\<not> cp_valid c"
    using assms(2,3) by (auto simp: rev_contains_get rev_is_valid_get)
  then have "rev_get r' k = Some c \<or> rev_get r' k = Some (cap_revoke c)"
    using assms(1) by (simp add: caps_extend_def)
  with c show ?thesis by (auto simp: rev_contains_get rev_is_valid_get)
qed

lemma caps_extend_inserted: "rev_wf r \<Longrightarrow> rev_get r (cp_id c) = None \<Longrightarrow> caps_extend r (inserted r c)"
  by (auto simp: caps_extend_def inserted_get rev_wf_caps)

lemma caps_extend_fast: "rev_wf r \<Longrightarrow> caps_extend r (revoke_transitive_fast r k)"
  by (simp add: caps_extend_def fast.revoke_get)

definition delegated :: "kernel_core \<Rightarrow> capability \<Rightarrow> plugin_id \<Rightarrow> kernel_core" where
  "delegated c cap pid =
     (let c1 = c\<lparr>kc_revocation := inserted (kc_revocation c) cap\<rparr>
      in set_plugin_meta c1 pid (pm_grant_cap (get_plugin_meta c1 pid) (cp_id cap)))"

lemma dispatch_cap_delegate_eq:
  "dispatch_cap_delegate c cap pid =
     (if rev_contains (kc_revocation c) (cp_id cap) then Inl (CapIdCollision (cp_id cap))
      else Inr (delegated c cap pid))"
  by (auto simp: dispatch_cap_delegate_def rev_insert_mut_eq rev_insert_eq rev_contains_get
      delegated_def Let_def)

lemma dispatch_cap_revoke_eq:
  "core_wf c \<Longrightarrow> dispatch_cap_revoke c i =
     (if rev_contains (kc_revocation c) i
      then Inr (c\<lparr>kc_revocation := revoke_transitive_fast (kc_revocation c) i\<rparr>)
      else Inl (CapNotFound i))"
  by (simp add: core_wf_def dispatch_cap_revoke_def revoke_transitive_fast_mut_marked
      revoke_transitive_fast_marked rev_contains_get)

lemma dispatch_tick_eq:
  "dispatch_tick c =
     (if kc_now c = - 1 then Inl (KernelCounterOverflow ''time'')
      else Inr (c\<lparr>kc_now := kc_now c + 1\<rparr>))"
  by (simp add: dispatch_tick_def checked_add_one)

lemma core_wf_delegated:
  "core_wf c \<Longrightarrow> \<not> rev_contains (kc_revocation c) (cp_id cap) \<Longrightarrow> core_wf (delegated c cap pid)"
  by (simp add: delegated_def core_wf_set_plugin_meta core_wf_revocation inserted_wf rev_contains_get
      core_wf_def [of c] Let_def)

lemma core_exec_wf:
  assumes "core_wf c" and "core_exec rq c = Inr c'"
  shows "core_wf c'"
proof (cases rq)
  case (RqRotateKey k)
  then obtain s where "key_rotate (kc_key_state c) k = Some s" "c' = c\<lparr>kc_key_state := s\<rparr>"
    using assms(2) by (auto simp: core_exec_Inr dispatch_rotate_key_def)
  then show ?thesis using assms(1) key_wf_rotate by (simp add: core_wf_def)
next
  case RqTick
  with assms show ?thesis by (auto simp: core_exec_Inr dispatch_tick_eq core_wf_def split: if_splits)
next
  case (RqCapRevoke i)
  then have "c' = c\<lparr>kc_revocation := revoke_transitive_fast (kc_revocation c) i\<rparr>"
    using assms by (auto simp: core_exec_Inr dispatch_cap_revoke_eq split: if_splits)
  then show ?thesis
    using assms(1) fast.revoke_inv core_wf_revocation by (simp add: core_wf_def)
qed (use assms in \<open>auto simp: core_exec_Inr dispatch_cap_delegate_eq dispatch_set_plugin_level_def
      dispatch_set_resource_level_def core_wf_delegated core_wf_set_plugin_meta
      core_wf_set_resource_meta split: if_splits\<close>)

definition core_progress :: "kernel_core \<Rightarrow> kernel_core \<Rightarrow> bool" where
  "core_progress c c' \<longleftrightarrow> caps_extend (kc_revocation c) (kc_revocation c')
     \<and> kc_now c \<le> kc_now c' \<and> ky_epoch (kc_key_state c) \<le> ky_epoch (kc_key_state c')"

lemma word_le_plus_one: "a \<noteq> - 1 \<Longrightarrow> a \<le> a + 1" for a :: u64
  using unat_add_no_overflow [of a 1] word_max_iff [of a] by (simp add: word_le_nat_alt)

lemma core_exec_progress:
  assumes "core_wf c" and "core_exec rq c = Inr c'"
  shows "core_progress c c'"
proof -
  have r: "rev_wf (kc_revocation c)" using assms(1) by (simp add: core_wf_def)
  show ?thesis
  proof (cases rq)
    case (RqRotateKey k)
    then obtain s where "key_rotate (kc_key_state c) k = Some s" "c' = c\<lparr>kc_key_state := s\<rparr>"
      using assms(2) by (auto simp: core_exec_Inr dispatch_rotate_key_def)
    then show ?thesis using key_rotate_epoch by (simp add: core_progress_def word_le_nat_alt)
  next
    case RqTick
    with assms show ?thesis
      by (auto simp: core_exec_Inr dispatch_tick_eq core_progress_def word_le_plus_one split: if_splits)
  next
    case (RqCapRevoke i)
    with assms r show ?thesis
      by (auto simp: core_exec_Inr dispatch_cap_revoke_eq core_progress_def caps_extend_fast split: if_splits)
  next
    case (RqCapDelegate cap pid)
    with assms r show ?thesis
      by (auto simp: core_exec_Inr dispatch_cap_delegate_eq core_progress_def delegated_def
          caps_extend_inserted rev_contains_get Let_def split: if_splits)
  qed (use assms in \<open>auto simp: core_exec_Inr dispatch_set_plugin_level_def
        dispatch_set_resource_level_def core_progress_def\<close>)
qed

interpretation core: preorder_system core_exec core_wf core_progress
proof unfold_locales
  fix c c1 c2
  show "core_progress c c" by (simp add: core_progress_def)
  show "core_progress c c1 \<Longrightarrow> core_progress c1 c2 \<Longrightarrow> core_progress c c2"
    by (auto simp: core_progress_def intro: caps_extend_trans)
qed (auto intro: core_exec_wf core_exec_progress)

section \<open>Properties\<close>

text \<open>C24: key rotation. It panics only at the largest epoch; otherwise the epoch grows by one and a seal
  made under the key that was current keeps verifying, with its epoch, for exactly one rotation: after
  the next rotation, or once the grace period is cleared, its epoch is refused whatever the tag is.\<close>

theorem key_rotation_grace:
  assumes "key_wf s"
  shows "(key_rotate s k = None \<longleftrightarrow> ky_epoch s = - 1) \<and> key_rotated s k = key_rotate s k \<and>
    (\<forall>s1. key_rotate s k = Some s1 \<longrightarrow>
       key_wf s1 \<and> unat (ky_epoch s1) = unat (ky_epoch s) + 1 \<and>
       (\<forall>p t. seal_payload hmac (ky_current s) p = Some t \<longrightarrow>
          verify_with_epoch hmac s p t (ky_epoch s) = Some True \<and>
          verify_with_epoch hmac s1 p t (ky_epoch s) = Some True) \<and>
       (\<forall>p t. verify_with_epoch hmac (clear_previous s1) p t (ky_epoch s) = Some False) \<and>
       (\<forall>k2 s2 p t. key_rotate s1 k2 = Some s2 \<longrightarrow>
          verify_with_epoch hmac s2 p t (ky_epoch s) = Some False))"
proof -
  have none: "key_rotate s k = None \<longleftrightarrow> ky_epoch s = - 1"
    by (simp add: key_rotate_def checked_add_one Let_def)
  have "key_wf s1 \<and> unat (ky_epoch s1) = unat (ky_epoch s) + 1 \<and>
       (\<forall>p t. seal_payload hmac (ky_current s) p = Some t \<longrightarrow>
          verify_with_epoch hmac s p t (ky_epoch s) = Some True \<and>
          verify_with_epoch hmac s1 p t (ky_epoch s) = Some True) \<and>
       (\<forall>p t. verify_with_epoch hmac (clear_previous s1) p t (ky_epoch s) = Some False) \<and>
       (\<forall>k2 s2 p t. key_rotate s1 k2 = Some s2 \<longrightarrow>
          verify_with_epoch hmac s2 p t (ky_epoch s) = Some False)"
    if r: "key_rotate s k = Some s1" for s1
  proof -
    have e1: "unat (ky_epoch s1) = unat (ky_epoch s) + 1" and w1: "key_wf s1"
      using key_rotate_epoch [OF r] key_wf_rotate [OF r] by simp_all
    have p1: "ky_previous s1 = Some (ky_current s)" using r by (simp add: key_rotate_Some)
    have "\<not> epoch_valid (clear_previous s1) (ky_epoch s)"
      using e1 by (simp add: epoch_valid_wf [OF key_wf_clear]) (simp add: clear_previous_def)
    moreover have "\<not> epoch_valid s2 (ky_epoch s)" if "key_rotate s1 k2 = Some s2" for k2 s2
      using e1 key_rotate_epoch [OF that] by (simp add: epoch_valid_wf [OF key_wf_rotate [OF that]])
    moreover have "epoch_valid s1 (ky_epoch s)" "epoch_valid s (ky_epoch s)"
      using e1 p1 by (simp_all add: epoch_valid_wf w1) (simp add: epoch_valid_def)
    ultimately show ?thesis
      using e1 w1 verify_current [of hmac s] verify_previous [of hmac "ky_current s" _ _ s1] p1
      by (simp add: verify_with_epoch_def)
  qed
  with none show ?thesis by (simp add: key_rotated_eq)
qed

lemma key_rotation_grace_witness:
  "\<exists>s1. key_rotate (key_state_initial key_empty) \<lparr>key_bytes = [1]\<rparr> = Some s1 \<and> unat (ky_epoch s1) = 1"
proof -
  note g = key_rotation_grace [OF key_wf_initial(1), of key_empty "\<lparr>key_bytes = [1]\<rparr>" "\<lambda>k m. m"]
  have e: "ky_epoch (key_state_initial key_empty) = 0" by (simp add: key_state_initial_def)
  with g have "key_rotate (key_state_initial key_empty) \<lparr>key_bytes = [1]\<rparr> \<noteq> None" by simp
  then show ?thesis using g e by auto
qed

text \<open>The dispatcher, the only writer of the extractable core, keeps the core well formed over any run
  of accepted requests (tables sorted and indexed, held capabilities sorted), never removes, alters or
  revalidates a capability, and never turns back the clock or the key epoch.\<close>

theorem dispatch_runs_safe:
  assumes "core_wf c" and "run_all core_exec rqs c = Inr c'"
  shows "core_wf c' \<and> kc_now c \<le> kc_now c' \<and> ky_epoch (kc_key_state c) \<le> ky_epoch (kc_key_state c') \<and>
    (\<forall>k cap. rev_get (kc_revocation c) k = Some cap \<longrightarrow>
       rev_get (kc_revocation c') k = Some cap \<or> rev_get (kc_revocation c') k = Some (cap_revoke cap))"
  using core.run_inv [OF assms] core.run_rel [OF assms] by (simp add: core_progress_def caps_extend_def)

lemma dispatch_runs_safe_witness:
  "\<exists>c. run_all core_exec [RqTick, RqCapDelegate (demo_cap 4 None) 9] (core_empty key_empty) = Inr c
    \<and> core_wf c \<and> kc_now (core_empty key_empty) \<le> kc_now c"
proof -
  have "\<exists>c. run_all core_exec [RqTick, RqCapDelegate (demo_cap 4 None) 9] (core_empty key_empty) = Inr c"
    by (simp add: core_exec_def dispatch_tick_eq dispatch_cap_delegate_eq rev_contains_get core_empty_def)
  then show ?thesis using dispatch_runs_safe [OF core_wf_empty] by blast
qed

text \<open>The effect of every request on a well-formed core: delegation refuses a used identifier and
  otherwise adds the capability and grants it to the target only; revocation refuses an unknown
  identifier and otherwise invalidates exactly the descendants; the level requests set one level and
  keep the held capabilities; ticks and rotations fail only on overflow.\<close>

theorem dispatch_effects:
  assumes "core_wf c"
  shows "kernel_dispatch c (RqCapDelegate cap pid) =
      Some (if rev_contains (kc_revocation c) (cp_id cap) then Inl (CapIdCollision (cp_id cap))
            else Inr (delegated c cap pid))
    \<and> (\<not> rev_contains (kc_revocation c) (cp_id cap) \<longrightarrow>
        rev_get (kc_revocation (delegated c cap pid)) = (rev_get (kc_revocation c))(cp_id cap \<mapsto> cap) \<and>
        (\<forall>p i. core_plugin_holds (delegated c cap pid) p i \<longleftrightarrow>
           core_plugin_holds c p i \<or> p = pid \<and> i = cp_id cap) \<and>
        (\<forall>p. core_plugin_level (delegated c cap pid) p = core_plugin_level c p))
    \<and> kernel_dispatch c (RqCapRevoke i) =
      Some (if rev_contains (kc_revocation c) i
            then Inr (c\<lparr>kc_revocation := revoke_transitive_fast (kc_revocation c) i\<rparr>)
            else Inl (CapNotFound i))
    \<and> (\<exists>c'. kernel_dispatch c (RqSetPluginLevel pid l) = Some (Inr c') \<and> kc_revocation c' = kc_revocation c \<and>
        (\<forall>p. core_plugin_level c' p = (if p = pid then l else core_plugin_level c p)) \<and>
        (\<forall>p j. core_plugin_holds c' p j \<longleftrightarrow> core_plugin_holds c p j))
    \<and> (\<exists>c'. kernel_dispatch c (RqSetResourceLevel rid l) = Some (Inr c') \<and> kc_revocation c' = kc_revocation c \<and>
        (\<forall>r. core_resource_level c' r = (if r = rid then l else core_resource_level c r)))
    \<and> kernel_dispatch c RqTick =
      Some (if kc_now c = - 1 then Inl (KernelCounterOverflow ''time'') else Inr (c\<lparr>kc_now := kc_now c + 1\<rparr>))"
proof -
  have r: "rev_wf (kc_revocation c)" using assms by (simp add: core_wf_def)
  note held = get_plugin_meta_sorted [OF assms]
  have "rev_get (kc_revocation (delegated c cap pid)) = (rev_get (kc_revocation c))(cp_id cap \<mapsto> cap) \<and>
        (\<forall>p i. core_plugin_holds (delegated c cap pid) p i \<longleftrightarrow>
           core_plugin_holds c p i \<or> p = pid \<and> i = cp_id cap) \<and>
        (\<forall>p. core_plugin_level (delegated c cap pid) p = core_plugin_level c p)"
    if n: "\<not> rev_contains (kc_revocation c) (cp_id cap)"
  proof -
    let ?c1 = "c\<lparr>kc_revocation := inserted (kc_revocation c) cap\<rparr>"
    have w: "core_wf ?c1" using assms n r by (simp add: core_wf_revocation inserted_wf rev_contains_get)
    have g: "get_plugin_meta ?c1 = get_plugin_meta c" by (simp add: fun_eq_iff get_plugin_meta_tb)
    have s: "sorted_wrt (<) (pm_held_caps (pm_grant_cap (get_plugin_meta c pid) (cp_id cap)))"
      using held by (simp add: pm_grant_cap_eq kv_insert_sorted)
    have m: "get_plugin_meta (delegated c cap pid) p =
        (if p = pid then pm_grant_cap (get_plugin_meta c pid) (cp_id cap) else get_plugin_meta c p)" for p
      using set_plugin_meta_get [OF w s] by (simp add: delegated_def g Let_def)
    have "kc_revocation (delegated c cap pid) = inserted (kc_revocation c) cap"
      by (simp add: delegated_def Let_def)
    then have "rev_get (kc_revocation (delegated c cap pid)) = (rev_get (kc_revocation c))(cp_id cap \<mapsto> cap)"
      using r n by (simp add: fun_eq_iff inserted_get rev_wf_caps rev_contains_get)
    moreover have "core_plugin_holds (delegated c cap pid) p i \<longleftrightarrow>
        core_plugin_holds c p i \<or> p = pid \<and> i = cp_id cap" for p i
      using held s by (simp add: core_plugin_holds_get m pm_holds_cap_iff)
        (auto simp: pm_grant_cap_eq kv_insert_set)
    moreover have "core_plugin_level (delegated c cap pid) p = core_plugin_level c p" for p
      by (simp add: core_plugin_level_def m pm_grant_cap_eq)
    ultimately show ?thesis by blast
  qed
  moreover have "\<exists>c'. kernel_dispatch c (RqSetPluginLevel pid l) = Some (Inr c') \<and> kc_revocation c' = kc_revocation c \<and>
        (\<forall>p. core_plugin_level c' p = (if p = pid then l else core_plugin_level c p)) \<and>
        (\<forall>p j. core_plugin_holds c' p j \<longleftrightarrow> core_plugin_holds c p j)"
    using held set_plugin_meta_get [OF assms, of "(get_plugin_meta c pid)\<lparr>pm_level := l\<rparr>" pid]
    by (auto simp: dispatch_set_plugin_level_def core_plugin_level_def core_plugin_holds_get pm_holds_cap_def)
  moreover have "\<exists>c'. kernel_dispatch c (RqSetResourceLevel rid l) = Some (Inr c') \<and> kc_revocation c' = kc_revocation c \<and>
        (\<forall>r. core_resource_level c' r = (if r = rid then l else core_resource_level c r))"
    by (simp add: dispatch_set_resource_level_def core_resource_level_def set_resource_meta_get [OF assms])
  ultimately show ?thesis
    using dispatch_cap_revoke_eq [OF assms] by (simp add: dispatch_cap_delegate_eq dispatch_tick_eq)
qed

section \<open>Read access and defaults\<close>

text \<open>Accessors that read through another component, and the defaults. A mutable reference handed out is
  the modification it allows.\<close>

definition key_state_default :: "key_state" where
  "key_state_default = key_state_empty"

definition key_epoch :: "kernel_state \<Rightarrow> u64" where
  "key_epoch k = ky_epoch (ks_key_state k)"

definition kernel_hmac_key :: "kernel_state \<Rightarrow> key" where
  "kernel_hmac_key k = ky_current (ks_key_state k)"

definition key_state_mut :: "(key_state \<Rightarrow> key_state) \<Rightarrow> kernel_state \<Rightarrow> kernel_state" where
  "key_state_mut f k = k\<lparr>ks_key_state := f (ks_key_state k)\<rparr>"

definition revocation_mut :: "(revocation_state \<Rightarrow> revocation_state) \<Rightarrow> kernel_state \<Rightarrow> kernel_state" where
  "revocation_mut f k = k\<lparr>ks_revocation := f (ks_revocation k)\<rparr>"

definition policy_mut :: "(policy_state \<Rightarrow> policy_state) \<Rightarrow> kernel_state \<Rightarrow> kernel_state" where
  "policy_mut f k = k\<lparr>ks_policy := f (ks_policy k)\<rparr>"

definition plugin_meta_default :: "plugin_meta" where
  "plugin_meta_default = plugin_meta_empty"

definition resource_meta_default :: "resource_meta" where
  "resource_meta_default = resource_meta_empty"

definition core_hmac_key :: "kernel_core \<Rightarrow> key" where
  "core_hmac_key c = ky_current (kc_key_state c)"

definition core_epoch :: "kernel_core \<Rightarrow> u64" where
  "core_epoch c = rv_epoch (kc_revocation c)"

definition core_default :: "kernel_core" where
  "core_default = core_empty key_empty"

text \<open>Rotation moves the current key to the grace slot; the default core starts a well-formed history.\<close>

lemma core_default_wf: "core_wf core_default"
  by (simp add: core_default_def core_wf_empty)

lemma rotation_key: "core_rotate_key c k = Some c' \<Longrightarrow> core_hmac_key c' = k"
  by (auto simp: core_rotate_key_def core_hmac_key_def key_rotate_Some split: option.splits)

end
