(* ===== verification/LionMemory.thy ===== *)
theory LionMemory
  imports LionVec
begin

unbundle bit_operations_syntax

text \<open>
  \<open>state/memory.rs\<close>: the paged linear memory of a sandbox and the ghost state that tracks the
  life of kernel resources. A page is the list of its 4096 bytes; both \<open>BTreeMap\<close>s are sorted
  tables. \<open>mem_read\<close> is the abstract content of a memory: the range operations, which work page
  by page, are specified against it.
\<close>

type_synonym page = "u8 list"

definition PAGE_BITS :: nat where
  "PAGE_BITS = 12"

definition PAGE_SIZE :: nat where
  "PAGE_SIZE = 4096"

definition page_of :: "u64 \<Rightarrow> u64" where
  "page_of addr = drop_bit PAGE_BITS addr"

definition offset_in_page :: "u64 \<Rightarrow> nat" where
  "offset_in_page addr = unat (addr AND (push_bit PAGE_BITS 1 - 1))"

datatype memory_error =
  OutOfBounds mem_addr mem_size mem_size
| DoubleFree mem_addr
| UseAfterFree mem_addr
| NotAllocated mem_addr

record linear_memory =
  lm_pages :: "(u64, page) table"
  lm_bounds :: mem_size

definition mem_empty :: "mem_size \<Rightarrow> linear_memory" where
  "mem_empty n = \<lparr>lm_pages = [], lm_bounds = n\<rparr>"

definition addr_in_bounds :: "linear_memory \<Rightarrow> mem_addr \<Rightarrow> mem_size \<Rightarrow> bool" where
  "addr_in_bounds m addr len =
     (case checked_add addr len of Some e \<Rightarrow> e \<le> lm_bounds m | None \<Rightarrow> False)"

definition mem_read :: "linear_memory \<Rightarrow> mem_addr \<Rightarrow> u8" where
  "mem_read m addr =
     (case tb_get (lm_pages m) (page_of addr) of
        Some pg \<Rightarrow> pg ! offset_in_page addr
      | None \<Rightarrow> 0)"

definition zero_page :: page where
  "zero_page = replicate PAGE_SIZE 0"

text \<open>\<open>entry(pg).or_insert_with(zero page)\<close>\<close>

definition page_entry :: "linear_memory \<Rightarrow> u64 \<Rightarrow> page" where
  "page_entry m pg = (case tb_get (lm_pages m) pg of Some p \<Rightarrow> p | None \<Rightarrow> zero_page)"

definition write_mut :: "linear_memory \<Rightarrow> mem_addr \<Rightarrow> u8 \<Rightarrow> linear_memory" where
  "write_mut m addr v =
     (let pg = page_of addr; off = offset_in_page addr
      in m\<lparr>lm_pages := tb_upsert (lm_pages m) pg ((page_entry m pg)[off := v])\<rparr>)"

definition mem_write :: "linear_memory \<Rightarrow> mem_addr \<Rightarrow> u8 \<Rightarrow> linear_memory" where
  "mem_write m addr val = write_mut m addr val"

text \<open>The loops of \<open>read_range\<close> and \<open>write_range_mut\<close>: one iteration per page touched.\<close>

definition chunk_len :: "u64 \<Rightarrow> nat \<Rightarrow> nat" where
  "chunk_len pos needed = min (PAGE_SIZE - offset_in_page pos) needed"

lemma page_mask: "push_bit PAGE_BITS 1 - 1 = (mask 12 :: u64)"
  by (simp add: PAGE_BITS_def mask_eq_exp_minus_1)

lemma offset_mod: "offset_in_page a = unat a mod 4096"
proof -
  have "offset_in_page a = unat (take_bit 12 a)"
    unfolding offset_in_page_def page_mask by (simp only: take_bit_eq_mask)
  also have "\<dots> = take_bit 12 (unat a)" by (simp add: unsigned_take_bit_eq)
  finally show ?thesis by (simp add: take_bit_eq_mod)
qed

lemma page_div: "unat (page_of a) = unat a div 4096"
proof -
  have "unat (page_of a) = drop_bit 12 (unat a)"
    unfolding page_of_def PAGE_BITS_def by (rule unat_drop_bit_eq)
  then show ?thesis by (simp add: drop_bit_eq_div)
qed

lemma offset_less: "offset_in_page a < PAGE_SIZE"
  by (simp add: offset_mod PAGE_SIZE_def)

lemma chunk_len_pos: "0 < needed \<Longrightarrow> 0 < chunk_len pos needed"
  using offset_less [of pos] by (simp add: chunk_len_def)

lemma chunk_len_le: "chunk_len pos needed \<le> needed"
  by (simp add: chunk_len_def)

lemma unat_advance: "unat pos + n < 2 ^ 64 \<Longrightarrow> unat (pos + of_nat n :: u64) = unat pos + n"
  by (simp add: unat_word_ariths unat_of_nat)

lemma unat_diff_less: "pos < e \<Longrightarrow> unat (e - pos) = unat e - unat (pos :: u64)"
  by (simp add: unat_sub word_less_nat_alt word_le_nat_alt)

lemma chunk_advance:
  assumes "pos < (e :: u64)"
  shows "unat (pos + of_nat (chunk_len pos (unat (e - pos))))
           = unat pos + chunk_len pos (unat (e - pos))"
    and "unat pos + chunk_len pos (unat (e - pos)) \<le> unat e"
    and "0 < chunk_len pos (unat (e - pos))"
proof -
  let ?c = "chunk_len pos (unat (e - pos))"
  have lt: "unat pos < unat e" using assms by (simp add: word_less_nat_alt)
  have d: "unat (e - pos) = unat e - unat pos" using assms by (rule unat_diff_less)
  show le: "unat pos + ?c \<le> unat e" using chunk_len_le [of pos "unat (e - pos)"] lt d by linarith
  then have "unat pos + ?c < 2 ^ 64" using unsigned_less [of e, where ?'a = nat] by simp
  then show "unat (pos + of_nat ?c) = unat pos + ?c" by (rule unat_advance)
  show "0 < ?c" by (rule chunk_len_pos) (use lt d in simp)
qed

function read_range_loop :: "linear_memory \<Rightarrow> u64 \<Rightarrow> u64 \<Rightarrow> u8 list \<Rightarrow> u8 list" where
  "read_range_loop m pos e result =
     (if pos < e
      then let pg = page_of pos; off = offset_in_page pos;
               chunk = chunk_len pos (unat (e - pos))
           in read_range_loop m (pos + of_nat chunk) e
                (result @ (case tb_get (lm_pages m) pg of
                             Some p \<Rightarrow> take chunk (drop off p)
                           | None \<Rightarrow> replicate chunk 0))
      else result)"
  by pat_completeness auto
termination
proof (relation "measure (\<lambda>(m, pos, e, r). unat e - unat pos)", goal_cases)
  case (2 m pos e r pg off chunk)
  then show ?case using chunk_advance [of pos e] by simp
qed simp

declare read_range_loop.simps [simp del]

definition read_range ::
  "linear_memory \<Rightarrow> mem_addr \<Rightarrow> mem_size \<Rightarrow> memory_error + u8 list" where
  "read_range m addr len =
     (if \<not> addr_in_bounds m addr len then Inl (OutOfBounds addr len (lm_bounds m))
      else Inr (read_range_loop m addr (addr + len) []))"

definition write_chunk :: "linear_memory \<Rightarrow> u64 \<Rightarrow> nat \<Rightarrow> u8 list \<Rightarrow> linear_memory" where
  "write_chunk m pg off ds =
     (let p = page_entry m pg
      in m\<lparr>lm_pages := tb_upsert (lm_pages m) pg (take off p @ ds @ drop (off + length ds) p)\<rparr>)"

function write_range_loop :: "linear_memory \<Rightarrow> u8 list \<Rightarrow> u64 \<Rightarrow> nat \<Rightarrow> linear_memory" where
  "write_range_loop m data pos src_off =
     (if src_off < length data
      then let pg = page_of pos; off = offset_in_page pos;
               chunk = chunk_len pos (length data - src_off)
           in write_range_loop (write_chunk m pg off (take chunk (drop src_off data)))
                data (pos + of_nat chunk) (src_off + chunk)
      else m)"
  by pat_completeness auto
termination
proof (relation "measure (\<lambda>(m, data, pos, so). length data - so)", goal_cases)
  case (2 m data pos so pg off chunk)
  then show ?case using chunk_len_pos [of "length data - so" pos] by simp
qed simp

declare write_range_loop.simps [simp del]

definition write_range_mut :: "linear_memory \<Rightarrow> mem_addr \<Rightarrow> u8 list \<Rightarrow> linear_memory" where
  "write_range_mut m addr data = write_range_loop m data addr 0"

definition write_range ::
  "linear_memory \<Rightarrow> mem_addr \<Rightarrow> u8 list \<Rightarrow> memory_error + linear_memory" where
  "write_range m addr data =
     (let len = of_nat (length data)
      in if \<not> addr_in_bounds m addr len then Inl (OutOfBounds addr len (lm_bounds m))
         else Inr (write_range_mut m addr data))"

section \<open>Linear memory as a byte function\<close>

definition mem_wf :: "linear_memory \<Rightarrow> bool" where
  "mem_wf m \<longleftrightarrow> sorted_table (lm_pages m) \<and> (\<forall>(k, p) \<in> set (lm_pages m). length p = PAGE_SIZE)"

lemma mem_wf_empty [simp, intro]: "mem_wf (mem_empty n)"
  by (simp add: mem_wf_def mem_empty_def)

lemma length_page_entry: "mem_wf m \<Longrightarrow> length (page_entry m pg) = PAGE_SIZE"
  by (auto simp: mem_wf_def page_entry_def zero_page_def split: option.splits dest!: tb_get_mem)

lemma mem_read_entry: "mem_read m a = page_entry m (page_of a) ! offset_in_page a"
  using offset_less [of a] by (simp add: mem_read_def page_entry_def zero_page_def split: option.splits)

lemma addr_in_bounds_iff: "addr_in_bounds m a n \<longleftrightarrow> unat a + unat n \<le> unat (lm_bounds m)"
proof (cases "checked_add a n")
  case None
  then have "2 ^ 64 \<le> unat a + unat n" by (simp add: checked_add_None_iff)
  moreover have "unat (lm_bounds m) < 2 ^ 64"
    using unsigned_less [of "lm_bounds m", where ?'a = nat] by simp
  ultimately show ?thesis using None by (simp add: addr_in_bounds_def)
next
  case (Some e)
  then show ?thesis
    by (simp add: addr_in_bounds_def word_le_nat_alt unat_checked_add)
qed

lemma within_page:
  assumes "n mod 4096 + i < (4096 :: nat)"
  shows "(n + i) div 4096 = n div 4096" and "(n + i) mod 4096 = n mod 4096 + i"
proof -
  have n: "n = 4096 * (n div 4096) + n mod 4096" by simp
  have "n + i < 4096 * (n div 4096) + 4096" using n assms by linarith
  then show d: "(n + i) div 4096 = n div 4096"
    by (intro div_nat_eqI) simp_all
  have "n + i = 4096 * ((n + i) div 4096) + (n + i) mod 4096" by simp
  with n d show "(n + i) mod 4096 = n mod 4096 + i" by linarith
qed

lemma same_page:
  assumes "offset_in_page pos + i < PAGE_SIZE" and "unat a = unat pos + i"
  shows "page_of a = page_of pos" and "offset_in_page a = offset_in_page pos + i"
proof -
  have "unat pos mod 4096 + i < 4096" using assms(1) by (simp add: offset_mod PAGE_SIZE_def)
  then have d: "(unat pos + i) div 4096 = unat pos div 4096"
    and m: "(unat pos + i) mod 4096 = unat pos mod 4096 + i"
    by (rule within_page)+
  show "page_of a = page_of pos" using d assms(2) by (simp add: word_unat_eq_iff page_div)
  show "offset_in_page a = offset_in_page pos + i" using m assms(2) by (simp add: offset_mod)
qed

lemma chunk_len_page: "offset_in_page pos + chunk_len pos n \<le> PAGE_SIZE"
  using offset_less [of pos] by (simp add: chunk_len_def)

lemma read_chunk:
  assumes wf: "mem_wf m" and c: "c \<le> chunk_len pos n" and top: "unat pos + c \<le> 2 ^ 64"
  shows "(case tb_get (lm_pages m) (page_of pos) of
            Some p \<Rightarrow> take c (drop (offset_in_page pos) p) | None \<Rightarrow> replicate c 0)
         = map (\<lambda>i. mem_read m (of_nat i)) [unat pos..<unat pos + c]"
    (is "?l = ?r")
proof -
  let ?o = "offset_in_page pos" and ?p = "page_entry m (page_of pos)"
  have fits: "?o + c \<le> PAGE_SIZE" using chunk_len_page [of pos n] c by linarith
  have l: "?l = take c (drop ?o ?p)"
    using fits by (simp add: page_entry_def zero_page_def split: option.splits)
  have len: "length (take c (drop ?o ?p)) = c"
    using fits length_page_entry [OF wf, of "page_of pos"] by simp
  show ?thesis unfolding l
  proof (rule nth_equalityI)
    show "length (take c (drop ?o ?p)) = length ?r" using len by simp
  next
    fix i
    assume "i < length (take c (drop ?o ?p))"
    then have i: "i < c" using len by simp
    define a :: u64 where "a = of_nat (unat pos + i)"
    have ua: "unat a = unat pos + i" unfolding a_def using i top by (subst unat_of_nat) simp
    have io: "?o + i < PAGE_SIZE" using i fits by linarith
    have "mem_read m a = ?p ! (?o + i)"
      unfolding mem_read_entry same_page [OF io ua] by (rule refl)
    with i len length_page_entry [OF wf, of "page_of pos"] fits
    show "take c (drop ?o ?p) ! i = ?r ! i" by (simp add: a_def)
  qed
qed

lemma read_range_loop_eq:
  "mem_wf m \<Longrightarrow> pos \<le> e \<Longrightarrow>
   read_range_loop m pos e r = r @ map (\<lambda>i. mem_read m (of_nat i)) [unat pos..<unat e]"
proof (induction m pos e r rule: read_range_loop.induct)
  case (1 m pos e r)
  show ?case
  proof (cases "pos < e")
    case True
    let ?c = "chunk_len pos (unat (e - pos))"
    note adv = chunk_advance [OF True]
    have top: "unat pos + ?c \<le> 2 ^ 64" using adv(2) unsigned_less [of e, where ?'a = nat] by simp
    have "pos + of_nat ?c \<le> e" using adv(1,2) by (simp add: word_le_nat_alt)
    note IH = "1.IH" [OF True refl refl refl "1.prems"(1) this]
    have "[unat pos..<unat e] = [unat pos..<unat pos + ?c] @ [unat pos + ?c..<unat e]"
      using adv(2) upt_add_eq_append [of "unat pos" "unat pos + ?c" "unat e - (unat pos + ?c)"]
      by simp
    with IH True read_chunk [OF "1.prems"(1) order.refl top] show ?thesis
      by (simp add: read_range_loop.simps [of m pos e r] Let_def adv(1))
  next
    case False
    with "1.prems"(2) have "pos = e" by simp
    then show ?thesis by (simp add: read_range_loop.simps [of m e e r])
  qed
qed

lemma read_range_eq:
  assumes "mem_wf m"
  shows "read_range m a n =
    (if unat a + unat n \<le> unat (lm_bounds m)
     then Inr (map (\<lambda>i. mem_read m (of_nat i)) [unat a..<unat a + unat n])
     else Inl (OutOfBounds a n (lm_bounds m)))"
proof (cases "unat a + unat n \<le> unat (lm_bounds m)")
  case True
  then have "unat a + unat n < 2 ^ 64"
    using unsigned_less [of "lm_bounds m", where ?'a = nat] by simp
  then have "unat (a + n) = unat a + unat n" by (simp add: unat_add_no_overflow)
  then show ?thesis using True assms
    by (simp add: read_range_def addr_in_bounds_iff read_range_loop_eq word_le_nat_alt)
next
  case False
  then show ?thesis by (simp add: read_range_def addr_in_bounds_iff)
qed

lemma write_chunk_wf:
  assumes "mem_wf m" and "off + length ds \<le> PAGE_SIZE"
  shows "mem_wf (write_chunk m pg off ds)"
proof -
  have s: "sorted_table (lm_pages m)" using assms(1) by (simp add: mem_wf_def)
  let ?p = "take off (page_entry m pg) @ ds @ drop (off + length ds) (page_entry m pg)"
  have len: "length ?p = PAGE_SIZE" using length_page_entry [OF assms(1), of pg] assms(2) by simp
  have "length p = PAGE_SIZE" if "(k, p) \<in> set (tb_upsert (lm_pages m) pg ?p)" for k p
  proof -
    have "tb_get (tb_upsert (lm_pages m) pg ?p) k = Some p"
      using that s by (simp add: tb_get_iff tb_upsert_sorted)
    then have "p = ?p \<or> tb_get (lm_pages m) k = Some p"
      unfolding tb_upsert_get [OF s] by (metis option.inject)
    then have "p = ?p \<or> (k, p) \<in> set (lm_pages m)"
      using tb_get_mem by metis
    then show ?thesis using len assms(1) unfolding mem_wf_def by blast
  qed
  then have "\<forall>(k, p) \<in> set (tb_upsert (lm_pages m) pg ?p). length p = PAGE_SIZE" by blast
  moreover have "lm_pages (write_chunk m pg off ds) = tb_upsert (lm_pages m) pg ?p"
    by (simp add: write_chunk_def Let_def)
  ultimately show ?thesis using tb_upsert_sorted [OF s] unfolding mem_wf_def by presburger
qed

lemma write_chunk_read:
  assumes wf: "mem_wf m" and fits: "off + length ds \<le> PAGE_SIZE"
  shows "mem_read (write_chunk m pg off ds) a =
    (if page_of a = pg \<and> off \<le> offset_in_page a \<and> offset_in_page a < off + length ds
     then ds ! (offset_in_page a - off) else mem_read m a)"
proof -
  have s: "sorted_table (lm_pages m)" using wf by (simp add: mem_wf_def)
  show ?thesis
  proof (cases "page_of a = pg")
    case False
    then show ?thesis using s by (simp add: mem_read_def write_chunk_def Let_def tb_upsert_get)
  next
    case True
    have "mem_read (write_chunk m pg off ds) a =
        (take off (page_entry m pg) @ ds @ drop (off + length ds) (page_entry m pg)) ! offset_in_page a"
      using s True by (simp add: mem_read_def write_chunk_def Let_def tb_upsert_get)
    moreover have "(take off xs @ ds @ drop (off + length ds) xs) ! j =
        (if off \<le> j \<and> j < off + length ds then ds ! (j - off) else xs ! j)"
      if "length xs = PAGE_SIZE" "j < PAGE_SIZE" for xs :: page and j
      using that fits
      by (cases "j < off"; cases "j < off + length ds") (auto simp: nth_append min_absorb2)
    ultimately show ?thesis
      using True offset_less [of a] length_page_entry [OF wf, of pg] by (simp add: mem_read_entry)
  qed
qed

lemma write_chunk_bounds [simp]: "lm_bounds (write_chunk m pg off ds) = lm_bounds m"
  by (simp add: write_chunk_def Let_def)

lemma chunk_read:
  assumes "mem_wf m" and fits: "offset_in_page pos + length ds \<le> PAGE_SIZE"
  shows "mem_read (write_chunk m (page_of pos) (offset_in_page pos) ds) a =
    (if unat pos \<le> unat a \<and> unat a < unat pos + length ds then ds ! (unat a - unat pos) else mem_read m a)"
proof (cases "unat pos \<le> unat a \<and> unat a < unat pos + length ds")
  case inside: True
  define i where "i = unat a - unat pos"
  have i: "unat a = unat pos + i" "i < length ds" using inside unfolding i_def by linarith+
  have "offset_in_page pos + i < PAGE_SIZE" using i(2) fits by linarith
  from same_page [OF this i(1)] show ?thesis
    using inside i fits by (simp add: write_chunk_read [OF assms(1)] i_def [symmetric])
next
  case outside: False
  have "\<not> (page_of a = page_of pos \<and> offset_in_page pos \<le> offset_in_page a
       \<and> offset_in_page a < offset_in_page pos + length ds)"
  proof
    assume h: "page_of a = page_of pos \<and> offset_in_page pos \<le> offset_in_page a
       \<and> offset_in_page a < offset_in_page pos + length ds"
    then have "unat a div 4096 = unat pos div 4096" by (metis page_div)
    moreover have "unat a = 4096 * (unat a div 4096) + unat a mod 4096"
      "unat pos = 4096 * (unat pos div 4096) + unat pos mod 4096" by simp_all
    ultimately show False using h outside unfolding offset_mod by linarith
  qed
  then show ?thesis using outside unfolding write_chunk_read [OF assms] by (simp only: if_False)
qed

lemma write_range_loop_spec:
  assumes "mem_wf m" and "so \<le> length data" and "unat pos + (length data - so) < 2 ^ 64"
  shows "mem_wf (write_range_loop m data pos so)
    \<and> lm_bounds (write_range_loop m data pos so) = lm_bounds m
    \<and> mem_read (write_range_loop m data pos so) a =
        (if unat pos \<le> unat a \<and> unat a < unat pos + (length data - so)
         then data ! (so + (unat a - unat pos)) else mem_read m a)"
  using assms
proof (induction m data pos so rule: write_range_loop.induct)
  case (1 m data pos so)
  show ?case
  proof (cases "so < length data")
    case True
    define n where "n = length data - so"
    define c where "c = chunk_len pos n"
    define ds where "ds = take c (drop so data)"
    define m' where "m' = write_chunk m (page_of pos) (offset_in_page pos) ds"
    have c: "0 < c" "c \<le> n" "offset_in_page pos + c \<le> PAGE_SIZE"
      using True chunk_len_pos [of n pos] chunk_len_le chunk_len_page by (simp_all add: c_def n_def)
    have len: "length ds = c" using c(2) by (simp add: ds_def n_def)
    have wf': "mem_wf m'" unfolding m'_def by (rule write_chunk_wf [OF "1.prems"(1)]) (use c len in simp)
    have adv: "unat (pos + of_nat c) = unat pos + c"
      by (rule unat_advance) (use c(2) "1.prems"(3) n_def in linarith)
    have step: "write_range_loop m data pos so = write_range_loop m' data (pos + of_nat c) (so + c)"
      using True by (simp add: write_range_loop.simps [of m data pos so] Let_def m'_def ds_def c_def n_def)
    have IH: "mem_wf (write_range_loop m' data (pos + of_nat c) (so + c))
      \<and> lm_bounds (write_range_loop m' data (pos + of_nat c) (so + c)) = lm_bounds m'
      \<and> mem_read (write_range_loop m' data (pos + of_nat c) (so + c)) a =
          (if unat pos + c \<le> unat a \<and> unat a < unat pos + c + (length data - (so + c))
           then data ! (so + c + (unat a - (unat pos + c))) else mem_read m' a)"
      unfolding m'_def ds_def c_def n_def adv [unfolded c_def n_def, symmetric]
      by (rule "1.IH" [OF True refl refl refl])
        (use wf' c(2) True "1.prems"(3) adv in \<open>simp_all add: m'_def ds_def c_def n_def\<close>)
    have "mem_read m' a = (if unat pos \<le> unat a \<and> unat a < unat pos + c
        then data ! (so + (unat a - unat pos)) else mem_read m a)"
      using chunk_read [OF "1.prems"(1), of pos ds a] c(2,3) len "1.prems"(2) by (auto simp: m'_def ds_def)
    then show ?thesis unfolding step using IH c(2) by (auto simp: m'_def n_def)
  next
    case False
    then have "write_range_loop m data pos so = m" by (simp add: write_range_loop.simps [of m data pos so])
    then show ?thesis using False "1.prems" by auto
  qed
qed

text \<open>C29: a range write that is accepted (exactly when the range fits the bounds, overflow
  included) stores the data at its address, leaves every other byte and the bounds alone, and
  reading the range back returns the data; a rejected write reports the range and the bounds.\<close>
theorem write_range_correct:
  assumes "mem_wf m" and "length data < 2 ^ 64"
  shows "(unat addr + length data \<le> unat (lm_bounds m) \<longrightarrow>
      (\<exists>m'. write_range m addr data = Inr m' \<and> mem_wf m' \<and> lm_bounds m' = lm_bounds m
         \<and> (\<forall>a. mem_read m' a =
              (if unat addr \<le> unat a \<and> unat a < unat addr + length data
               then data ! (unat a - unat addr) else mem_read m a))
         \<and> read_range m' addr (of_nat (length data)) = Inr data))
    \<and> (\<not> unat addr + length data \<le> unat (lm_bounds m) \<longrightarrow>
      write_range m addr data = Inl (OutOfBounds addr (of_nat (length data)) (lm_bounds m)))"
proof -
  have len: "unat (of_nat (length data) :: u64) = length data"
    using assms(2) by (simp add: unat_of_nat)
  have "\<exists>m'. write_range m addr data = Inr m' \<and> mem_wf m' \<and> lm_bounds m' = lm_bounds m
         \<and> (\<forall>a. mem_read m' a =
              (if unat addr \<le> unat a \<and> unat a < unat addr + length data
               then data ! (unat a - unat addr) else mem_read m a))
         \<and> read_range m' addr (of_nat (length data)) = Inr data"
    if fits: "unat addr + length data \<le> unat (lm_bounds m)"
  proof -
    let ?m' = "write_range_mut m addr data"
    have top: "unat addr + length data < 2 ^ 64"
      using fits unsigned_less [of "lm_bounds m", where ?'a = nat] by simp
    have spec: "mem_wf ?m' \<and> lm_bounds ?m' = lm_bounds m \<and> mem_read ?m' a =
        (if unat addr \<le> unat a \<and> unat a < unat addr + length data
         then data ! (unat a - unat addr) else mem_read m a)" for a
      using write_range_loop_spec [OF assms(1), of 0 data addr a] top
      by (simp add: write_range_mut_def)
    have "map (\<lambda>i. mem_read ?m' (of_nat i)) [unat addr..<unat addr + length data] = data"
      using spec top by (intro nth_equalityI) (simp_all add: unat_advance)
    then have "read_range ?m' addr (of_nat (length data)) = Inr data"
      using spec fits len by (simp add: read_range_eq)
    moreover have "write_range m addr data = Inr ?m'"
      using fits len by (simp add: write_range_def addr_in_bounds_iff Let_def)
    ultimately show ?thesis using spec by blast
  qed
  then show ?thesis using len by (simp add: write_range_def addr_in_bounds_iff Let_def)
qed

theorem write_range_correct_witness:
  "\<exists>m'. write_range (mem_empty 8) 2 [7, 9] = Inr m' \<and> read_range m' 2 2 = Inr [7, 9]
     \<and> mem_read m' 5 = 0"
proof -
  have "mem_wf (mem_empty 8)" "length [7, 9 :: u8] < 2 ^ 64" by simp_all
  from write_range_correct [OF this, of 2] show ?thesis
    by (auto simp: mem_empty_def mem_read_def [of "\<lparr>lm_pages = [], lm_bounds = 8\<rparr>"])
qed

section \<open>Resource life cycle\<close>

datatype resource_status = Unallocated | Allocated plugin_id | Freed

definition rs_is_allocated :: "resource_status \<Rightarrow> bool" where
  "rs_is_allocated st \<longleftrightarrow> (case st of Allocated _ \<Rightarrow> True | _ \<Rightarrow> False)"

definition rs_owner :: "resource_status \<Rightarrow> plugin_id option" where
  "rs_owner st = (case st of Allocated owner \<Rightarrow> Some owner | _ \<Rightarrow> None)"

definition rs_is_freed :: "resource_status \<Rightarrow> bool" where
  "rs_is_freed st \<longleftrightarrow> st = Freed"

definition rs_is_unallocated :: "resource_status \<Rightarrow> bool" where
  "rs_is_unallocated st \<longleftrightarrow> st = Unallocated"

record meta_state =
  ms_resources :: "(mem_addr, resource_status) table"
  ms_freed_set :: "mem_addr list"

definition meta_empty :: meta_state where
  "meta_empty = \<lparr>ms_resources = [], ms_freed_set = []\<rparr>"

definition is_freed :: "meta_state \<Rightarrow> mem_addr \<Rightarrow> bool" where
  "is_freed g addr = kv_contains (ms_freed_set g) addr"

definition is_live :: "meta_state \<Rightarrow> mem_addr \<Rightarrow> bool" where
  "is_live g addr =
     (case tb_get (ms_resources g) addr of
        Some (Allocated _) \<Rightarrow> \<not> is_freed g addr
      | _ \<Rightarrow> False)"

definition meta_alloc :: "meta_state \<Rightarrow> mem_addr \<Rightarrow> plugin_id \<Rightarrow> meta_state" where
  "meta_alloc g addr owner =
     g\<lparr>ms_resources := tb_upsert (ms_resources g) addr (Allocated owner)\<rparr>"

definition meta_alloc_mut :: "meta_state \<Rightarrow> mem_addr \<Rightarrow> plugin_id \<Rightarrow> meta_state" where
  "meta_alloc_mut g addr owner = g\<lparr>ms_resources := tb_upsert (ms_resources g) addr (Allocated owner)\<rparr>"

definition meta_free :: "meta_state \<Rightarrow> mem_addr \<Rightarrow> meta_state" where
  "meta_free g addr = g\<lparr>ms_freed_set := kv_insert (ms_freed_set g) addr\<rparr>"

definition meta_free_mut :: "meta_state \<Rightarrow> mem_addr \<Rightarrow> memory_error + meta_state" where
  "meta_free_mut g addr =
     (if is_freed g addr then Inl (DoubleFree addr)
      else case tb_get (ms_resources g) addr of
        Some (Allocated _) \<Rightarrow>
          Inr \<lparr>ms_resources = tb_modify (ms_resources g) addr (\<lambda>_. Freed),
               ms_freed_set = kv_insert (ms_freed_set g) addr\<rparr>
      | Some Freed \<Rightarrow> Inl (DoubleFree addr)
      | _ \<Rightarrow> Inl (NotAllocated addr))"

definition allocated_count :: "meta_state \<Rightarrow> nat" where
  "allocated_count g = length (filter (\<lambda>(k, st). rs_is_allocated st) (ms_resources g))"

definition meta_resource_count :: "meta_state \<Rightarrow> nat" where
  "meta_resource_count g = length (ms_resources g)"

definition freed_count :: "meta_state \<Rightarrow> nat" where
  "freed_count g = length (ms_freed_set g)"

definition meta_status :: "meta_state \<Rightarrow> mem_addr \<Rightarrow> resource_status option" where
  "meta_status g addr = tb_get (ms_resources g) addr"

text \<open>
  Well-formedness: both collections are sorted. \<open>meta_fresh\<close> is what allocation by counting
  relies on: the addresses in the map are the numbers below its length.
\<close>

definition meta_wf :: "meta_state \<Rightarrow> bool" where
  "meta_wf g \<longleftrightarrow> sorted_table (ms_resources g) \<and> sorted_wrt (<) (ms_freed_set g)"

definition meta_fresh :: "meta_state \<Rightarrow> bool" where
  "meta_fresh g \<longleftrightarrow> (\<forall>a \<in> fst ` set (ms_resources g). unat a < length (ms_resources g))"

lemma is_freed_iff: "meta_wf g \<Longrightarrow> is_freed g a \<longleftrightarrow> a \<in> set (ms_freed_set g)"
  by (simp add: meta_wf_def is_freed_def kv_contains_iff)

lemma meta_wf_empty [simp, intro]: "meta_wf meta_empty"
  by (simp add: meta_wf_def meta_empty_def)

lemma meta_wf_alloc [wf_intros]: "meta_wf g \<Longrightarrow> meta_wf (meta_alloc g a owner)"
  by (simp add: meta_wf_def meta_alloc_def tb_upsert_sorted)

lemma meta_wf_free [wf_intros]: "meta_wf g \<Longrightarrow> meta_wf (meta_free g a)"
  by (simp add: meta_wf_def meta_free_def kv_insert_sorted)

lemma meta_free_mut_Inr:
  "meta_free_mut g a = Inr g' \<longleftrightarrow>
     is_live g a \<and> g' = \<lparr>ms_resources = tb_modify (ms_resources g) a (\<lambda>_. Freed),
                       ms_freed_set = kv_insert (ms_freed_set g) a\<rparr>"
  by (auto simp: meta_free_mut_def is_live_def split: if_splits option.splits resource_status.splits)

lemma meta_wf_free_mut: "meta_wf g \<Longrightarrow> meta_free_mut g a = Inr g' \<Longrightarrow> meta_wf g'"
  by (auto simp: meta_free_mut_Inr meta_wf_def kv_insert_sorted)

lemma is_freed_free: "meta_wf g \<Longrightarrow> is_freed (meta_free g a) b \<longleftrightarrow> b = a \<or> is_freed g b"
  by (simp add: is_freed_iff meta_wf_free) (simp add: meta_free_def kv_insert_set)

lemma is_freed_alloc [simp]: "is_freed (meta_alloc g a owner) b = is_freed g b"
  by (simp add: is_freed_def meta_alloc_def)

lemma is_freed_free_mut:
  assumes "meta_wf g" and "meta_free_mut g a = Inr g'"
  shows "is_freed g' b \<longleftrightarrow> b = a \<or> is_freed g b"
  using assms meta_wf_free_mut [OF assms]
  by (auto simp: is_freed_iff meta_free_mut_Inr kv_insert_set)

text \<open>Freeing in place succeeds exactly on live addresses, makes precisely that address dead
  for good (a second free reports a double free), and leaves the liveness of every other address
  as it was; an address never allocated is reported as such.\<close>
theorem free_mut_lifecycle:
  assumes "meta_wf g"
  shows "(is_live g a \<longleftrightarrow> (\<exists>g'. meta_free_mut g a = Inr g'))
    \<and> (\<forall>g'. meta_free_mut g a = Inr g' \<longrightarrow>
         meta_wf g' \<and> \<not> is_live g' a \<and> meta_free_mut g' a = Inl (DoubleFree a)
         \<and> (\<forall>b. b \<noteq> a \<longrightarrow> is_live g' b = is_live g b))
    \<and> (tb_get (ms_resources g) a = None \<and> \<not> is_freed g a \<longrightarrow>
         meta_free_mut g a = Inl (NotAllocated a))"
proof -
  have step: "meta_wf g' \<and> \<not> is_live g' a \<and> meta_free_mut g' a = Inl (DoubleFree a)
         \<and> (\<forall>b. b \<noteq> a \<longrightarrow> is_live g' b = is_live g b)" if f: "meta_free_mut g a = Inr g'" for g'
  proof -
    have wf': "meta_wf g'" using assms f by (rule meta_wf_free_mut)
    note fr = is_freed_free_mut [OF assms f]
    have g': "ms_resources g' = tb_modify (ms_resources g) a (\<lambda>_. Freed)"
      using f by (simp add: meta_free_mut_Inr)
    show ?thesis
      using wf' by (auto simp: is_live_def meta_free_mut_def fr g' tb_modify_get
          split: option.splits resource_status.splits)
  qed
  show ?thesis using step by (auto simp: meta_free_mut_Inr) (auto simp: meta_free_mut_def)
qed

theorem free_mut_lifecycle_witness:
  "(\<exists>g'. meta_free_mut (meta_alloc meta_empty 0 5) 0 = Inr g')
   \<and> meta_free_mut (meta_alloc meta_empty 0 5) 1 = Inl (NotAllocated 1)"
proof -
  have "meta_wf (meta_alloc meta_empty 0 5)" by (simp add: meta_wf_alloc)
  note free_mut_lifecycle [OF this]
  moreover have "is_live (meta_alloc meta_empty 0 5) 0"
    by (simp add: is_live_def meta_alloc_def meta_empty_def is_freed_def table_eval)
  moreover have "tb_get (ms_resources (meta_alloc meta_empty 0 5)) 1 = None
      \<and> \<not> is_freed (meta_alloc meta_empty 0 5) 1"
    by (simp add: meta_alloc_def meta_empty_def is_freed_def table_eval)
  ultimately show ?thesis by blast
qed

section \<open>Sizes and defaults\<close>

definition written_bytes :: "linear_memory \<Rightarrow> nat" where
  "written_bytes m = length (lm_pages m) * PAGE_SIZE"

definition mem_is_empty :: "linear_memory \<Rightarrow> bool" where
  "mem_is_empty m \<longleftrightarrow> lm_pages m = []"

definition mem_default :: "linear_memory" where
  "mem_default = mem_empty 0"

definition meta_default :: "meta_state" where
  "meta_default = meta_empty"

lemma mem_is_empty_reads:
  assumes "mem_is_empty m"
  shows "mem_read m a = 0" and "written_bytes m = 0"
  using assms by (simp_all add: mem_is_empty_def mem_read_def written_bytes_def table_eval)

end
