(* ===== verification/LionPlugin.thy ===== *)
theory LionPlugin
  imports LionMemory LionSecurity
begin

text \<open>
  Plugin instances (\<open>state/plugin.rs\<close>): security level, linear memory, the sorted vector of held
  capability identifiers, and the quotas. The opaque local state is the unit struct of the code.
\<close>

datatype plugin_local = PluginLocal

datatype plugin_error =
  CapNotHeld cap_id
| MemoryOutOfBounds u64 u64 u64
| MemoryQuotaExceeded u64 u64 u64
| CapQuotaExceeded u64 u64
| IpcQueueLimitExceeded u64 u64

definition DEFAULT_QUOTA :: u64 where
  "DEFAULT_QUOTA = (- 1) div 2"

record plugin_state =
  pg_level :: security_level
  pg_memory :: linear_memory
  pg_held_caps :: "cap_id list"
  pg_local_state :: plugin_local
  pg_memory_quota :: u64
  pg_memory_used :: u64
  pg_cap_quota :: u64
  pg_ipc_queue_limit :: u64

definition plugin_with_quotas ::
  "security_level \<Rightarrow> mem_size \<Rightarrow> u64 \<Rightarrow> u64 \<Rightarrow> u64 \<Rightarrow> plugin_state" where
  "plugin_with_quotas level sz memory_quota cap_quota ipc =
     \<lparr>pg_level = level, pg_memory = mem_empty sz, pg_held_caps = [],
      pg_local_state = PluginLocal, pg_memory_quota = memory_quota, pg_memory_used = 0,
      pg_cap_quota = cap_quota, pg_ipc_queue_limit = ipc\<rparr>"

definition plugin_empty :: "security_level \<Rightarrow> mem_size \<Rightarrow> plugin_state" where
  "plugin_empty level sz =
     \<lparr>pg_level = level, pg_memory = mem_empty sz, pg_held_caps = [],
      pg_local_state = PluginLocal, pg_memory_quota = DEFAULT_QUOTA, pg_memory_used = 0,
      pg_cap_quota = DEFAULT_QUOTA, pg_ipc_queue_limit = DEFAULT_QUOTA\<rparr>"

definition holds_cap :: "plugin_state \<Rightarrow> cap_id \<Rightarrow> bool" where
  "holds_cap p c = kv_contains (pg_held_caps p) c"

definition insert_cap_sorted :: "cap_id list \<Rightarrow> cap_id \<Rightarrow> cap_id list" where
  "insert_cap_sorted caps c = kv_insert caps c"

definition remove_cap_sorted :: "cap_id list \<Rightarrow> cap_id \<Rightarrow> cap_id list" where
  "remove_cap_sorted caps c = kv_remove caps c"

definition grant_cap :: "plugin_state \<Rightarrow> cap_id \<Rightarrow> plugin_state" where
  "grant_cap p c =
     \<lparr>pg_level = pg_level p, pg_memory = pg_memory p,
      pg_held_caps = insert_cap_sorted (pg_held_caps p) c,
      pg_local_state = pg_local_state p, pg_memory_quota = pg_memory_quota p,
      pg_memory_used = pg_memory_used p, pg_cap_quota = pg_cap_quota p,
      pg_ipc_queue_limit = pg_ipc_queue_limit p\<rparr>"

definition grant_cap_mut :: "plugin_state \<Rightarrow> cap_id \<Rightarrow> plugin_state" where
  "grant_cap_mut p c = p\<lparr>pg_held_caps := insert_cap_sorted (pg_held_caps p) c\<rparr>"

definition plugin_revoke_cap :: "plugin_state \<Rightarrow> cap_id \<Rightarrow> plugin_state" where
  "plugin_revoke_cap p c =
     \<lparr>pg_level = pg_level p, pg_memory = pg_memory p,
      pg_held_caps = remove_cap_sorted (pg_held_caps p) c,
      pg_local_state = pg_local_state p, pg_memory_quota = pg_memory_quota p,
      pg_memory_used = pg_memory_used p, pg_cap_quota = pg_cap_quota p,
      pg_ipc_queue_limit = pg_ipc_queue_limit p\<rparr>"

definition plugin_revoke_cap_mut :: "plugin_state \<Rightarrow> cap_id \<Rightarrow> plugin_state" where
  "plugin_revoke_cap_mut p c = p\<lparr>pg_held_caps := remove_cap_sorted (pg_held_caps p) c\<rparr>"

definition can_alloc_memory :: "plugin_state \<Rightarrow> u64 \<Rightarrow> bool" where
  "can_alloc_memory p n =
     (case checked_add (pg_memory_used p) n of
        Some t \<Rightarrow> t \<le> pg_memory_quota p
      | None \<Rightarrow> False)"

definition can_hold_cap :: "plugin_state \<Rightarrow> bool" where
  "can_hold_cap p \<longleftrightarrow> (of_nat (length (pg_held_caps p)) :: u64) < pg_cap_quota p"

definition can_queue_ipc :: "plugin_state \<Rightarrow> u64 \<Rightarrow> bool" where
  "can_queue_ipc p n \<longleftrightarrow> n < pg_ipc_queue_limit p"

definition alloc_memory :: "plugin_state \<Rightarrow> u64 \<Rightarrow> bool \<times> plugin_state" where
  "alloc_memory p n =
     (if \<not> can_alloc_memory p n then (False, p)
      else (True, p\<lparr>pg_memory_used := saturating_add (pg_memory_used p) n\<rparr>))"

definition free_memory :: "plugin_state \<Rightarrow> u64 \<Rightarrow> plugin_state" where
  "free_memory p n = p\<lparr>pg_memory_used := saturating_sub (pg_memory_used p) n\<rparr>"

section \<open>Invariants\<close>

text \<open>
  The memory is well formed, the held identifiers are sorted without repetition, and the quota
  bounds the recorded use.
\<close>

definition plugin_wf :: "plugin_state \<Rightarrow> bool" where
  "plugin_wf p \<longleftrightarrow> mem_wf (pg_memory p) \<and> sorted_wrt (<) (pg_held_caps p)
     \<and> pg_memory_used p \<le> pg_memory_quota p"

lemma plugin_wf_empty [simp, intro]: "plugin_wf (plugin_empty l n)"
  by (simp add: plugin_wf_def plugin_empty_def)

lemma grant_cap_eq_mut: "grant_cap p c = grant_cap_mut p c"
  by (simp add: grant_cap_def grant_cap_mut_def)

lemma plugin_revoke_cap_eq_mut: "plugin_revoke_cap p c = plugin_revoke_cap_mut p c"
  by (simp add: plugin_revoke_cap_def plugin_revoke_cap_mut_def)

lemma plugin_wf_grant [simp]: "plugin_wf p \<Longrightarrow> plugin_wf (grant_cap_mut p c)"
  by (simp add: plugin_wf_def grant_cap_mut_def insert_cap_sorted_def kv_insert_sorted)

lemma holds_cap_iff: "plugin_wf p \<Longrightarrow> holds_cap p c \<longleftrightarrow> c \<in> set (pg_held_caps p)"
  by (simp add: plugin_wf_def holds_cap_def kv_contains_iff)

lemma holds_cap_grant:
  "plugin_wf p \<Longrightarrow> holds_cap (grant_cap_mut p c) d \<longleftrightarrow> d = c \<or> holds_cap p d"
  by (simp add: holds_cap_iff) (simp add: grant_cap_mut_def insert_cap_sorted_def kv_insert_set)

lemma can_alloc_memory_iff:
  "can_alloc_memory p n \<longleftrightarrow> unat (pg_memory_used p) + unat n \<le> unat (pg_memory_quota p)"
proof (cases "checked_add (pg_memory_used p) n")
  case None
  then have "2 ^ 64 \<le> unat (pg_memory_used p) + unat n" by (simp add: checked_add_None_iff)
  moreover have "unat (pg_memory_quota p) < 2 ^ 64"
    using unsigned_less [of "pg_memory_quota p", where ?'a = nat] by simp
  ultimately show ?thesis using None by (simp add: can_alloc_memory_def)
next
  case (Some t)
  then show ?thesis by (simp add: can_alloc_memory_def word_le_nat_alt unat_checked_add)
qed

lemma alloc_used_exact:
  assumes "can_alloc_memory p n"
  shows "unat (saturating_add (pg_memory_used p) n) = unat (pg_memory_used p) + unat n"
    and "saturating_add (pg_memory_used p) n \<le> pg_memory_quota p"
proof -
  have le: "unat (pg_memory_used p) + unat n \<le> unat (pg_memory_quota p)"
    using assms by (simp add: can_alloc_memory_iff)
  moreover have "unat (pg_memory_quota p) < 2 ^ 64"
    using unsigned_less [of "pg_memory_quota p", where ?'a = nat] by simp
  ultimately show eq: "unat (saturating_add (pg_memory_used p) n) = unat (pg_memory_used p) + unat n"
    by (simp add: unat_saturating_add)
  show "saturating_add (pg_memory_used p) n \<le> pg_memory_quota p"
    using le eq by (simp add: word_le_nat_alt)
qed

text \<open>Memory accounting never passes the quota and never wraps: an allocation is accepted
  exactly when the true sum of use and request is within the quota, then the use grows by exactly
  the request and the invariant is kept; a refused one changes nothing; freeing what was
  allocated restores the use.\<close>
theorem memory_quota_enforced:
  assumes "plugin_wf p"
  shows "(fst (alloc_memory p n) \<longleftrightarrow>
            unat (pg_memory_used p) + unat n \<le> unat (pg_memory_quota p))
    \<and> plugin_wf (snd (alloc_memory p n))
    \<and> (fst (alloc_memory p n) \<longrightarrow>
         unat (pg_memory_used (snd (alloc_memory p n))) = unat (pg_memory_used p) + unat n
         \<and> free_memory (snd (alloc_memory p n)) n = p)
    \<and> (\<not> fst (alloc_memory p n) \<longrightarrow> snd (alloc_memory p n) = p)"
proof (cases "can_alloc_memory p n")
  case True
  note used = alloc_used_exact [OF True]
  have "saturating_sub (saturating_add (pg_memory_used p) n) n = pg_memory_used p"
    using used(1) by (simp add: word_unat_eq_iff unat_saturating_sub)
  then show ?thesis
    using True assms used can_alloc_memory_iff [of p n]
    by (simp add: alloc_memory_def free_memory_def plugin_wf_def)
next
  case False
  then show ?thesis using assms can_alloc_memory_iff [of p n] by (simp add: alloc_memory_def)
qed

theorem memory_quota_enforced_witness:
  "fst (alloc_memory (plugin_with_quotas Public 0 10 1 1) 10)
   \<and> \<not> fst (alloc_memory (plugin_with_quotas Public 0 10 1 1) 11)"
proof -
  have "plugin_wf (plugin_with_quotas Public 0 10 1 1)"
    by (simp add: plugin_wf_def plugin_with_quotas_def)
  from memory_quota_enforced [OF this, of 10] memory_quota_enforced [OF this, of 11]
  show ?thesis by (simp add: plugin_with_quotas_def)
qed

section \<open>Read access and defaults\<close>

definition held_cap_count :: "plugin_state \<Rightarrow> nat" where
  "held_cap_count p = length (pg_held_caps p)"

definition held_caps_ref :: "plugin_state \<Rightarrow> cap_id list" where
  "held_caps_ref p = pg_held_caps p"

definition plugin_default :: "plugin_state" where
  "plugin_default = 
     \<lparr>pg_level = Public, pg_memory = mem_empty 0, pg_held_caps = [], pg_local_state = PluginLocal,
      pg_memory_quota = DEFAULT_QUOTA, pg_memory_used = 0, pg_cap_quota = DEFAULT_QUOTA,
      pg_ipc_queue_limit = DEFAULT_QUOTA\<rparr>"

definition memory_mut :: "(linear_memory \<Rightarrow> linear_memory) \<Rightarrow> plugin_state \<Rightarrow> plugin_state" where
  "memory_mut f p = p\<lparr>pg_memory := f (pg_memory p)\<rparr>"

lemma plugin_default_eq: "plugin_default = plugin_empty Public 0"
  by (simp add: plugin_default_def plugin_empty_def)

lemma held_cap_count_card: "plugin_wf p \<Longrightarrow> held_cap_count p = card {k. holds_cap p k}"
proof -
  assume w: "plugin_wf p"
  then have "{k. holds_cap p k} = set (pg_held_caps p)" by (simp add: holds_cap_iff)
  moreover have "distinct (pg_held_caps p)" using w by (simp add: plugin_wf_def strict_sorted_iff)
  ultimately show ?thesis by (simp add: held_cap_count_def distinct_card)
qed

end
