(* ===== verification/LionActor.thy ===== *)
theory LionActor
  imports LionSecurity
begin

text \<open>
  Actors and messages (\<open>state/actor.rs\<close>): a bounded mailbox fed from an unbounded pending queue,
  both FIFO (\<open>VecDeque\<close> as a list, front first), with a wait-for edge.
\<close>

datatype actor_error = MailboxFull nat nat | NoMessage | Blocked actor_id

type_synonym msg_data = "u8 list"

record message =
  mg_id :: msg_id
  mg_src :: plugin_id
  mg_dst :: plugin_id
  mg_level :: security_level
  mg_body :: msg_data

record actor_runtime =
  ar_pending :: "message list"
  ar_mailbox :: "message list"
  ar_capacity :: nat
  ar_blocked_on :: "actor_id option"
  ar_pending_send :: "message option"

definition actor_empty :: "nat \<Rightarrow> actor_runtime" where
  "actor_empty capacity =
     \<lparr>ar_pending = [], ar_mailbox = [], ar_capacity = capacity, ar_blocked_on = None,
      ar_pending_send = None\<rparr>"

definition can_receive :: "actor_runtime \<Rightarrow> bool" where
  "can_receive a \<longleftrightarrow> ar_mailbox a \<noteq> []"

definition can_send :: "actor_runtime \<Rightarrow> nat \<Rightarrow> bool" where
  "can_send a target_capacity \<longleftrightarrow> length (ar_pending a) < target_capacity"

definition mailbox_has_space :: "actor_runtime \<Rightarrow> bool" where
  "mailbox_has_space a \<longleftrightarrow> length (ar_mailbox a) < ar_capacity a"

definition enqueue_pending :: "actor_runtime \<Rightarrow> message \<Rightarrow> actor_runtime" where
  "enqueue_pending a m =
     \<lparr>ar_pending = ar_pending a @ [m], ar_mailbox = ar_mailbox a, ar_capacity = ar_capacity a,
      ar_blocked_on = ar_blocked_on a, ar_pending_send = ar_pending_send a\<rparr>"

definition enqueue_pending_mut :: "actor_runtime \<Rightarrow> message \<Rightarrow> actor_runtime" where
  "enqueue_pending_mut a m = a\<lparr>ar_pending := ar_pending a @ [m]\<rparr>"

definition deliver :: "actor_runtime \<Rightarrow> actor_runtime" where
  "deliver a =
     (case ar_pending a of
        [] \<Rightarrow> a
      | m # ms \<Rightarrow>
          if length (ar_mailbox a) \<ge> ar_capacity a then a
          else \<lparr>ar_pending = ms, ar_mailbox = ar_mailbox a @ [m], ar_capacity = ar_capacity a,
                ar_blocked_on = ar_blocked_on a, ar_pending_send = ar_pending_send a\<rparr>)"

definition deliver_mut :: "actor_runtime \<Rightarrow> (actor_error + bool) \<times> actor_runtime" where
  "deliver_mut a =
     (case ar_pending a of
        [] \<Rightarrow> (Inl NoMessage, a)
      | m # ms \<Rightarrow>
          if length (ar_mailbox a) < ar_capacity a
          then (Inr True, a\<lparr>ar_pending := ms, ar_mailbox := ar_mailbox a @ [m]\<rparr>)
          else (Inr False, a))"

definition consume :: "actor_runtime \<Rightarrow> actor_runtime \<times> message option" where
  "consume a =
     (case ar_mailbox a of
        [] \<Rightarrow> (a, None)
      | m # ms \<Rightarrow>
          (\<lparr>ar_pending = ar_pending a, ar_mailbox = ms, ar_capacity = ar_capacity a,
            ar_blocked_on = ar_blocked_on a, ar_pending_send = ar_pending_send a\<rparr>, Some m))"

definition consume_mut :: "actor_runtime \<Rightarrow> message option \<times> actor_runtime" where
  "consume_mut a =
     (case ar_mailbox a of [] \<Rightarrow> (None, a) | m # ms \<Rightarrow> (Some m, a\<lparr>ar_mailbox := ms\<rparr>))"

definition set_blocked :: "actor_runtime \<Rightarrow> actor_id \<Rightarrow> actor_runtime" where
  "set_blocked a on = a\<lparr>ar_blocked_on := Some on\<rparr>"

definition unblock :: "actor_runtime \<Rightarrow> actor_runtime" where
  "unblock a = a\<lparr>ar_blocked_on := None\<rparr>"

definition is_blocked :: "actor_runtime \<Rightarrow> bool" where
  "is_blocked a \<longleftrightarrow> ar_blocked_on a \<noteq> None"

definition set_blocked_mut :: "actor_runtime \<Rightarrow> actor_id \<Rightarrow> actor_runtime" where
  "set_blocked_mut a on = a\<lparr>ar_blocked_on := Some on\<rparr>"

definition unblock_mut :: "actor_runtime \<Rightarrow> actor_runtime" where
  "unblock_mut a = a\<lparr>ar_blocked_on := None\<rparr>"

definition set_pending_send :: "actor_runtime \<Rightarrow> message option \<Rightarrow> actor_runtime" where
  "set_pending_send a m = a\<lparr>ar_pending_send := m\<rparr>"

definition pending_len :: "actor_runtime \<Rightarrow> nat" where
  "pending_len a = length (ar_pending a)"

definition mailbox_len :: "actor_runtime \<Rightarrow> nat" where
  "mailbox_len a = length (ar_mailbox a)"

section \<open>Delivery\<close>

text \<open>The mailbox never exceeds its capacity.\<close>

definition actor_wf :: "actor_runtime \<Rightarrow> bool" where
  "actor_wf a \<longleftrightarrow> length (ar_mailbox a) \<le> ar_capacity a"

text \<open>Everything on its way to the actor's program, in the order it will be read.\<close>

definition in_flight :: "actor_runtime \<Rightarrow> message list" where
  "in_flight a = ar_mailbox a @ ar_pending a"

lemma deliver_mut_snd: "snd (deliver_mut a) = deliver a"
  by (simp add: deliver_mut_def deliver_def split: list.splits)

lemma consume_mut_swap: "consume_mut a = prod.swap (consume a)"
  by (simp add: consume_mut_def consume_def split: list.splits)

lemma actor_wf_ops [simp]:
  "actor_wf (actor_empty n)"
  "actor_wf a \<Longrightarrow> actor_wf (deliver a)"
  "actor_wf a \<Longrightarrow> actor_wf (snd (consume_mut a))"
  "actor_wf a \<Longrightarrow> actor_wf (unblock a)"
  "actor_wf a \<Longrightarrow> actor_wf (set_blocked a x)"
  "actor_wf a \<Longrightarrow> actor_wf (enqueue_pending_mut a m)"
  by (auto simp: actor_wf_def actor_empty_def deliver_def consume_mut_def unblock_def
      set_blocked_def enqueue_pending_mut_def split: list.splits)

lemma in_flight_deliver [simp]: "in_flight (deliver a) = in_flight a"
  by (simp add: in_flight_def deliver_def split: list.splits)

lemma in_flight_enqueue [simp]: "in_flight (enqueue_pending_mut a m) = in_flight a @ [m]"
  by (simp add: in_flight_def enqueue_pending_mut_def)

lemma in_flight_consume: "consume_mut a = (Some m, a') \<Longrightarrow> in_flight a = m # in_flight a'"
  by (auto simp: in_flight_def consume_mut_def split: list.splits)

text \<open>A client's view of an actor: messages enter, are moved by the router, are read.\<close>

datatype mail_op = Enqueue message | Route | Consume

fun mail_step :: "mail_op \<Rightarrow> actor_runtime \<times> message list \<Rightarrow> actor_runtime \<times> message list" where
  "mail_step (Enqueue m) (a, out) = (enqueue_pending_mut a m, out)"
| "mail_step Route (a, out) = (deliver a, out)"
| "mail_step Consume (a, out) =
     (case consume_mut a of (None, a') \<Rightarrow> (a', out) | (Some m, a') \<Rightarrow> (a', out @ [m]))"

fun enqueued :: "mail_op list \<Rightarrow> message list" where
  "enqueued [] = []"
| "enqueued (Enqueue m # ops) = m # enqueued ops"
| "enqueued (_ # ops) = enqueued ops"

lemma consume_mut_None: "consume_mut a = (None, a') \<Longrightarrow> a' = a"
  by (auto simp: consume_mut_def split: list.splits)

lemma mail_step_flight:
  "snd (mail_step op (a, out)) @ in_flight (fst (mail_step op (a, out)))
     = out @ in_flight a @ enqueued [op]"
  by (cases op) (auto dest: in_flight_consume consume_mut_None split: prod.splits option.splits)

lemma enqueued_Cons: "enqueued (op # ops) = enqueued [op] @ enqueued ops"
  by (cases op) simp_all

text \<open>C32: mailboxes are lossless and FIFO under every interleaving of sends, deliveries and reads:
  what was read, followed by what is still in flight, is exactly what was sent, in order, and the
  mailbox never outgrows its capacity.\<close>
theorem mailbox_fifo:
  assumes "fold mail_step ops (actor_empty n, []) = (a, out)"
  shows "out @ in_flight a = enqueued ops \<and> length (ar_mailbox a) \<le> n"
proof -
  have gen: "out' @ in_flight b' = out0 @ in_flight b @ enqueued ops
      \<and> (actor_wf b \<longrightarrow> actor_wf b') \<and> ar_capacity b' = ar_capacity b"
    if "fold mail_step ops (b, out0) = (b', out')" for b out0 b' out'
    using that
  proof (induction ops arbitrary: b out0)
    case Nil
    then show ?case by simp
  next
    case (Cons op ops)
    obtain c out1 where s: "mail_step op (b, out0) = (c, out1)" by (cases "mail_step op (b, out0)")
    have "out1 @ in_flight c = out0 @ in_flight b @ enqueued [op]"
      using mail_step_flight [of op b out0] by (simp add: s)
    moreover have "(actor_wf b \<longrightarrow> actor_wf c) \<and> ar_capacity c = ar_capacity b"
      using s by (cases op)
        (auto simp: actor_wf_def enqueue_pending_mut_def deliver_def consume_mut_def
          split: list.splits)
    moreover have "out' @ in_flight b' = out1 @ in_flight c @ enqueued ops
        \<and> (actor_wf c \<longrightarrow> actor_wf b') \<and> ar_capacity b' = ar_capacity c"
      using Cons.prems by (intro Cons.IH) (simp add: s)
    ultimately show ?case by (simp add: enqueued_Cons [of op ops])
  qed
  from gen [OF assms] show ?thesis by (simp add: in_flight_def actor_wf_def actor_empty_def)
qed

theorem mailbox_fifo_witness:
  "\<exists>m1 m2 a out. m1 \<noteq> m2
     \<and> fold mail_step [Enqueue m1, Enqueue m2, Route, Route, Consume] (actor_empty 1, []) = (a, out)
     \<and> out @ in_flight a = [m1, m2]"
proof -
  define m1 where "m1 = \<lparr>mg_id = 1, mg_src = 1, mg_dst = 2, mg_level = Public, mg_body = []\<rparr>"
  define m2 where "m2 = \<lparr>mg_id = 2, mg_src = 1, mg_dst = 2, mg_level = Public, mg_body = []\<rparr>"
  obtain a out where r: "fold mail_step [Enqueue m1, Enqueue m2, Route, Route, Consume]
      (actor_empty 1, []) = (a, out)" by fastforce
  have "m1 \<noteq> m2" by (simp add: m1_def m2_def)
  moreover have "out @ in_flight a = [m1, m2]" using mailbox_fifo [OF r] by simp
  ultimately show ?thesis using r by blast
qed

section \<open>Constructors\<close>

definition message_new :: "msg_id \<Rightarrow> plugin_id \<Rightarrow> plugin_id \<Rightarrow> security_level \<Rightarrow> msg_data \<Rightarrow> message" where
  "message_new i src dst l body = 
     \<lparr>mg_id = i, mg_src = src, mg_dst = dst, mg_level = l, mg_body = body\<rparr>"

definition into_body :: "message \<Rightarrow> msg_data" where
  "into_body m = mg_body m"

definition actor_default :: "actor_runtime" where
  "actor_default = actor_empty 0"

text \<open>The default actor has no room: it can never receive.\<close>

lemma actor_default_deaf: "\<not> mailbox_has_space actor_default"
  by (simp add: actor_default_def actor_empty_def mailbox_has_space_def)

end
