(* ===== verification/LionState.thy ===== *)
theory LionState
  imports LionKernelState LionPlugin LionActor LionWorkflow
begin

text \<open>
  The unified global state of \<open>state/state.rs\<close>: the kernel, four sorted tables and the ghost
  resource history, with the lookups, the checked insertions and the operations that steps are
  made of. \<open>state_table\<close> is the contract every table offers. The pure operations return the new
  state; the \<open>_mut\<close> operations are the in-place variants the mutating execution path uses. A
  mutable reference handed out by \<open>get_*_mut\<close> is a modification function.
\<close>

section \<open>Data\<close>

datatype state_error =
  PluginNotFound plugin_id
| ActorNotFound actor_id
| ResourceNotFound resource_id
| WorkflowNotFound workflow_id
| CapabilityNotFound cap_id
| CapabilityNotHeld plugin_id cap_id
| IsolationViolation plugin_id plugin_id
| DanglingCapability mem_addr
| PluginExists plugin_id
| ActorExists actor_id
| ResourceExists resource_id
| WorkflowExists workflow_id
| CounterOverflow string

record resource_info =
  ri_level :: security_level

record lion_state =
  st_kernel :: kernel_state
  st_plugins :: "(plugin_id, plugin_state) table"
  st_actors :: "(actor_id, actor_runtime) table"
  st_resources :: "(resource_id, resource_info) table"
  st_workflows :: "(workflow_id, workflow_instance) table"
  st_ghost :: meta_state

definition state_empty :: lion_state where
  "state_empty =
     \<lparr>st_kernel = kernel_state_default, st_plugins = [], st_actors = [], st_resources = [],
      st_workflows = [], st_ghost = meta_empty\<rparr>"

section \<open>Lookups\<close>

definition find_plugin_index :: "lion_state \<Rightarrow> plugin_id \<Rightarrow> nat option" where
  "find_plugin_index s pid = tb_find (st_plugins s) pid"

definition find_plugin_insert_pos :: "lion_state \<Rightarrow> plugin_id \<Rightarrow> nat \<times> bool" where
  "find_plugin_insert_pos s pid = tb_insert_pos (st_plugins s) pid"

definition find_actor_index :: "lion_state \<Rightarrow> actor_id \<Rightarrow> nat option" where
  "find_actor_index s aid = tb_find (st_actors s) aid"

definition find_actor_insert_pos :: "lion_state \<Rightarrow> actor_id \<Rightarrow> nat \<times> bool" where
  "find_actor_insert_pos s aid = tb_insert_pos (st_actors s) aid"

definition find_resource_index :: "lion_state \<Rightarrow> resource_id \<Rightarrow> nat option" where
  "find_resource_index s rid = tb_find (st_resources s) rid"

definition find_resource_insert_pos :: "lion_state \<Rightarrow> resource_id \<Rightarrow> nat \<times> bool" where
  "find_resource_insert_pos s rid = tb_insert_pos (st_resources s) rid"

definition find_workflow_index :: "lion_state \<Rightarrow> workflow_id \<Rightarrow> nat option" where
  "find_workflow_index s wid = tb_find (st_workflows s) wid"

definition find_workflow_insert_pos :: "lion_state \<Rightarrow> workflow_id \<Rightarrow> nat \<times> bool" where
  "find_workflow_insert_pos s wid = tb_insert_pos (st_workflows s) wid"

definition get_plugin :: "lion_state \<Rightarrow> plugin_id \<Rightarrow> plugin_state option" where
  "get_plugin s pid = map_option (\<lambda>idx. snd (st_plugins s ! idx)) (find_plugin_index s pid)"

definition get_actor :: "lion_state \<Rightarrow> actor_id \<Rightarrow> actor_runtime option" where
  "get_actor s aid = map_option (\<lambda>idx. snd (st_actors s ! idx)) (find_actor_index s aid)"

definition get_resource :: "lion_state \<Rightarrow> resource_id \<Rightarrow> resource_info option" where
  "get_resource s rid = map_option (\<lambda>idx. snd (st_resources s ! idx)) (find_resource_index s rid)"

definition get_workflow :: "lion_state \<Rightarrow> workflow_id \<Rightarrow> workflow_instance option" where
  "get_workflow s wid = map_option (\<lambda>idx. snd (st_workflows s ! idx)) (find_workflow_index s wid)"

definition plugin_memory :: "lion_state \<Rightarrow> plugin_id \<Rightarrow> linear_memory option" where
  "plugin_memory s pid = map_option (\<lambda>idx. pg_memory (snd (st_plugins s ! idx))) (find_plugin_index s pid)"

definition plugin_level :: "lion_state \<Rightarrow> plugin_id \<Rightarrow> security_level option" where
  "plugin_level s pid = map_option (\<lambda>idx. pg_level (snd (st_plugins s ! idx))) (find_plugin_index s pid)"

definition resource_level :: "lion_state \<Rightarrow> resource_id \<Rightarrow> security_level option" where
  "resource_level s rid = map_option (\<lambda>idx. ri_level (snd (st_resources s ! idx))) (find_resource_index s rid)"

definition get_cap :: "lion_state \<Rightarrow> cap_id \<Rightarrow> capability option" where
  "get_cap s i = rev_get (ks_revocation (st_kernel s)) i"

definition cap_is_valid :: "lion_state \<Rightarrow> cap_id \<Rightarrow> bool" where
  "cap_is_valid s i = rev_is_valid (ks_revocation (st_kernel s)) i"

definition plugin_holds :: "lion_state \<Rightarrow> plugin_id \<Rightarrow> cap_id \<Rightarrow> bool" where
  "plugin_holds s pid i =
     (case find_plugin_index s pid of
        Some idx \<Rightarrow> holds_cap (snd (st_plugins s ! idx)) i
      | None \<Rightarrow> False)"

definition state_time :: "lion_state \<Rightarrow> time" where
  "state_time s = ks_now (st_kernel s)"

definition plugin_count :: "lion_state \<Rightarrow> nat" where
  "plugin_count s = length (st_plugins s)"

definition actor_count :: "lion_state \<Rightarrow> nat" where
  "actor_count s = length (st_actors s)"

definition resource_count :: "lion_state \<Rightarrow> nat" where
  "resource_count s = length (st_resources s)"

definition workflow_count :: "lion_state \<Rightarrow> nat" where
  "workflow_count s = length (st_workflows s)"

definition plugin_ids :: "lion_state \<Rightarrow> plugin_id list" where
  "plugin_ids s = map fst (st_plugins s)"

definition resource_ids :: "lion_state \<Rightarrow> resource_id list" where
  "resource_ids s = map fst (st_resources s)"

section \<open>Mutable references and insertion\<close>

definition modify_plugin :: "lion_state \<Rightarrow> plugin_id \<Rightarrow> (plugin_state \<Rightarrow> plugin_state) \<Rightarrow> lion_state" where
  "modify_plugin s pid f = s\<lparr>st_plugins := tb_modify (st_plugins s) pid f\<rparr>"

definition modify_actor :: "lion_state \<Rightarrow> actor_id \<Rightarrow> (actor_runtime \<Rightarrow> actor_runtime) \<Rightarrow> lion_state" where
  "modify_actor s aid f = s\<lparr>st_actors := tb_modify (st_actors s) aid f\<rparr>"

definition modify_workflow ::
  "lion_state \<Rightarrow> workflow_id \<Rightarrow> (workflow_instance \<Rightarrow> workflow_instance) \<Rightarrow> lion_state" where
  "modify_workflow s wid f = s\<lparr>st_workflows := tb_modify (st_workflows s) wid f\<rparr>"

definition insert_plugin :: "lion_state \<Rightarrow> plugin_id \<Rightarrow> plugin_state \<Rightarrow> state_error + lion_state" where
  "insert_plugin s pid ps =
     (let (pos, exists) = find_plugin_insert_pos s pid
      in if exists then Inl (PluginExists pid)
         else Inr (s\<lparr>st_plugins := vec_insert (st_plugins s) pos (pid, ps)\<rparr>))"

definition insert_actor :: "lion_state \<Rightarrow> actor_id \<Rightarrow> actor_runtime \<Rightarrow> state_error + lion_state" where
  "insert_actor s aid ar =
     (let (pos, exists) = find_actor_insert_pos s aid
      in if exists then Inl (ActorExists aid)
         else Inr (s\<lparr>st_actors := vec_insert (st_actors s) pos (aid, ar)\<rparr>))"

definition insert_resource :: "lion_state \<Rightarrow> resource_id \<Rightarrow> resource_info \<Rightarrow> state_error + lion_state" where
  "insert_resource s rid ri =
     (let (pos, exists) = find_resource_insert_pos s rid
      in if exists then Inl (ResourceExists rid)
         else Inr (s\<lparr>st_resources := vec_insert (st_resources s) pos (rid, ri)\<rparr>))"

definition insert_workflow :: "lion_state \<Rightarrow> workflow_id \<Rightarrow> workflow_instance \<Rightarrow> state_error + lion_state" where
  "insert_workflow s wid wi =
     (let (pos, exists) = find_workflow_insert_pos s wid
      in if exists then Inl (WorkflowExists wid)
         else Inr (s\<lparr>st_workflows := vec_insert (st_workflows s) pos (wid, wi)\<rparr>))"

section \<open>Resource, capability and time operations\<close>

definition apply_alloc :: "lion_state \<Rightarrow> plugin_id \<Rightarrow> mem_size \<Rightarrow> lion_state" where
  "apply_alloc s owner sz =
     (let addr = of_nat (meta_resource_count (st_ghost s))
      in \<lparr>st_kernel = st_kernel s, st_plugins = st_plugins s, st_actors = st_actors s,
          st_resources = st_resources s, st_workflows = st_workflows s,
          st_ghost = meta_alloc (st_ghost s) addr owner\<rparr>)"

definition apply_alloc_mut :: "lion_state \<Rightarrow> plugin_id \<Rightarrow> mem_size \<Rightarrow> mem_addr \<times> lion_state" where
  "apply_alloc_mut s owner sz =
     (let addr = of_nat (meta_resource_count (st_ghost s))
      in (addr, s\<lparr>st_ghost := meta_alloc (st_ghost s) addr owner\<rparr>))"

definition apply_free :: "lion_state \<Rightarrow> mem_addr \<Rightarrow> state_error + lion_state" where
  "apply_free s addr =
     (if any_valid_targeting (ks_revocation (st_kernel s)) (ucast addr)
      then Inl (DanglingCapability addr)
      else Inr \<lparr>st_kernel = st_kernel s, st_plugins = st_plugins s, st_actors = st_actors s,
                st_resources = st_resources s, st_workflows = st_workflows s,
                st_ghost = meta_free (st_ghost s) addr\<rparr>)"

definition apply_free_mut :: "lion_state \<Rightarrow> mem_addr \<Rightarrow> state_error + lion_state" where
  "apply_free_mut s addr =
     (if any_valid_targeting (ks_revocation (st_kernel s)) (ucast addr)
      then Inl (DanglingCapability addr)
      else case meta_free_mut (st_ghost s) addr of
             Inr g \<Rightarrow> Inr (s\<lparr>st_ghost := g\<rparr>)
           | Inl (DoubleFree _) \<Rightarrow> Inl (ResourceNotFound (ucast addr))
           | Inl (NotAllocated _) \<Rightarrow> Inl (ResourceNotFound (ucast addr))
           | Inl (UseAfterFree _) \<Rightarrow> Inl (ResourceNotFound (ucast addr))
           | Inl (OutOfBounds _ _ _) \<Rightarrow> Inl (ResourceNotFound (ucast addr)))"

definition with_revocation :: "lion_state \<Rightarrow> revocation_state \<Rightarrow> lion_state" where
  "with_revocation s r =
     \<lparr>st_kernel = \<lparr>ks_key_state = ks_key_state (st_kernel s), ks_policy = ks_policy (st_kernel s),
                    ks_revocation = r, ks_now = ks_now (st_kernel s),
                    ks_next_cap_id = ks_next_cap_id (st_kernel s)\<rparr>,
      st_plugins = st_plugins s, st_actors = st_actors s, st_resources = st_resources s,
      st_workflows = st_workflows s, st_ghost = st_ghost s\<rparr>"

definition apply_revoke :: "lion_state \<Rightarrow> cap_id \<Rightarrow> lion_state" where
  "apply_revoke s i = with_revocation s (rev_revoke (ks_revocation (st_kernel s)) i)"

definition apply_cap_revoke :: "lion_state \<Rightarrow> cap_id \<Rightarrow> lion_state" where
  "apply_cap_revoke s i = with_revocation s (revoke_transitive (ks_revocation (st_kernel s)) i)"

definition apply_cap_revoke_mut :: "lion_state \<Rightarrow> cap_id \<Rightarrow> kernel_error + lion_state" where
  "apply_cap_revoke_mut s i =
     and_then (revoke_transitive_fast_mut (ks_revocation (st_kernel s)) i)
       (\<lambda>r. Inr (s\<lparr>st_kernel := (st_kernel s)\<lparr>ks_revocation := r\<rparr>\<rparr>))"

definition apply_cap_delegate :: "lion_state \<Rightarrow> capability \<Rightarrow> plugin_id \<Rightarrow> kernel_error + lion_state" where
  "apply_cap_delegate s new_cap target =
     (let i = cp_id new_cap
      in and_then (rev_insert (ks_revocation (st_kernel s)) new_cap) (\<lambda>r.
           let new_plugins =
             (case binary_search (map fst (st_plugins s)) target of
                Inr idx \<Rightarrow> (st_plugins s)[idx := (fst (st_plugins s ! idx),
                                               grant_cap_mut (snd (st_plugins s ! idx)) i)]
              | Inl _ \<Rightarrow> st_plugins s)
           in Inr ((with_revocation s r)\<lparr>st_plugins := new_plugins\<rparr>)))"

definition apply_cap_delegate_mut ::
  "lion_state \<Rightarrow> capability \<Rightarrow> plugin_id \<Rightarrow> kernel_error + lion_state" where
  "apply_cap_delegate_mut s new_cap target =
     (let i = cp_id new_cap
      in and_then (rev_insert_mut (ks_revocation (st_kernel s)) new_cap) (\<lambda>r.
           let s1 = s\<lparr>st_kernel := (st_kernel s)\<lparr>ks_revocation := r\<rparr>\<rparr>
           in Inr (case find_plugin_index s1 target of
                     Some idx \<Rightarrow> modify_plugin s1 target (\<lambda>p. grant_cap_mut p i)
                   | None \<Rightarrow> s1)))"

definition state_tick :: "lion_state \<Rightarrow> state_error + lion_state" where
  "state_tick s =
     (case tick_checked (st_kernel s) of
        Inl _ \<Rightarrow> Inl (CounterOverflow ''time'')
      | Inr k \<Rightarrow> Inr (s\<lparr>st_kernel := k\<rparr>))"

section \<open>State comparisons\<close>

definition preserves_isolation :: "lion_state \<Rightarrow> lion_state \<Rightarrow> plugin_id \<Rightarrow> bool" where
  "preserves_isolation s other active \<longleftrightarrow>
     list_all (\<lambda>(pid, ps).
       if pid = active then True
       else case binary_search (map fst (st_plugins other)) pid of
              Inr idx \<Rightarrow> ps = snd (st_plugins other ! idx)
            | Inl _ \<Rightarrow> False) (st_plugins s)"

definition temporal_safety :: "lion_state \<Rightarrow> lion_state \<Rightarrow> bool" where
  "temporal_safety s other \<longleftrightarrow> list_all (is_freed (st_ghost other)) (ms_freed_set (st_ghost s))"

definition plugins_low_equiv :: "security_level \<Rightarrow> lion_state \<Rightarrow> lion_state \<Rightarrow> bool" where
  "plugins_low_equiv l s1 s2 \<longleftrightarrow>
     list_all (\<lambda>(pid, ps1).
       if pg_level ps1 > l then True
       else case binary_search (map fst (st_plugins s2)) pid of
              Inr idx \<Rightarrow> ps1 = snd (st_plugins s2 ! idx)
            | Inl _ \<Rightarrow> False) (st_plugins s1)"

definition resources_low_equiv :: "security_level \<Rightarrow> lion_state \<Rightarrow> lion_state \<Rightarrow> bool" where
  "resources_low_equiv l s1 s2 \<longleftrightarrow>
     list_all (\<lambda>(rid, ri1).
       if ri_level ri1 > l then True
       else case binary_search (map fst (st_resources s2)) rid of
              Inr idx \<Rightarrow> ri1 = snd (st_resources s2 ! idx)
            | Inl _ \<Rightarrow> False) (st_resources s1)"

definition low_equivalent_left :: "security_level \<Rightarrow> lion_state \<Rightarrow> lion_state \<Rightarrow> bool" where
  "low_equivalent_left l s1 s2 \<longleftrightarrow> plugins_low_equiv l s1 s2 \<and> resources_low_equiv l s1 s2"

definition low_equivalent :: "security_level \<Rightarrow> lion_state \<Rightarrow> lion_state \<Rightarrow> bool" where
  "low_equivalent l s1 s2 \<longleftrightarrow> low_equivalent_left l s1 s2 \<and> low_equivalent_left l s2 s1"

section \<open>Lookups in terms of the tables\<close>

lemma get_tb:
  "get_plugin s pid = tb_get (st_plugins s) pid" "get_actor s aid = tb_get (st_actors s) aid"
  "get_resource s rid = tb_get (st_resources s) rid" "get_workflow s wid = tb_get (st_workflows s) wid"
  by (simp_all add: get_plugin_def get_actor_def get_resource_def get_workflow_def tb_get_def
      find_plugin_index_def find_actor_index_def find_resource_index_def find_workflow_index_def)

lemma plugin_view:
  "plugin_level s pid = map_option pg_level (get_plugin s pid)"
  "plugin_memory s pid = map_option pg_memory (get_plugin s pid)"
  "resource_level s rid = map_option ri_level (get_resource s rid)"
  "plugin_holds s pid i \<longleftrightarrow> (\<exists>p. get_plugin s pid = Some p \<and> holds_cap p i)"
  by (auto simp: plugin_level_def plugin_memory_def resource_level_def plugin_holds_def get_plugin_def
      get_resource_def option.map_comp comp_def split: option.splits)

lemma find_plugin_index_None: "find_plugin_index s pid = None \<longleftrightarrow> get_plugin s pid = None"
  by (simp add: get_plugin_def)

definition tables_wf :: "lion_state \<Rightarrow> bool" where
  "tables_wf s \<longleftrightarrow> sorted_table (st_plugins s) \<and> sorted_table (st_actors s)
     \<and> sorted_table (st_resources s) \<and> sorted_table (st_workflows s)"

lemma modify_get [table_simps]:
  "get_plugin (modify_plugin s pid f) p =
     (if p = pid then map_option f (get_plugin s p) else get_plugin s p)"
  "get_actor (modify_actor s aid g) a =
     (if a = aid then map_option g (get_actor s a) else get_actor s a)"
  "get_workflow (modify_workflow s wid h) w =
     (if w = wid then map_option h (get_workflow s w) else get_workflow s w)"
  by (simp_all add: get_tb modify_plugin_def modify_actor_def modify_workflow_def tb_modify_get)

lemma modify_frame [frame_simps, simp]:
  "st_kernel (modify_plugin s pid f) = st_kernel s" "st_ghost (modify_plugin s pid f) = st_ghost s"
  "st_actors (modify_plugin s pid f) = st_actors s" "st_workflows (modify_plugin s pid f) = st_workflows s"
  "st_resources (modify_plugin s pid f) = st_resources s"
  "st_kernel (modify_actor s aid g) = st_kernel s" "st_ghost (modify_actor s aid g) = st_ghost s"
  "st_plugins (modify_actor s aid g) = st_plugins s" "st_workflows (modify_actor s aid g) = st_workflows s"
  "st_resources (modify_actor s aid g) = st_resources s"
  "st_kernel (modify_workflow s wid h) = st_kernel s" "st_ghost (modify_workflow s wid h) = st_ghost s"
  "st_plugins (modify_workflow s wid h) = st_plugins s" "st_actors (modify_workflow s wid h) = st_actors s"
  "st_resources (modify_workflow s wid h) = st_resources s"
  by (simp_all add: modify_plugin_def modify_actor_def modify_workflow_def)

lemma get_frame [frame_simps, simp]:
  "get_actor (modify_plugin s pid f) = get_actor s" "get_resource (modify_plugin s pid f) = get_resource s"
  "get_workflow (modify_plugin s pid f) = get_workflow s"
  "get_plugin (modify_actor s aid g) = get_plugin s" "get_resource (modify_actor s aid g) = get_resource s"
  "get_workflow (modify_actor s aid g) = get_workflow s"
  "get_plugin (modify_workflow s wid h) = get_plugin s" "get_resource (modify_workflow s wid h) = get_resource s"
  "get_actor (modify_workflow s wid h) = get_actor s"
  by (simp_all add: fun_eq_iff get_tb)

lemma tables_wf_modify [simp]:
  "tables_wf (modify_plugin s pid f) = tables_wf s" "tables_wf (modify_actor s aid g) = tables_wf s"
  "tables_wf (modify_workflow s wid h) = tables_wf s"
  by (simp_all add: tables_wf_def) (simp_all add: modify_plugin_def modify_actor_def modify_workflow_def)

section \<open>The contract of a table\<close>

text \<open>
  An insertion that checks for a collision: it never overwrites, and it changes exactly the new
  key. Registering a list of entries then amounts to \<open>map_of\<close>.
\<close>

locale state_table =
  fixes lookup :: "'s \<Rightarrow> 'k \<Rightarrow> 'v option"
    and insert :: "'s \<Rightarrow> 'k \<Rightarrow> 'v \<Rightarrow> 'e + 's"
    and taken :: "'k \<Rightarrow> 'e"
    and inv :: "'s \<Rightarrow> bool"
  assumes insert_taken: "lookup s k \<noteq> None \<Longrightarrow> insert s k v = Inl (taken k)"
    and insert_fresh: "lookup s k = None \<Longrightarrow> is_ok (insert s k v)"
    and insert_lookup: "inv s \<Longrightarrow> insert s k v = Inr s' \<Longrightarrow>
      lookup s' j = (if j = k then Some v else lookup s j)"
    and insert_inv: "inv s \<Longrightarrow> insert s k v = Inr s' \<Longrightarrow> inv s'"
begin

lemma insert_ok_iff: "is_ok (insert s k v) \<longleftrightarrow> lookup s k = None"
  using insert_taken insert_fresh by force

lemma insert_twice: "inv s \<Longrightarrow> insert s k v = Inr s' \<Longrightarrow> insert s' k w = Inl (taken k)"
  by (simp add: insert_taken insert_lookup)

lemma insert_never_overwrites:
  "inv s \<Longrightarrow> insert s k v = Inr s' \<Longrightarrow> lookup s j = Some w \<Longrightarrow> lookup s' j = Some w"
  using insert_ok_iff [of s k v] by (auto simp: insert_lookup)

lemma insert_all:
  "inv s \<Longrightarrow> run_all (\<lambda>(k, v) s. insert s k v) kvs s = Inr s' \<Longrightarrow>
   inv s' \<and> distinct (map fst kvs) \<and> (\<forall>k \<in> fst ` set kvs. lookup s k = None)
   \<and> lookup s' = lookup s ++ map_of kvs"
proof (induction kvs arbitrary: s)
  case Nil
  then show ?case by simp
next
  case (Cons kv kvs)
  obtain k v where kv: "kv = (k, v)" by (cases kv)
  obtain m where m: "insert s k v = Inr m" "run_all (\<lambda>(k, v) s. insert s k v) kvs m = Inr s'"
    using Cons.prems(2) by (auto simp: kv split: sum.splits)
  have im: "inv m" using Cons.prems(1) m(1) by (rule insert_inv)
  have look: "lookup m = (lookup s)(k \<mapsto> v)"
    using insert_lookup [OF Cons.prems(1) m(1)] by (simp add: fun_eq_iff)
  have free: "lookup s k = None" using m(1) insert_ok_iff [of s k v] by simp
  note IH = Cons.IH [OF im m(2)]
  have d: "k \<notin> fst ` set kvs" using IH look by auto
  have "lookup s' = lookup m ++ map_of kvs" using IH by blast
  also have "\<dots> = (lookup s)(k \<mapsto> v) ++ map_of kvs" unfolding look ..
  also have "\<dots> = lookup s ++ map_of (kv # kvs)"
    using d map_of_eq_None_iff [of kvs k]
    by (intro ext) (auto simp: kv map_add_def split: option.splits)
  finally have "lookup s' = lookup s ++ map_of (kv # kvs)" .
  moreover have "\<forall>j \<in> fst ` set (kv # kvs). lookup s j = None"
    using IH look d free by (auto simp: kv split: if_splits)
  moreover have "inv s'" using IH by blast
  moreover have "distinct (map fst (kv # kvs))" using IH d by (simp add: kv)
  ultimately show ?case by blast
qed

end

lemma insert_eqs:
  "insert_plugin s pid ps = (if get_plugin s pid \<noteq> None then Inl (PluginExists pid)
     else Inr (s\<lparr>st_plugins := vec_insert (st_plugins s) (fst (tb_insert_pos (st_plugins s) pid)) (pid, ps)\<rparr>))"
  "insert_actor s aid ar = (if get_actor s aid \<noteq> None then Inl (ActorExists aid)
     else Inr (s\<lparr>st_actors := vec_insert (st_actors s) (fst (tb_insert_pos (st_actors s) aid)) (aid, ar)\<rparr>))"
  "insert_resource s rid ri = (if get_resource s rid \<noteq> None then Inl (ResourceExists rid)
     else Inr (s\<lparr>st_resources := vec_insert (st_resources s) (fst (tb_insert_pos (st_resources s) rid)) (rid, ri)\<rparr>))"
  "insert_workflow s wid wi = (if get_workflow s wid \<noteq> None then Inl (WorkflowExists wid)
     else Inr (s\<lparr>st_workflows := vec_insert (st_workflows s) (fst (tb_insert_pos (st_workflows s) wid)) (wid, wi)\<rparr>))"
  by (simp_all add: insert_plugin_def insert_actor_def insert_resource_def insert_workflow_def
      find_plugin_insert_pos_def find_actor_insert_pos_def find_resource_insert_pos_def
      find_workflow_insert_pos_def split_beta Let_def tb_insert_pos_exists get_tb)

interpretation plugins: state_table get_plugin insert_plugin PluginExists tables_wf
  by unfold_locales
    (auto simp: insert_eqs tables_wf_def get_tb tb_insert_get tb_insert_sorted split: if_splits)

interpretation actors: state_table get_actor insert_actor ActorExists tables_wf
  by unfold_locales
    (auto simp: insert_eqs tables_wf_def get_tb tb_insert_get tb_insert_sorted split: if_splits)

interpretation resources: state_table get_resource insert_resource ResourceExists tables_wf
  by unfold_locales
    (auto simp: insert_eqs tables_wf_def get_tb tb_insert_get tb_insert_sorted split: if_splits)

interpretation workflows: state_table get_workflow insert_workflow WorkflowExists tables_wf
  by unfold_locales
    (auto simp: insert_eqs tables_wf_def get_tb tb_insert_get tb_insert_sorted split: if_splits)

section \<open>Well-formed states\<close>

definition state_wf :: "lion_state \<Rightarrow> bool" where
  "state_wf s \<longleftrightarrow> tables_wf s \<and> rev_wf (ks_revocation (st_kernel s))
     \<and> key_wf (ks_key_state (st_kernel s)) \<and> meta_wf (st_ghost s) \<and> meta_fresh (st_ghost s)
     \<and> (\<forall>pid p. get_plugin s pid = Some p \<longrightarrow> plugin_wf p)
     \<and> (\<forall>aid a. get_actor s aid = Some a \<longrightarrow> actor_wf a)
     \<and> (\<forall>wid w. get_workflow s wid = Some w \<longrightarrow> wf_inv w)"

text \<open>Every freed address was once allocated; only the in-place free guarantees this.\<close>

definition ghost_tight :: "meta_state \<Rightarrow> bool" where
  "ghost_tight g \<longleftrightarrow> (\<forall>a. is_freed g a \<longrightarrow> tb_get (ms_resources g) a \<noteq> None)"

lemma state_wf_parts:
  assumes "state_wf s"
  shows "tables_wf s" "rev_wf (ks_revocation (st_kernel s))" "meta_wf (st_ghost s)"
    "meta_fresh (st_ghost s)" "get_plugin s pid = Some p \<Longrightarrow> plugin_wf p"
    "get_actor s aid = Some a \<Longrightarrow> actor_wf a" "get_workflow s wid = Some w \<Longrightarrow> wf_inv w"
  using assms unfolding state_wf_def by blast+

lemma meta_fresh_upsert:
  assumes "sorted_table (ms_resources g)" and "meta_fresh g"
  shows "meta_fresh (meta_alloc g (of_nat (meta_resource_count g)) owner)"
proof -
  let ?t = "ms_resources g" and ?a = "of_nat (meta_resource_count g) :: u64"
  have len: "length (tb_upsert ?t ?a v) = (if tb_get ?t ?a = None then Suc (length ?t) else length ?t)" for v
    by (simp add: tb_upsert_eq_insert tb_upsert_eq_modify length_vec_insert)
  have keys: "j \<in> fst ` set (tb_upsert ?t ?a v) \<Longrightarrow> j = ?a \<or> j \<in> fst ` set ?t" for j v
    using assms(1) by (auto simp: tb_upsert_mem split: if_splits)
  have "unat ?a \<le> length ?t" by (simp add: meta_resource_count_def unat_of_nat)
  moreover have "tb_get ?t ?a \<noteq> None \<Longrightarrow> unat ?a < length ?t"
    using assms by (auto simp: meta_fresh_def tb_get_None_iff)
  ultimately have "unat j < length (tb_upsert ?t ?a (Allocated owner))"
    if "j \<in> fst ` set (tb_upsert ?t ?a (Allocated owner))" for j
    using keys [OF that] assms(2) unfolding len meta_fresh_def
    by (metis (mono_tags) le_imp_less_Suc less_Suc_eq)
  then show ?thesis by (simp add: meta_fresh_def meta_alloc_def)
qed

lemma meta_fresh_addr:
  assumes "meta_wf g" and "meta_fresh g" and "meta_resource_count g < 2 ^ 64"
  shows "tb_get (ms_resources g) (of_nat (meta_resource_count g)) = None"
proof -
  have "unat (of_nat (meta_resource_count g) :: u64) = length (ms_resources g)"
    using assms(3) by (simp add: unat_of_nat meta_resource_count_def)
  then show ?thesis using assms(1,2) by (auto simp: meta_wf_def meta_fresh_def tb_get_None_iff)
qed

lemma meta_fresh_free: "meta_fresh g \<Longrightarrow> meta_fresh (meta_free g a)"
  by (simp add: meta_fresh_def meta_free_def)

lemma meta_fresh_free_mut: "meta_fresh g \<Longrightarrow> meta_free_mut g a = Inr g' \<Longrightarrow> meta_fresh g'"
proof -
  assume f: "meta_fresh g" and "meta_free_mut g a = Inr g'"
  then have g': "ms_resources g' = tb_modify (ms_resources g) a (\<lambda>_. Freed)" by (simp add: meta_free_mut_Inr)
  have "fst ` set (ms_resources g') = fst ` set (ms_resources g)"
    using tb_modify_keys [of "ms_resources g" a] g' by (metis list.set_map)
  then show ?thesis using f g' by (simp add: meta_fresh_def)
qed

section \<open>The state operations\<close>

lemma with_revocation_sel [simp]:
  "st_kernel (with_revocation s r) = (st_kernel s)\<lparr>ks_revocation := r\<rparr>"
  "st_plugins (with_revocation s r) = st_plugins s" "st_actors (with_revocation s r) = st_actors s"
  "st_resources (with_revocation s r) = st_resources s" "st_workflows (with_revocation s r) = st_workflows s"
  "st_ghost (with_revocation s r) = st_ghost s"
  by (simp_all add: with_revocation_def)

lemma with_revocation_eq: "with_revocation s r = s\<lparr>st_kernel := (st_kernel s)\<lparr>ks_revocation := r\<rparr>\<rparr>"
  by (simp add: with_revocation_def)

lemma get_update [simp]:
  "get_plugin (s\<lparr>st_kernel := k\<rparr>) = get_plugin s" "get_actor (s\<lparr>st_kernel := k\<rparr>) = get_actor s"
  "get_resource (s\<lparr>st_kernel := k\<rparr>) = get_resource s" "get_workflow (s\<lparr>st_kernel := k\<rparr>) = get_workflow s"
  "get_plugin (s\<lparr>st_ghost := g\<rparr>) = get_plugin s" "get_actor (s\<lparr>st_ghost := g\<rparr>) = get_actor s"
  "get_resource (s\<lparr>st_ghost := g\<rparr>) = get_resource s" "get_workflow (s\<lparr>st_ghost := g\<rparr>) = get_workflow s"
  "tables_wf (s\<lparr>st_kernel := k\<rparr>) = tables_wf s" "tables_wf (s\<lparr>st_ghost := g\<rparr>) = tables_wf s"
  by (simp_all add: fun_eq_iff get_tb tables_wf_def)

lemma state_wf_kernel:
  "state_wf s \<Longrightarrow> rev_wf (ks_revocation k) \<Longrightarrow> key_wf (ks_key_state k) \<Longrightarrow> state_wf (s\<lparr>st_kernel := k\<rparr>)"
  by (simp add: state_wf_def)

lemma state_wf_revocation:
  "state_wf s \<Longrightarrow> rev_wf r \<Longrightarrow> state_wf (s\<lparr>st_kernel := (st_kernel s)\<lparr>ks_revocation := r\<rparr>\<rparr>)"
  by (simp add: state_wf_def)

lemma state_wf_ghost:
  "state_wf s \<Longrightarrow> meta_wf g \<Longrightarrow> meta_fresh g \<Longrightarrow> state_wf (s\<lparr>st_ghost := g\<rparr>)"
  by (simp add: state_wf_def)

lemma state_wf_modify_plugin:
  "state_wf s \<Longrightarrow> (\<And>p. get_plugin s pid = Some p \<Longrightarrow> plugin_wf (f p)) \<Longrightarrow> state_wf (modify_plugin s pid f)"
  by (auto simp: state_wf_def table_simps)

lemma state_wf_modify_actor:
  "state_wf s \<Longrightarrow> (\<And>a. get_actor s aid = Some a \<Longrightarrow> actor_wf (f a)) \<Longrightarrow> state_wf (modify_actor s aid f)"
  by (auto simp: state_wf_def table_simps)

lemma state_wf_modify_workflow:
  "state_wf s \<Longrightarrow> (\<And>w. get_workflow s wid = Some w \<Longrightarrow> wf_inv (f w)) \<Longrightarrow> state_wf (modify_workflow s wid f)"
  by (auto simp: state_wf_def table_simps)

lemma state_wf_empty [simp]: "state_wf state_empty"
  by (simp add: state_wf_def state_empty_def tables_wf_def kernel_state_default_def meta_fresh_def
      get_tb meta_empty_def meta_wf_def)

lemma apply_alloc_eq:
  "apply_alloc s owner sz = s\<lparr>st_ghost := meta_alloc (st_ghost s) (of_nat (meta_resource_count (st_ghost s))) owner\<rparr>"
  by (simp add: apply_alloc_def Let_def)

lemma apply_alloc_mut_eq:
  "apply_alloc_mut s owner sz = (of_nat (meta_resource_count (st_ghost s)), apply_alloc s owner sz)"
  by (simp add: apply_alloc_mut_def apply_alloc_eq Let_def)

lemma state_wf_alloc: "state_wf s \<Longrightarrow> state_wf (apply_alloc s owner sz)"
  unfolding apply_alloc_eq
  by (intro state_wf_ghost meta_wf_alloc meta_fresh_upsert)
    (simp_all add: state_wf_def meta_wf_def)

lemma apply_free_Inr:
  "apply_free s a = Inr s' \<longleftrightarrow> \<not> any_valid_targeting (ks_revocation (st_kernel s)) (ucast a) \<and>
     s' = s\<lparr>st_ghost := meta_free (st_ghost s) a\<rparr>"
  by (auto simp: apply_free_def)

lemma apply_free_mut_Inr:
  "apply_free_mut s a = Inr s' \<longleftrightarrow> \<not> any_valid_targeting (ks_revocation (st_kernel s)) (ucast a) \<and>
     (\<exists>g. meta_free_mut (st_ghost s) a = Inr g \<and> s' = s\<lparr>st_ghost := g\<rparr>)"
  by (auto simp: apply_free_mut_def split: sum.splits memory_error.splits)

lemma state_wf_free: "state_wf s \<Longrightarrow> apply_free s a = Inr s' \<Longrightarrow> state_wf s'"
  using state_wf_parts [of s]
  by (auto simp: apply_free_Inr meta_fresh_free intro!: state_wf_ghost meta_wf_free)

lemma state_wf_free_mut: "state_wf s \<Longrightarrow> apply_free_mut s a = Inr s' \<Longrightarrow> state_wf s'"
  using state_wf_parts [of s] meta_wf_free_mut meta_fresh_free_mut
  by (auto simp: apply_free_mut_Inr intro!: state_wf_ghost)

lemma apply_cap_revoke_wf: "state_wf s \<Longrightarrow> state_wf (apply_cap_revoke s i)"
  using state_wf_parts(2) [of s]
  by (simp add: apply_cap_revoke_def with_revocation_eq state_wf_revocation revoke_transitive_marked marked_wf)

lemma apply_cap_revoke_mut_eq:
  assumes "state_wf s"
  shows "apply_cap_revoke_mut s i =
    (if get_cap s i = None then Inl (CapNotFound i)
     else Inr (with_revocation s (revoke_transitive_fast (ks_revocation (st_kernel s)) i)))"
  using state_wf_parts(2) [OF assms]
  by (simp add: apply_cap_revoke_mut_def revoke_transitive_fast_mut_marked revoke_transitive_fast_marked
      get_cap_def with_revocation_eq)

lemma apply_cap_revoke_mut_wf: "state_wf s \<Longrightarrow> apply_cap_revoke_mut s i = Inr s' \<Longrightarrow> state_wf s'"
  using state_wf_parts(2) [of s] fast.revoke_inv
  by (auto simp: apply_cap_revoke_mut_eq with_revocation_eq intro!: state_wf_revocation split: if_splits)

definition delegate_to :: "lion_state \<Rightarrow> capability \<Rightarrow> plugin_id \<Rightarrow> lion_state" where
  "delegate_to s cap target =
     modify_plugin (with_revocation s (inserted (ks_revocation (st_kernel s)) cap)) target
       (\<lambda>p. grant_cap_mut p (cp_id cap))"

lemma modify_plugin_absent: "get_plugin s pid = None \<Longrightarrow> modify_plugin s pid f = s"
  by (simp add: modify_plugin_def tb_modify_def get_plugin_def find_plugin_index_def)

lemma apply_cap_delegate_eq:
  "apply_cap_delegate s cap target =
     (if get_cap s (cp_id cap) = None then Inr (delegate_to s cap target) else Inl (CapIdCollision (cp_id cap)))"
  by (auto simp: apply_cap_delegate_def rev_insert_eq delegate_to_def modify_plugin_def tb_modify_def
      tb_find_def get_cap_def Let_def split: sum.splits)

lemma apply_cap_delegate_mut_eq: "apply_cap_delegate_mut s cap target = apply_cap_delegate s cap target"
  by (auto simp: apply_cap_delegate_mut_def apply_cap_delegate_eq rev_insert_mut_eq rev_insert_eq
      get_cap_def delegate_to_def with_revocation_eq Let_def find_plugin_index_None modify_plugin_absent
      split: option.splits)

lemma delegate_to_wf:
  "state_wf s \<Longrightarrow> get_cap s (cp_id cap) = None \<Longrightarrow> state_wf (delegate_to s cap target)"
  using state_wf_parts [of s] inserted_wf [of "ks_revocation (st_kernel s)" cap]
  by (auto simp: delegate_to_def with_revocation_eq get_cap_def
      intro!: state_wf_modify_plugin state_wf_revocation)

lemma state_tick_Inr:
  "state_tick s = Inr s' \<longleftrightarrow> state_time s \<noteq> - 1 \<and>
     s' = s\<lparr>st_kernel := (st_kernel s)\<lparr>ks_now := ks_now (st_kernel s) + 1\<rparr>\<rparr>"
  by (auto simp: state_tick_def tick_checked_def checked_add_one state_time_def split: sum.splits if_splits)

lemma state_tick_wf: "state_wf s \<Longrightarrow> state_tick s = Inr s' \<Longrightarrow> state_wf s'"
  by (auto simp: state_tick_Inr state_wf_def)

section \<open>Comparisons, semantically\<close>

lemma search_eq:
  "(case binary_search (map fst t) k of Inr i \<Rightarrow> v = snd (t ! i) | Inl _ \<Rightarrow> False) \<longleftrightarrow> tb_get t k = Some v"
  by (auto simp: tb_get_def tb_find_def split: sum.splits)

lemma list_all_table:
  "sorted_table t \<Longrightarrow> list_all P t \<longleftrightarrow> (\<forall>k v. tb_get t k = Some v \<longrightarrow> P (k, v))"
  by (auto simp: list_all_iff tb_get_iff)

lemma preserves_isolation_iff:
  "tables_wf s \<Longrightarrow> preserves_isolation s t a \<longleftrightarrow>
     (\<forall>pid p. pid \<noteq> a \<and> get_plugin s pid = Some p \<longrightarrow> get_plugin t pid = Some p)"
  by (auto simp: preserves_isolation_def list_all_table tables_wf_def search_eq get_tb)

lemma temporal_safety_iff:
  "meta_wf (st_ghost s) \<Longrightarrow> temporal_safety s t \<longleftrightarrow> (\<forall>a. is_freed (st_ghost s) a \<longrightarrow> is_freed (st_ghost t) a)"
  by (auto simp: temporal_safety_def list_all_iff is_freed_iff)

lemma low_equivalent_left_iff:
  assumes "tables_wf s"
  shows "low_equivalent_left l s t \<longleftrightarrow>
     (\<forall>pid p. get_plugin s pid = Some p \<and> pg_level p \<le> l \<longrightarrow> get_plugin t pid = Some p) \<and>
     (\<forall>rid r. get_resource s rid = Some r \<and> ri_level r \<le> l \<longrightarrow> get_resource t rid = Some r)"
proof -
  have "plugins_low_equiv l s t \<longleftrightarrow>
      (\<forall>pid p. get_plugin s pid = Some p \<and> pg_level p \<le> l \<longrightarrow> get_plugin t pid = Some p)"
    using assms by (auto simp: plugins_low_equiv_def list_all_table tables_wf_def search_eq get_tb not_less)
  moreover have "resources_low_equiv l s t \<longleftrightarrow>
      (\<forall>rid r. get_resource s rid = Some r \<and> ri_level r \<le> l \<longrightarrow> get_resource t rid = Some r)"
    using assms by (auto simp: resources_low_equiv_def list_all_table tables_wf_def search_eq get_tb not_less)
  ultimately show ?thesis by (simp add: low_equivalent_left_def)
qed

lemma low_left_trans:
  "tables_wf s \<Longrightarrow> tables_wf t \<Longrightarrow> low_equivalent_left l s t \<Longrightarrow> low_equivalent_left l t u \<Longrightarrow>
   low_equivalent_left l s u"
  unfolding low_equivalent_left_iff by blast

lemma low_left_mono:
  "tables_wf s \<Longrightarrow> low_equivalent_left l s t \<Longrightarrow> k \<le> l \<Longrightarrow> low_equivalent_left k s t"
  by (auto simp: low_equivalent_left_iff)

section \<open>Properties\<close>

text \<open>Registration. A sequence of checked insertions into the plugin table succeeds only for fresh,
  pairwise distinct identifiers, and then the table maps each to what was registered, keeps every
  earlier entry, and a second registration of any of them is refused. The other tables satisfy the
  same contract.\<close>

theorem registration_contract:
  assumes "tables_wf s" and "run_all (\<lambda>(pid, p) s. insert_plugin s pid p) kvs s = Inr s'"
  shows "tables_wf s' \<and> distinct (map fst kvs) \<and> get_plugin s' = get_plugin s ++ map_of kvs
    \<and> (\<forall>pid \<in> fst ` set kvs. get_plugin s pid = None \<and> (\<forall>p. insert_plugin s' pid p = Inl (PluginExists pid)))"
proof -
  note a = plugins.insert_all [OF assms]
  have some: "get_plugin s' pid \<noteq> None" if "pid \<in> fst ` set kvs" for pid
  proof -
    have "map_of kvs pid \<noteq> None" using that by (simp add: map_of_eq_None_iff)
    moreover have "get_plugin s' = get_plugin s ++ map_of kvs" using a by blast
    ultimately show ?thesis by auto
  qed
  have taken: "insert_plugin s' pid p = Inl (PluginExists pid)" if "pid \<in> fst ` set kvs" for pid p
    by (rule plugins.insert_taken) (rule some [OF that])
  show ?thesis
    using a by (elim conjE, intro conjI ballI allI) (assumption | erule (1) bspec | rule taken)+
qed

lemma registration_contract_witness:
  "\<exists>s. run_all (\<lambda>(pid, p) s. insert_plugin s pid p) [(7, plugin_empty Public 0)] state_empty = Inr s
     \<and> insert_plugin s 7 (plugin_empty Secret 0) = Inl (PluginExists 7)"
proof -
  have e: "get_plugin state_empty 7 = None" by (simp add: get_tb state_empty_def)
  then obtain s where s: "run_all (\<lambda>(pid, p) s. insert_plugin s pid p) [(7, plugin_empty Public 0)] state_empty = Inr s"
    by (simp add: insert_eqs)
  have "tables_wf state_empty" by (simp add: tables_wf_def state_empty_def)
  from registration_contract [OF this s] s show ?thesis by auto
qed

text \<open>C30: allocation hands out the next number as an address: while fewer than \<open>2^64\<close> resources exist it
  was never allocated before, it is recorded for its owner, every other address keeps its status, and
  the address is live unless it had already been marked freed. On histories built with the in-place
  free no such address is freed, so the new resource is live.\<close>

theorem allocation_fresh:
  assumes "state_wf s" and "meta_resource_count (st_ghost s) < 2 ^ 64"
    and "apply_alloc_mut s owner sz = (addr, s')"
  shows "unat addr = meta_resource_count (st_ghost s)
    \<and> meta_status (st_ghost s) addr = None
    \<and> meta_status (st_ghost s') = (meta_status (st_ghost s))(addr \<mapsto> Allocated owner)
    \<and> (is_live (st_ghost s') addr \<longleftrightarrow> \<not> is_freed (st_ghost s) addr)
    \<and> (\<forall>b. b \<noteq> addr \<longrightarrow> is_live (st_ghost s') b = is_live (st_ghost s) b)
    \<and> (ghost_tight (st_ghost s) \<longrightarrow> is_live (st_ghost s') addr \<and> ghost_tight (st_ghost s'))
    \<and> state_wf s' \<and> s' = apply_alloc s owner sz"
proof -
  let ?g = "st_ghost s"
  have addr: "addr = of_nat (meta_resource_count ?g)" and s': "s' = apply_alloc s owner sz"
    using assms(3) by (simp_all add: apply_alloc_mut_eq)
  note wf = state_wf_parts(3,4) [OF assms(1)]
  have none: "tb_get (ms_resources ?g) addr = None"
    using meta_fresh_addr [OF wf assms(2)] by (simp add: addr)
  have g': "st_ghost s' = meta_alloc ?g addr owner" by (simp add: s' apply_alloc_eq addr)
  have srt: "sorted_table (ms_resources ?g)" using wf(1) by (simp add: meta_wf_def)
  have get: "tb_get (ms_resources (st_ghost s')) b = (if b = addr then Some (Allocated owner) else tb_get (ms_resources ?g) b)" for b
    by (simp add: g' meta_alloc_def tb_upsert_get [OF srt])
  have fr: "is_freed (st_ghost s') = is_freed ?g" by (simp add: g' fun_eq_iff)
  have "unat addr = meta_resource_count ?g" using assms(2) by (simp add: addr unat_of_nat)
  moreover have "meta_status (st_ghost s') = (meta_status ?g)(addr \<mapsto> Allocated owner)"
    by (simp add: fun_eq_iff meta_status_def get)
  moreover have "is_live (st_ghost s') addr \<longleftrightarrow> \<not> is_freed ?g addr" by (simp add: is_live_def get fr)
  moreover have "is_live (st_ghost s') b = is_live ?g b" if "b \<noteq> addr" for b
    using that by (simp add: is_live_def get fr split: option.split resource_status.split)
  moreover have "ghost_tight ?g \<Longrightarrow> \<not> is_freed ?g addr \<and> ghost_tight (st_ghost s')"
    using none by (auto simp: ghost_tight_def get fr)
  ultimately show ?thesis
    using none state_wf_alloc [OF assms(1)] s' by (auto simp: meta_status_def)
qed

lemma allocation_fresh_witness:
  "is_live (st_ghost (snd (apply_alloc_mut state_empty 5 64))) 0"
proof -
  have c: "meta_resource_count (st_ghost state_empty) = 0"
    by (simp add: state_empty_def meta_resource_count_def meta_empty_def)
  have t: "ghost_tight (st_ghost state_empty)"
    by (simp add: ghost_tight_def state_empty_def meta_empty_def is_freed_def)
  obtain a s' where a: "apply_alloc_mut state_empty 5 64 = (a, s')" by fastforce
  have "a = 0" using a c by (simp add: apply_alloc_mut_eq)
  have pre: "meta_resource_count (st_ghost state_empty) < 2 ^ 64" using c by simp
  have "is_live (st_ghost s') a" using allocation_fresh [OF state_wf_empty pre a] t by blast
  then show ?thesis using a \<open>a = 0\<close> by simp
qed

text \<open>The answers of both frees.\<close>

lemma free_answers:
  "any_valid_targeting (ks_revocation (st_kernel s)) (ucast a) \<Longrightarrow>
     apply_free s a = Inl (DanglingCapability a) \<and> apply_free_mut s a = Inl (DanglingCapability a)"
  "\<not> any_valid_targeting (ks_revocation (st_kernel s)) (ucast a) \<Longrightarrow> is_ok (apply_free s a)
     \<and> (is_live (st_ghost s) a \<longrightarrow> is_ok (apply_free_mut s a))
     \<and> (\<not> is_live (st_ghost s) a \<longrightarrow> apply_free_mut s a = Inl (ResourceNotFound (ucast a)))"
  by (auto simp: apply_free_def apply_free_mut_def is_ok_iff meta_free_mut_def is_live_def
      split: sum.splits memory_error.splits option.splits resource_status.splits if_splits)

text \<open>What the in-place free accepts, the pure one accepts, with the same live and freed addresses.\<close>

lemma free_mut_pure:
  assumes w: "state_wf s" and m: "apply_free_mut s a = Inr s'"
  shows "is_live (st_ghost s) a \<and>
    (\<exists>t. apply_free s a = Inr t \<and> is_freed (st_ghost t) = is_freed (st_ghost s')
       \<and> is_live (st_ghost t) = is_live (st_ghost s') \<and> t\<lparr>st_ghost := st_ghost s'\<rparr> = s')"
proof -
  let ?g = "st_ghost s"
  note g = state_wf_parts(3) [OF w]
  have fr: "is_freed (meta_free ?g a) b \<longleftrightarrow> b = a \<or> is_freed ?g b" for b
    by (rule is_freed_free [OF g])
  obtain g' where g': "meta_free_mut ?g a = Inr g'" "s' = s\<lparr>st_ghost := g'\<rparr>"
    and nt: "\<not> any_valid_targeting (ks_revocation (st_kernel s)) (ucast a)"
    using m by (auto simp: apply_free_mut_Inr)
  have r: "ms_resources g' = tb_modify (ms_resources ?g) a (\<lambda>_. Freed)" "is_live ?g a"
    using g'(1) by (simp_all add: meta_free_mut_Inr)
  have f: "is_freed g' b \<longleftrightarrow> b = a \<or> is_freed ?g b" for b by (rule is_freed_free_mut [OF g g'(1)])
  have mr: "ms_resources (meta_free ?g a) = ms_resources ?g" by (simp add: meta_free_def)
  have "is_live (meta_free ?g a) b = is_live g' b" for b
    by (cases "b = a") (simp_all add: is_live_def fr f r mr tb_modify_get
        split: option.splits resource_status.splits)
  then show ?thesis using nt fr f r g'(2) by (simp add: apply_free_Inr fun_eq_iff)
qed

text \<open>C31: freeing never strands a capability: both variants refuse an address some valid capability
  targets, with the same error. This is all the pure variant refuses; the in-place variant refuses in
  addition exactly what is not live. Where the in-place one succeeds, both leave the same addresses
  live and freed. An address never allocated is thus accepted by the pure variant, and the allocation
  that reaches it then returns it dead.\<close>

theorem free_variants:
  assumes "state_wf s"
  shows "(\<forall>s'. apply_free s a = Inr s' \<or> apply_free_mut s a = Inr s' \<longrightarrow>
        \<not> any_valid_targeting (ks_revocation (st_kernel s)) (ucast a) \<and> st_kernel s' = st_kernel s
        \<and> state_wf s' \<and> temporal_safety s s' \<and> is_freed (st_ghost s') a)
    \<and> (\<forall>s'. apply_free_mut s a = Inr s' \<longrightarrow> is_live (st_ghost s) a \<and>
        (\<exists>t. apply_free s a = Inr t \<and> is_freed (st_ghost t) = is_freed (st_ghost s')
           \<and> is_live (st_ghost t) = is_live (st_ghost s') \<and> t\<lparr>st_ghost := st_ghost s'\<rparr> = s'))
    \<and> (any_valid_targeting (ks_revocation (st_kernel s)) (ucast a) \<longrightarrow>
        apply_free s a = Inl (DanglingCapability a) \<and> apply_free_mut s a = Inl (DanglingCapability a))
    \<and> (\<not> any_valid_targeting (ks_revocation (st_kernel s)) (ucast a) \<longrightarrow> is_ok (apply_free s a)
        \<and> (is_live (st_ghost s) a \<longrightarrow> is_ok (apply_free_mut s a))
        \<and> (\<not> is_live (st_ghost s) a \<longrightarrow> apply_free_mut s a = Inl (ResourceNotFound (ucast a))))
    \<and> (\<forall>t. apply_free s a = Inr t \<and> unat a = meta_resource_count (st_ghost s) \<longrightarrow>
        fst (apply_alloc_mut t owner sz) = a \<and> \<not> is_live (st_ghost (snd (apply_alloc_mut t owner sz))) a)"
proof -
  let ?g = "st_ghost s"
  note g = state_wf_parts(3) [OF assms]
  have fr: "is_freed (meta_free ?g a) b \<longleftrightarrow> b = a \<or> is_freed ?g b" for b
    by (rule is_freed_free [OF g])
  have one: "\<not> any_valid_targeting (ks_revocation (st_kernel s)) (ucast a) \<and> st_kernel s' = st_kernel s
        \<and> state_wf s' \<and> temporal_safety s s' \<and> is_freed (st_ghost s') a"
    if "apply_free s a = Inr s' \<or> apply_free_mut s a = Inr s'" for s'
    using that fr is_freed_free_mut [OF g, of a] state_wf_free [OF assms, of a s'] state_wf_free_mut [OF assms, of a s']
    by (auto simp: apply_free_Inr apply_free_mut_Inr temporal_safety_iff [OF g])
  note two = free_mut_pure [OF assms]
  note three = free_answers [of s a]
  have four: "fst (apply_alloc_mut t owner sz) = a \<and> \<not> is_live (st_ghost (snd (apply_alloc_mut t owner sz))) a"
    if "apply_free s a = Inr t" "unat a = meta_resource_count ?g" for t
  proof -
    have t: "st_ghost t = meta_free ?g a" using that(1) by (auto simp: apply_free_Inr)
    have "meta_resource_count (st_ghost t) = unat a"
      using that(2) by (simp add: t meta_resource_count_def meta_free_def)
    then have "fst (apply_alloc_mut t owner sz) = a" by (simp add: apply_alloc_mut_eq)
    moreover have "is_freed (st_ghost (snd (apply_alloc_mut t owner sz))) a"
      using fr by (simp add: apply_alloc_mut_eq apply_alloc_eq t)
    ultimately show ?thesis by (simp add: is_live_def split: option.split resource_status.split)
  qed
  show ?thesis
    by (rule conjI [OF allI [OF impI [OF one]] conjI [OF allI [OF impI [OF two]]
      conjI [OF impI [OF three(1)] conjI [OF impI [OF three(2)] allI [OF impI]]]]]; (elim conjE)?; (assumption | rule four))
qed

lemma free_variants_witness:
  "is_ok (apply_free state_empty 0) \<and> \<not> is_ok (apply_free_mut state_empty 0)"
proof -
  have "apply_free state_empty 0 = Inr (state_empty\<lparr>st_ghost := meta_free meta_empty 0\<rparr>)"
    by (simp add: apply_free_Inr state_empty_def kernel_state_default_def any_valid_targeting_def rev_empty_def)
  moreover have "\<not> is_live (st_ghost state_empty) 0" by (simp add: is_live_def state_empty_def meta_empty_def)
  moreover have "\<not> any_valid_targeting (ks_revocation (st_kernel state_empty)) (ucast (0 :: mem_addr))"
    by (simp add: any_valid_targeting_def state_empty_def kernel_state_default_def rev_empty_def)
  ultimately show ?thesis
    using free_variants [OF state_wf_empty, of 0, THEN conjunct2, THEN conjunct2, THEN conjunct2, THEN conjunct1]
    by simp
qed

text \<open>Delegation on the state: the in-place variant computes the pure one; it fails only on a used
  identifier; otherwise exactly the new capability is added, exactly the target plugin, if it exists,
  gains it, and everything else is as before.\<close>

theorem delegation_effect:
  assumes "state_wf s"
  shows "apply_cap_delegate_mut s cap target = apply_cap_delegate s cap target \<and>
    (case apply_cap_delegate s cap target of
       Inl e \<Rightarrow> e = CapIdCollision (cp_id cap) \<and> get_cap s (cp_id cap) \<noteq> None
     | Inr s' \<Rightarrow> state_wf s' \<and> get_cap s' = (get_cap s)(cp_id cap \<mapsto> cap) \<and> st_ghost s' = st_ghost s
         \<and> preserves_isolation s s' target
         \<and> (\<forall>pid i. plugin_holds s' pid i \<longleftrightarrow> plugin_holds s pid i
               \<or> pid = target \<and> i = cp_id cap \<and> get_plugin s target \<noteq> None))"
proof (cases "get_cap s (cp_id cap)")
  case (Some c)
  then show ?thesis by (simp add: apply_cap_delegate_mut_eq apply_cap_delegate_eq)
next
  case None
  let ?s = "delegate_to s cap target"
  have plug: "get_plugin ?s pid = (if pid = target then map_option (\<lambda>p. grant_cap_mut p (cp_id cap)) (get_plugin s pid)
      else get_plugin s pid)" for pid
    by (simp add: delegate_to_def table_simps with_revocation_eq)
  have "get_cap ?s = (get_cap s)(cp_id cap \<mapsto> cap)"
    using None state_wf_parts(2) [OF assms]
    by (simp add: fun_eq_iff get_cap_def delegate_to_def inserted_get rev_wf_caps)
  moreover have "plugin_holds ?s pid i \<longleftrightarrow> plugin_holds s pid i
               \<or> pid = target \<and> i = cp_id cap \<and> get_plugin s target \<noteq> None" for pid i
    using state_wf_parts(5) [OF assms] by (auto simp: plugin_view plug holds_cap_grant)
  moreover have "preserves_isolation s ?s target"
    using state_wf_parts(1) [OF assms] by (simp add: preserves_isolation_iff plug)
  moreover have "st_ghost ?s = st_ghost s" by (simp add: delegate_to_def)
  ultimately show ?thesis
    using None delegate_to_wf [OF assms None]
    by (simp add: apply_cap_delegate_mut_eq apply_cap_delegate_eq)
qed

lemma delegation_effect_witness:
  "\<exists>s'. apply_cap_delegate state_empty (demo_cap 4 None) 9 = Inr s' \<and> get_cap s' 4 = Some (demo_cap 4 None)"
proof -
  have n: "get_cap state_empty 4 = None" by (simp add: get_cap_def state_empty_def kernel_state_default_def)
  from delegation_effect [OF state_wf_empty, of "demo_cap 4 None" 9] n show ?thesis
    by (cases "apply_cap_delegate state_empty (demo_cap 4 None) 9") simp_all
qed

text \<open>Low equivalence is an equivalence relation on states, and agreement at a level implies agreement
  at every lower one; the isolation and temporal checks decide what their names say.\<close>

theorem state_comparisons:
  assumes "tables_wf s" and "tables_wf t" and "tables_wf u" and "meta_wf (st_ghost s)"
  shows "low_equivalent l s s \<and> (low_equivalent l s t \<longrightarrow> low_equivalent l t s)
    \<and> (low_equivalent l s t \<and> low_equivalent l t u \<longrightarrow> low_equivalent l s u)
    \<and> (low_equivalent l s t \<and> k \<le> l \<longrightarrow> low_equivalent k s t)
    \<and> (preserves_isolation s t a \<longleftrightarrow>
        (\<forall>pid p. pid \<noteq> a \<and> get_plugin s pid = Some p \<longrightarrow> get_plugin t pid = Some p))
    \<and> (temporal_safety s t \<longleftrightarrow> (\<forall>b. is_freed (st_ghost s) b \<longrightarrow> is_freed (st_ghost t) b))"
proof -
  note left = low_equivalent_left_iff
  have "low_equivalent l s s" by (simp add: low_equivalent_def left [OF assms(1)])
  moreover have "low_equivalent l s t \<longrightarrow> low_equivalent l t s" by (simp add: low_equivalent_def)
  moreover have "low_equivalent l s t \<and> low_equivalent l t u \<longrightarrow> low_equivalent l s u"
    using low_left_trans [of s t l u] low_left_trans [of u t l s] assms
    unfolding low_equivalent_def by blast
  moreover have "low_equivalent l s t \<and> k \<le> l \<longrightarrow> low_equivalent k s t"
    using low_left_mono [of s l t k] low_left_mono [of t l s k] assms
    unfolding low_equivalent_def by blast
  ultimately show ?thesis
    unfolding preserves_isolation_iff [OF assms(1)] temporal_safety_iff [OF assms(4)] by blast
qed

lemma state_comparisons_witness: "low_equivalent Secret state_empty state_empty"
proof -
  have "tables_wf state_empty" "meta_wf (st_ghost state_empty)"
    by (simp_all add: tables_wf_def state_empty_def)
  then show ?thesis using state_comparisons [of state_empty state_empty state_empty Secret] by blast
qed

section \<open>Constructors, defaults and mutable access\<close>

definition resource_info_new :: "security_level \<Rightarrow> resource_info" where
  "resource_info_new l = \<lparr>ri_level = l\<rparr>"

definition state_default :: "lion_state" where
  "state_default = state_empty"

definition kernel_mut :: "(kernel_state \<Rightarrow> kernel_state) \<Rightarrow> lion_state \<Rightarrow> lion_state" where
  "kernel_mut f s = s\<lparr>st_kernel := f (st_kernel s)\<rparr>"

lemma with_revocation_mut: "with_revocation s r = kernel_mut (revocation_mut (\<lambda>_. r)) s"
  by (simp add: with_revocation_def kernel_mut_def revocation_mut_def)

end
