(* ===== verification/LionAuth.thy ===== *)
theory LionAuth
  imports LionState
begin

text \<open>
  Authorization (\<open>step/authorization.rs\<close>): the witness a host call carries and the checks that
  produce it. \<open>validate_atomic\<close> runs six checks in order, the first failure is the error. A cast
  \<open>as MemAddr\<close> of a 128-bit target keeps its low 64 bits.
\<close>

datatype authorization_error =
  AuCapabilityNotFound cap_id
| AuCapabilityRevoked cap_id
| HolderMismatch plugin_id plugin_id
| TargetMismatch resource_id resource_id
| InsufficientRights
| PolicyDenied
| ResourceNotLive mem_addr
| BibaViolation security_level security_level
| AuCapabilityNotHeld cap_id

definition resource_integrity :: "lion_state \<Rightarrow> mem_addr \<Rightarrow> security_level" where
  "resource_integrity s rid =
     (case meta_status (st_ghost s) rid of
        Some status \<Rightarrow>
          (case rs_owner status of
             Some owner \<Rightarrow> (case plugin_level s owner of Some l \<Rightarrow> l | None \<Rightarrow> Public)
           | None \<Rightarrow> Public)
      | None \<Rightarrow> Public)"

definition biba_write_ok :: "lion_state \<Rightarrow> action \<Rightarrow> bool" where
  "biba_write_ok s a =
     (if \<not> rights_contains (ac_rights a) Write then True
      else let writer_level = (case plugin_level s (ac_subject a) of Some l \<Rightarrow> l | None \<Rightarrow> Public);
               target_level = resource_integrity s (ucast (ac_target a))
           in writer_level \<ge> target_level)"

definition auth_cap_is_valid :: "lion_state \<Rightarrow> capability \<Rightarrow> bool" where
  "auth_cap_is_valid s c = rev_is_valid (ks_revocation (st_kernel s)) (cp_id c)"

definition capability_check :: "lion_state \<Rightarrow> action \<Rightarrow> capability \<Rightarrow> bool" where
  "capability_check s a c =
     (if cp_holder c \<noteq> ac_subject a then False
      else if cp_target c \<noteq> ac_target a then False
      else if \<not> rights_is_subset_of (ac_rights a) (cp_rights c) then False
      else if \<not> auth_cap_is_valid s c then False
      else if \<not> plugin_holds s (ac_subject a) (cp_id c) then False
      else True)"

record authorized =
  au_cap :: capability
  au_action :: action
  au_ctx :: policy_context

definition check_capability :: "authorized \<Rightarrow> lion_state \<Rightarrow> authorization_error + unit" where
  "check_capability w s =
     (if cp_holder (au_cap w) \<noteq> ac_subject (au_action w)
      then Inl (HolderMismatch (ac_subject (au_action w)) (cp_holder (au_cap w)))
      else if cp_target (au_cap w) \<noteq> ac_target (au_action w)
      then Inl (TargetMismatch (ac_target (au_action w)) (cp_target (au_cap w)))
      else if \<not> rights_is_subset_of (ac_rights (au_action w)) (cp_rights (au_cap w))
      then Inl InsufficientRights
      else if \<not> plugin_holds s (ac_subject (au_action w)) (cp_id (au_cap w))
      then Inl (AuCapabilityNotHeld (cp_id (au_cap w)))
      else Inr ())"

definition check_policy :: "authorized \<Rightarrow> lion_state \<Rightarrow> authorization_error + unit" where
  "check_policy w s =
     (if is_permit (policy_eval (ks_policy (st_kernel s)) (au_action w) (au_ctx w))
      then Inr () else Inl PolicyDenied)"

definition check_validity :: "authorized \<Rightarrow> lion_state \<Rightarrow> authorization_error + unit" where
  "check_validity w s =
     and_then (ok_or (rev_get (ks_revocation (st_kernel s)) (cp_id (au_cap w)))
                (AuCapabilityNotFound (cp_id (au_cap w)))) (\<lambda>kernel_cap.
       if \<not> cp_valid kernel_cap then Inl (AuCapabilityRevoked (cp_id (au_cap w)))
       else case cp_parent (au_cap w) of
              Some parent_id \<Rightarrow>
                if \<not> rev_is_valid (ks_revocation (st_kernel s)) parent_id
                then Inl (AuCapabilityRevoked parent_id) else Inr ()
            | None \<Rightarrow> Inr ())"

definition check_liveness :: "authorized \<Rightarrow> lion_state \<Rightarrow> authorization_error + unit" where
  "check_liveness w s =
     (let addr = ucast (ac_target (au_action w))
      in if \<not> is_live (st_ghost s) addr then Inl (ResourceNotLive addr) else Inr ())"

definition check_confinement :: "authorized \<Rightarrow> authorization_error + unit" where
  "check_confinement w =
     (if \<not> rights_is_subset_of (ac_rights (au_action w)) (cp_rights (au_cap w))
      then Inl InsufficientRights else Inr ())"

definition check_biba :: "authorized \<Rightarrow> lion_state \<Rightarrow> authorization_error + unit" where
  "check_biba w s =
     (if \<not> biba_write_ok s (au_action w)
      then let writer_level = (case plugin_level s (ac_subject (au_action w)) of
                                 Some l \<Rightarrow> l | None \<Rightarrow> Public);
               target_level = resource_integrity s (ucast (ac_target (au_action w)))
           in Inl (BibaViolation writer_level target_level)
      else Inr ())"

definition auth_validate :: "authorized \<Rightarrow> lion_state \<Rightarrow> authorization_error + unit" where
  "auth_validate w s =
     and_then (check_capability w s) (\<lambda>_.
     and_then (check_policy w s) (\<lambda>_.
     and_then (check_validity w s) (\<lambda>_.
     and_then (check_liveness w s) (\<lambda>_.
     and_then (check_confinement w) (\<lambda>_.
     and_then (check_biba w s) (\<lambda>_. Inr ()))))))"

definition validate_atomic ::
  "lion_state \<Rightarrow> capability \<Rightarrow> action \<Rightarrow> policy_context \<Rightarrow> authorization_error + authorized" where
  "validate_atomic s c a ctx =
     (let provisional = \<lparr>au_cap = c, au_action = a, au_ctx = ctx\<rparr>
      in and_then (check_capability provisional s) (\<lambda>_.
         and_then (check_policy provisional s) (\<lambda>_.
         and_then (check_validity provisional s) (\<lambda>_.
         and_then (check_liveness provisional s) (\<lambda>_.
         and_then (check_confinement provisional) (\<lambda>_.
         and_then (check_biba provisional s) (\<lambda>_. Inr provisional)))))))"

definition holder_has_cap :: "authorized \<Rightarrow> lion_state \<Rightarrow> bool" where
  "holder_has_cap w s = plugin_holds s (ac_subject (au_action w)) (cp_id (au_cap w))"

definition policy_permitted :: "authorized \<Rightarrow> lion_state \<Rightarrow> bool" where
  "policy_permitted w s = is_permit (policy_eval (ks_policy (st_kernel s)) (au_action w) (au_ctx w))"

definition rights_confined :: "authorized \<Rightarrow> bool" where
  "rights_confined w = rights_is_subset_of (ac_rights (au_action w)) (cp_rights (au_cap w))"

definition biba_satisfied :: "authorized \<Rightarrow> lion_state \<Rightarrow> bool" where
  "biba_satisfied w s = biba_write_ok s (au_action w)"

definition properly_mediated :: "lion_state \<Rightarrow> authorized \<Rightarrow> bool" where
  "properly_mediated s w = is_ok (auth_validate w s)"

definition authorize :: "lion_state \<Rightarrow> capability \<Rightarrow> action \<Rightarrow> policy_context \<Rightarrow> bool" where
  "authorize s c a ctx \<longleftrightarrow>
     is_permit (policy_eval (ks_policy (st_kernel s)) a ctx) \<and> capability_check s a c"

section \<open>What a witness certifies\<close>

lemma check_capability_ok:
  "check_capability w s = Inr u \<longleftrightarrow> cp_holder (au_cap w) = ac_subject (au_action w)
     \<and> cp_target (au_cap w) = ac_target (au_action w)
     \<and> rights_is_subset_of (ac_rights (au_action w)) (cp_rights (au_cap w))
     \<and> plugin_holds s (ac_subject (au_action w)) (cp_id (au_cap w))"
  by (simp add: check_capability_def)

lemma check_policy_ok:
  "check_policy w s = Inr u \<longleftrightarrow> policy_eval (ks_policy (st_kernel s)) (au_action w) (au_ctx w) = Permit"
  by (simp add: check_policy_def)

lemma check_validity_ok:
  "check_validity w s = Inr u \<longleftrightarrow> cap_is_valid s (cp_id (au_cap w))
     \<and> (\<forall>p. cp_parent (au_cap w) = Some p \<longrightarrow> cap_is_valid s p)"
  by (auto simp: check_validity_def and_then_Inr_iff ok_or_Inr_iff cap_is_valid_def rev_is_valid_get
      split: option.splits if_splits)

lemma check_liveness_ok: "check_liveness w s = Inr u \<longleftrightarrow> is_live (st_ghost s) (ucast (ac_target (au_action w)))"
  by (simp add: check_liveness_def Let_def)

lemma check_biba_ok: "check_biba w s = Inr u \<longleftrightarrow> biba_write_ok s (au_action w)"
  by (simp add: check_biba_def Let_def)

lemma check_confinement_ok:
  "check_confinement w = Inr u \<longleftrightarrow> rights_is_subset_of (ac_rights (au_action w)) (cp_rights (au_cap w))"
  by (simp add: check_confinement_def)

lemmas check_oks = check_capability_ok check_policy_ok check_validity_ok check_liveness_ok
  check_biba_ok check_confinement_ok

definition mediated :: "lion_state \<Rightarrow> authorized \<Rightarrow> bool" where
  "mediated s w \<longleftrightarrow> cp_holder (au_cap w) = ac_subject (au_action w)
     \<and> cp_target (au_cap w) = ac_target (au_action w)
     \<and> rights_is_subset_of (ac_rights (au_action w)) (cp_rights (au_cap w))
     \<and> plugin_holds s (ac_subject (au_action w)) (cp_id (au_cap w))
     \<and> policy_eval (ks_policy (st_kernel s)) (au_action w) (au_ctx w) = Permit
     \<and> cap_is_valid s (cp_id (au_cap w))
     \<and> (\<forall>p. cp_parent (au_cap w) = Some p \<longrightarrow> cap_is_valid s p)
     \<and> is_live (st_ghost s) (ucast (ac_target (au_action w)))
     \<and> biba_write_ok s (au_action w)"

lemma auth_validate_ok: "auth_validate w s = Inr u \<longleftrightarrow> mediated s w"
  by (simp add: auth_validate_def and_then_Inr_iff check_oks mediated_def) blast

lemma properly_mediated_iff: "properly_mediated s w \<longleftrightarrow> mediated s w"
  by (simp add: properly_mediated_def is_ok_iff auth_validate_ok)

lemma validate_atomic_ok:
  "validate_atomic s c a ctx = Inr w \<longleftrightarrow>
     w = \<lparr>au_cap = c, au_action = a, au_ctx = ctx\<rparr> \<and> mediated s w"
  by (auto simp: validate_atomic_def and_then_Inr_iff check_oks mediated_def Let_def)

lemma biba_write_ok_iff:
  "biba_write_ok s a \<longleftrightarrow> (rights_contains (ac_rights a) Write \<longrightarrow>
     resource_integrity s (ucast (ac_target a)) \<le> (case plugin_level s (ac_subject a) of Some l \<Rightarrow> l | None \<Rightarrow> Public))"
  by (simp add: biba_write_ok_def Let_def)

section \<open>The witness\<close>

definition authorized_new :: "capability \<Rightarrow> action \<Rightarrow> policy_context \<Rightarrow> authorized" where
  "authorized_new c a x = \<lparr>au_cap = c, au_action = a, au_ctx = x\<rparr>"

definition auth_cap_id :: "authorized \<Rightarrow> cap_id" where
  "auth_cap_id w = cp_id (au_cap w)"

text \<open>The private constructor is reached only through the atomic validation, which stores what it was given.\<close>

lemma validate_atomic_new: "validate_atomic s c a x = Inr w \<Longrightarrow> w = authorized_new c a x"
  by (auto simp: validate_atomic_def authorized_new_def and_then_def Let_def split: sum.splits if_splits)

end
