(* ===== verification/LionText.thy ===== *)
theory LionText
  imports LionPrelude
begin

text \<open>
  The string operations the parsers and printers use, on ASCII strings: lower case, trimming,
  \<open>strip_prefix\<close>, printing a natural number and \<open>str::parse::<u128>\<close>. What the standard library
  does to characters beyond ASCII (case mapping, other white space) is outside the model.
\<close>

section \<open>Case and white space\<close>

definition char_lower :: "char \<Rightarrow> char" where
  "char_lower c = (let n = of_char c :: nat in if 65 \<le> n \<and> n \<le> 90 then char_of (n + 32) else c)"

definition to_lowercase :: "string \<Rightarrow> string" where
  "to_lowercase s = map char_lower s"

definition is_whitespace :: "char \<Rightarrow> bool" where
  "is_whitespace c \<longleftrightarrow> (let n = of_char c :: nat in 9 \<le> n \<and> n \<le> 13 \<or> n = 32)"

definition trim :: "string \<Rightarrow> string" where
  "trim s = rev (dropWhile is_whitespace (rev (dropWhile is_whitespace s)))"

definition strip_prefix :: "string \<Rightarrow> string \<Rightarrow> string option" where
  "strip_prefix p s = (if take (length p) s = p then Some (drop (length p) s) else None)"

section \<open>Decimal numbers\<close>

text \<open>\<open>Display\<close> of an unsigned integer.\<close>

fun show_nat :: "nat \<Rightarrow> string" where
  "show_nat n = (if n < 10 then [char_of (48 + n)] else show_nat (n div 10) @ [char_of (48 + n mod 10)])"

declare show_nat.simps [simp del]

definition to_digit :: "char \<Rightarrow> nat option" where
  "to_digit c = (let n = of_char c :: nat in if 48 \<le> n \<and> n \<le> 57 then Some (n - 48) else None)"

definition checked_mul :: "'a::len word \<Rightarrow> 'a word \<Rightarrow> 'a word option" where
  "checked_mul a b = (if unat a * unat b < 2 ^ LENGTH('a) then Some (a * b) else None)"

text \<open>\<open>from_str_radix (10)\<close> for an unsigned type: one leading plus is skipped, a sign alone or an empty
  string is refused, and every digit is accumulated with checked arithmetic.\<close>

fun digits_loop :: "u128 \<Rightarrow> string \<Rightarrow> u128 option" where
  "digits_loop acc [] = Some acc"
| "digits_loop acc (c # cs) =
     (case to_digit c of
        None \<Rightarrow> None
      | Some d \<Rightarrow>
          (case checked_mul acc 10 of
             None \<Rightarrow> None
           | Some m \<Rightarrow>
               (case checked_add m (of_nat d) of
                  None \<Rightarrow> None
                | Some a \<Rightarrow> digits_loop a cs)))"

definition skip_plus :: "string \<Rightarrow> string" where
  "skip_plus s = (case s of c # cs \<Rightarrow> if c = CHR ''+'' then cs else s | [] \<Rightarrow> s)"

definition parse_u128 :: "string \<Rightarrow> u128 option" where
  "parse_u128 s = (if skip_plus s = [] then None else digits_loop 0 (skip_plus s))"

text \<open>What a digit string denotes.\<close>

definition is_digit :: "char \<Rightarrow> bool" where
  "is_digit c \<longleftrightarrow> to_digit c \<noteq> None"

fun dec_value :: "nat \<Rightarrow> string \<Rightarrow> nat" where
  "dec_value a [] = a"
| "dec_value a (c # cs) = dec_value (10 * a + the (to_digit c)) cs"

lemma dec_value_append: "dec_value a (s @ t) = dec_value (dec_value a s) t"
  by (induction s arbitrary: a) simp_all

lemma dec_value_ge: "a \<le> dec_value a s"
proof (induction s arbitrary: a)
  case (Cons c cs)
  have "a \<le> 10 * a + the (to_digit c)" by simp
  also have "\<dots> \<le> dec_value a (c # cs)" using Cons by simp
  finally show ?case .
qed simp

lemma to_digit_less: "to_digit c = Some d \<Longrightarrow> d < 10"
  by (auto simp: to_digit_def Let_def split: if_splits)

lemma digits_loop_iff:
  "digits_loop acc s = Some w \<longleftrightarrow>
     list_all is_digit s \<and> dec_value (unat acc) s < 2 ^ 128 \<and> unat w = dec_value (unat acc) s"
proof (induction s arbitrary: acc)
  case Nil
  have "unat acc < 2 ^ 128" using unsigned_less [of acc] by simp
  then show ?case by (simp add: word_unat_eq_iff eq_commute)
next
  case (Cons c cs)
  show ?case
  proof (cases "to_digit c")
    case None
    then show ?thesis by (simp add: is_digit_def)
  next
    case (Some d)
    have d: "d < 10" by (rule to_digit_less [OF Some])
    then have ud: "unat (of_nat d :: u128) = d" by (simp add: unat_of_nat)
    let ?v = "10 * unat acc + d"
    show ?thesis
    proof (cases "?v < 2 ^ 128")
      case True
      have m: "checked_mul acc 10 = Some (acc * 10)" and um: "unat (acc * 10) = unat acc * 10"
        using True by (simp_all add: checked_mul_def unat_word_ariths)
      have a: "checked_add (acc * 10) (of_nat d) = Some (acc * 10 + of_nat d)"
        unfolding checked_add_def um ud using True by (simp add: mult.commute)
      have "unat (acc * 10 + of_nat d) = ?v" using unat_checked_add [OF a] unfolding ud um by linarith
      then show ?thesis using Some m a Cons [of "acc * 10 + of_nat d"] by (simp add: is_digit_def)
    next
      case False
      have "?v \<le> dec_value (unat acc) (c # cs)" using dec_value_ge [of ?v cs] Some by simp
      then have r: "\<not> dec_value (unat acc) (c # cs) < 2 ^ 128" using False by simp
      have "checked_add m (of_nat d) = None" if m: "checked_mul acc 10 = Some m" for m
      proof -
        have "unat acc * 10 < 2 ^ 128" "m = acc * 10" using m by (simp_all add: checked_mul_def split: if_splits)
        then have "unat m = unat acc * 10" by (simp add: unat_word_ariths)
        then show ?thesis using False ud by (simp add: checked_add_def)
      qed
      then have "digits_loop acc (c # cs) = None"
        using Some by (simp split: option.split)
      then show ?thesis using r by simp
    qed
  qed
qed

lemma parse_u128_iff:
  "parse_u128 s = Some w \<longleftrightarrow> skip_plus s \<noteq> [] \<and> list_all is_digit (skip_plus s)
     \<and> dec_value 0 (skip_plus s) < 2 ^ 128 \<and> unat w = dec_value 0 (skip_plus s)"
  by (simp add: parse_u128_def digits_loop_iff)

lemma digit_char:
  assumes "n < 10"
  shows "to_digit (char_of (48 + n)) = Some n" "is_digit (char_of (48 + n))"
    "char_lower (char_of (48 + n)) = char_of (48 + n)" "\<not> is_whitespace (char_of (48 + n))"
    "char_of (48 + n) \<noteq> CHR ''+''"
proof -
  have v: "(of_char (char_of (48 + n) :: char) :: nat) = 48 + n" using assms by simp
  then show t: "to_digit (char_of (48 + n)) = Some n" using assms by (simp add: to_digit_def Let_def)
  then show "is_digit (char_of (48 + n))" by (simp add: is_digit_def)
  show "char_lower (char_of (48 + n)) = char_of (48 + n)" "\<not> is_whitespace (char_of (48 + n))"
    using v assms by (simp_all add: char_lower_def is_whitespace_def Let_def)
  show "char_of (48 + n) \<noteq> CHR ''+''"
  proof
    assume "char_of (48 + n) = CHR ''+''"
    then have "48 + n = of_char CHR ''+''" using v by simp
    then show False by simp
  qed
qed

lemma show_nat_facts:
  "show_nat n \<noteq> [] \<and> list_all is_digit (show_nat n) \<and> dec_value 0 (show_nat n) = n
   \<and> map char_lower (show_nat n) = show_nat n \<and> hd (show_nat n) \<noteq> CHR ''+''
   \<and> \<not> is_whitespace (last (show_nat n))"
proof (induction n rule: show_nat.induct)
  case (1 n)
  show ?case
  proof (cases "n < 10")
    case True
    then show ?thesis by (simp add: show_nat.simps [of n] digit_char)
  next
    case False
    note q = digit_char [of "n mod 10", simplified]
    have "show_nat n = show_nat (n div 10) @ [char_of (48 + n mod 10)]"
      using False by (simp add: show_nat.simps [of n])
    then show ?thesis using 1 [OF False] q by (simp add: dec_value_append)
  qed
qed

lemma skip_plus_show [simp]: "skip_plus (show_nat n) = show_nat n"
  using show_nat_facts [of n] by (cases "show_nat n") (simp_all add: skip_plus_def)

lemma parse_show_nat: "parse_u128 (show_nat (unat w)) = Some w"
  using show_nat_facts [of "unat w"] unsigned_less [of w] by (simp add: parse_u128_iff)

lemma to_lowercase_append: "to_lowercase (s @ t) = to_lowercase s @ to_lowercase t"
  by (simp add: to_lowercase_def)

lemma to_lowercase_show_nat [simp]: "to_lowercase (show_nat n) = show_nat n"
  using show_nat_facts [of n] by (simp add: to_lowercase_def)

lemma char_lower_idem [simp]: "char_lower (char_lower c) = char_lower c"
  by (simp add: char_lower_def Let_def)

lemma to_lowercase_idem [simp]: "to_lowercase (to_lowercase s) = to_lowercase s"
  by (simp add: to_lowercase_def)

lemma trim_id: "s \<noteq> [] \<Longrightarrow> \<not> is_whitespace (hd s) \<Longrightarrow> \<not> is_whitespace (last s) \<Longrightarrow> trim s = s"
proof -
  assume s: "s \<noteq> []" "\<not> is_whitespace (hd s)" "\<not> is_whitespace (last s)"
  then have "dropWhile is_whitespace s = s" by (cases s) simp_all
  moreover have "dropWhile is_whitespace (rev s) = rev s"
    using s by (cases "rev s") (simp_all add: hd_rev [symmetric])
  ultimately show ?thesis by (simp add: trim_def)
qed

lemma strip_prefix_iff: "strip_prefix p s = Some t \<longleftrightarrow> s = p @ t"
  by (auto simp: strip_prefix_def) (metis append_take_drop_id)

lemma trim_ends:
  assumes "trim s = s" and "s \<noteq> []"
  shows "\<not> is_whitespace (hd s) \<and> \<not> is_whitespace (last s)"
proof -
  let ?d = "dropWhile is_whitespace s"
  have le: "length (dropWhile is_whitespace (rev ?d)) \<le> length ?d"
    using length_dropWhile_le [of is_whitespace "rev ?d"] by simp
  have len: "length (dropWhile is_whitespace (rev ?d)) = length s"
    using arg_cong [OF assms(1), of length] by (simp add: trim_def)
  have "length ?d = length s" using le len length_dropWhile_le [of is_whitespace s] by linarith
  then have d: "?d = s" using dropWhile_eq_drop [of is_whitespace s] by (metis append_self_conv2 length_append add_eq_self_zero add.commute length_0_conv takeWhile_dropWhile_id)
  then have h: "\<not> is_whitespace (hd s)" using assms(2) by (metis hd_dropWhile)
  have r: "dropWhile is_whitespace (rev s) = rev s" using assms(1) d by (simp add: trim_def) (metis rev_rev_ident)
  have "rev s \<noteq> []" using assms(2) by simp
  then have "\<not> is_whitespace (hd (rev s))" using r by (metis hd_dropWhile)
  then show ?thesis using h assms(2) by (simp add: hd_rev)
qed

lemma strip_prefix_None: "strip_prefix p s = None \<longleftrightarrow> (\<forall>t. s \<noteq> p @ t)"
  using strip_prefix_iff [of p s] by (metis not_Some_eq)

text \<open>Whatever surrounds a trimmed string, white space is what \<open>trim\<close> takes off.\<close>

lemma trim_pad:
  assumes "list_all is_whitespace a" and "list_all is_whitespace b" and "trim s = s"
  shows "trim (a @ s @ b) = s"
proof (cases "s = []")
  case True
  have "\<forall>x \<in> set (a @ b). is_whitespace x" using assms by (auto simp: list_all_iff)
  then have d: "dropWhile is_whitespace (a @ b) = []" by (simp only: dropWhile_eq_Nil_conv)
  show ?thesis unfolding trim_def True append_Nil d by simp
next
  case False
  have hd: "\<not> is_whitespace (hd s)" and lt: "\<not> is_whitespace (last s)"
    using trim_ends [OF assms(3) False] by simp_all
  have "dropWhile is_whitespace (a @ s @ b) = s @ b"
    using assms(1) hd False by (cases s) (simp_all add: dropWhile_append2 list_all_iff)
  moreover have "dropWhile is_whitespace (rev b @ rev s) = dropWhile is_whitespace (rev s)"
    by (rule dropWhile_append2) (use assms(2) in \<open>simp add: list_all_iff\<close>)
  moreover have "dropWhile is_whitespace (rev s) = rev s"
    using lt False by (cases "rev s") (simp_all add: hd_rev [symmetric])
  ultimately show ?thesis by (simp add: trim_def)
qed

end
