(* ===== verification/LionStepBase.thy ===== *)
theory LionStepBase
  imports LionAuth LionText
begin

text \<open>
  The errors of steps (\<open>step/mod.rs\<close>), the preconditions of plugin-internal computation
  (\<open>step/plugin_internal.rs\<close>) and the kernel operations (\<open>step/kernel_op.rs\<close>), each in the pure and
  in the in-place form. Thread switching is the error the code returns for it.
\<close>

section \<open>Errors\<close>

datatype plugin_precondition =
  PlBlocked plugin_id "actor_id option"
| PlReadOutOfBounds mem_addr mem_size mem_size
| PlWriteOutOfBounds mem_addr mem_size mem_size
| PlMailboxEmpty

datatype host_call_precondition =
  HcReadOutOfBounds mem_addr mem_size
| HcWriteOutOfBounds mem_addr mem_size
| NoValidCapability
| NoMessage
| SourceMismatch
| HcMailboxFull
| InvalidSecurityLevel u64
| CannotClassifyUp
| NoAddress
| NoCapabilityId
| FreeFailed state_error
| HcNotImplemented string

datatype kernel_op_error =
  NoPendingMessages actor_id
| MailboxAtCapacity actor_id
| KoWorkflowNotFound workflow_id
| WorkflowNotRunning workflow_id
| KoNotImplemented string
| KoCounterOverflow string

datatype invalid_transition_reason = IncompatibleStates string string

datatype step_error =
  StepPluginNotFound plugin_id
| StepActorNotFound plugin_id
| AddressAlreadyFreed mem_addr
| CapabilityTargetsAddress cap_id mem_addr
| StepCapabilityNotFound cap_id
| AuthorizationFailed authorization_error
| PluginPreconditionFailed plugin_precondition
| HostCallPreconditionFailed host_call_precondition
| KernelOpFailed kernel_op_error
| StepInvalidTransition invalid_transition_reason
| StepStateError state_error
| QuotaExceeded u8 u64 u64 u64

text \<open>The \<open>Display\<close> of state errors, which the clock's error carries; identifiers print in decimal.\<close>

fun state_error_to_string :: "state_error \<Rightarrow> string" where
  "state_error_to_string (PluginNotFound i) = ''plugin '' @ show_nat (unat i) @ '' not found''"
| "state_error_to_string (ActorNotFound i) = ''actor '' @ show_nat (unat i) @ '' not found''"
| "state_error_to_string (ResourceNotFound i) = ''resource '' @ show_nat (unat i) @ '' not found''"
| "state_error_to_string (WorkflowNotFound i) = ''workflow '' @ show_nat (unat i) @ '' not found''"
| "state_error_to_string (CapabilityNotFound i) = ''capability '' @ show_nat (unat i) @ '' not found''"
| "state_error_to_string (CapabilityNotHeld p c) =
     ''plugin '' @ show_nat (unat p) @ '' does not hold capability '' @ show_nat (unat c)"
| "state_error_to_string (IsolationViolation a b) =
     ''isolation violation: '' @ show_nat (unat a) @ '' affects '' @ show_nat (unat b)"
| "state_error_to_string (DanglingCapability a) =
     ''freeing address '' @ show_nat (unat a) @ '' would create dangling capability''"
| "state_error_to_string (PluginExists i) = ''plugin '' @ show_nat (unat i) @ '' already exists''"
| "state_error_to_string (ActorExists i) = ''actor '' @ show_nat (unat i) @ '' already exists''"
| "state_error_to_string (ResourceExists i) = ''resource '' @ show_nat (unat i) @ '' already exists''"
| "state_error_to_string (WorkflowExists i) = ''workflow '' @ show_nat (unat i) @ '' already exists''"
| "state_error_to_string (CounterOverflow n) = n @ '' counter overflow''"

section \<open>Plugin-internal computation: preconditions\<close>

record plugin_internal =
  pi_reads :: "(mem_addr \<times> mem_size) list"
  pi_writes :: "(mem_addr \<times> mem_size) list"
  pi_consume_mailbox :: bool

definition plugin_compute :: plugin_internal where
  "plugin_compute = \<lparr>pi_reads = [], pi_writes = [], pi_consume_mailbox = False\<rparr>"

definition memory_bounds :: "plugin_state \<Rightarrow> mem_size" where
  "memory_bounds p = lm_bounds (pg_memory p)"

definition pi_find_oob_read :: "plugin_internal \<Rightarrow> plugin_state \<Rightarrow> step_error option" where
  "pi_find_oob_read d p =
     find_map (\<lambda>(addr, sz). if addr_in_bounds (pg_memory p) addr sz then None
       else Some (PluginPreconditionFailed (PlReadOutOfBounds addr sz (memory_bounds p)))) (pi_reads d)"

definition pi_find_oob_write :: "plugin_internal \<Rightarrow> plugin_state \<Rightarrow> step_error option" where
  "pi_find_oob_write d p =
     find_map (\<lambda>(addr, sz). if addr_in_bounds (pg_memory p) addr sz then None
       else Some (PluginPreconditionFailed (PlWriteOutOfBounds addr sz (memory_bounds p)))) (pi_writes d)"

definition pi_check_preconditions ::
  "plugin_internal \<Rightarrow> lion_state \<Rightarrow> plugin_id \<Rightarrow> step_error + unit" where
  "pi_check_preconditions d s pid =
     and_then (ok_or (get_plugin s pid) (StepPluginNotFound pid)) (\<lambda>p.
     and_then (case get_actor s pid of
                 Some a \<Rightarrow> if is_blocked a
                   then Inl (PluginPreconditionFailed (PlBlocked pid (ar_blocked_on a))) else Inr ()
               | None \<Rightarrow> Inr ()) (\<lambda>_.
     case pi_find_oob_read d p of
       Some err \<Rightarrow> Inl err
     | None \<Rightarrow>
         (case pi_find_oob_write d p of
            Some err \<Rightarrow> Inl err
          | None \<Rightarrow>
              if pi_consume_mailbox d
              then (case get_actor s pid of
                      Some a \<Rightarrow> if \<not> can_receive a
                        then Inl (PluginPreconditionFailed PlMailboxEmpty) else Inr ()
                    | None \<Rightarrow> Inr ())
              else Inr ())))"

section \<open>Kernel operations\<close>

datatype kernel_op =
  RouteOne actor_id
| WorkflowTick workflow_id
| TimeTick
| UnblockSend actor_id
| ThreadSwitch thread_id thread_id

definition execute_route_one :: "lion_state \<Rightarrow> actor_id \<Rightarrow> step_error + lion_state" where
  "execute_route_one s dst =
     and_then (ok_or (get_actor s dst) (StepActorNotFound dst)) (\<lambda>a.
       if length (ar_pending a) = 0 then Inl (KernelOpFailed (NoPendingMessages dst))
       else if length (ar_mailbox a) \<ge> ar_capacity a then Inl (KernelOpFailed (MailboxAtCapacity dst))
       else Inr (case get_actor s dst of
                   Some _ \<Rightarrow> modify_actor s dst (\<lambda>x. snd (deliver_mut x))
                 | None \<Rightarrow> s))"

definition execute_workflow_tick :: "lion_state \<Rightarrow> workflow_id \<Rightarrow> step_error + lion_state" where
  "execute_workflow_tick s wid =
     and_then (ok_or (get_workflow s wid) (KernelOpFailed (KoWorkflowNotFound wid))) (\<lambda>w.
       if \<not> status_is_running (wi_status w) then Inl (KernelOpFailed (WorkflowNotRunning wid))
       else Inr s)"

definition execute_time_tick :: "lion_state \<Rightarrow> step_error + lion_state" where
  "execute_time_tick s =
     map_err (\<lambda>e. KernelOpFailed (KoCounterOverflow (state_error_to_string e))) (state_tick s)"

definition execute_unblock_send :: "lion_state \<Rightarrow> actor_id \<Rightarrow> step_error + lion_state" where
  "execute_unblock_send s dst =
     and_then (ok_or (get_actor s dst) (StepActorNotFound dst)) (\<lambda>_.
       Inr (case get_actor s dst of Some _ \<Rightarrow> modify_actor s dst unblock | None \<Rightarrow> s))"

definition execute_thread_switch :: "lion_state \<Rightarrow> thread_id \<Rightarrow> thread_id \<Rightarrow> step_error + lion_state" where
  "execute_thread_switch s f t = Inl (KernelOpFailed (KoNotImplemented ''thread_switch''))"

fun kernel_op_execute :: "kernel_op \<Rightarrow> lion_state \<Rightarrow> step_error + lion_state" where
  "kernel_op_execute (RouteOne dst) s = execute_route_one s dst"
| "kernel_op_execute (WorkflowTick wid) s = execute_workflow_tick s wid"
| "kernel_op_execute TimeTick s = execute_time_tick s"
| "kernel_op_execute (UnblockSend dst) s = execute_unblock_send s dst"
| "kernel_op_execute (ThreadSwitch f t) s = execute_thread_switch s f t"

text \<open>The in-place versions: they make every check before writing.\<close>

definition execute_route_one_mut :: "lion_state \<Rightarrow> actor_id \<Rightarrow> step_error + lion_state" where
  "execute_route_one_mut s dst =
     and_then (ok_or (get_actor s dst) (StepActorNotFound dst)) (\<lambda>a.
       if length (ar_pending a) = 0 then Inl (KernelOpFailed (NoPendingMessages dst))
       else if length (ar_mailbox a) \<ge> ar_capacity a then Inl (KernelOpFailed (MailboxAtCapacity dst))
       else Inr (case get_actor s dst of
                   Some _ \<Rightarrow> modify_actor s dst (\<lambda>x. snd (deliver_mut x))
                 | None \<Rightarrow> s))"

definition execute_workflow_tick_mut :: "lion_state \<Rightarrow> workflow_id \<Rightarrow> step_error + lion_state" where
  "execute_workflow_tick_mut s wid =
     and_then (ok_or (get_workflow s wid) (KernelOpFailed (KoWorkflowNotFound wid))) (\<lambda>w.
       if \<not> status_is_running (wi_status w) then Inl (KernelOpFailed (WorkflowNotRunning wid))
       else Inr s)"

definition execute_time_tick_mut :: "lion_state \<Rightarrow> step_error + lion_state" where
  "execute_time_tick_mut s =
     map_err (\<lambda>e. KernelOpFailed (KoCounterOverflow (state_error_to_string e))) (state_tick s)"

definition execute_unblock_send_mut :: "lion_state \<Rightarrow> actor_id \<Rightarrow> step_error + lion_state" where
  "execute_unblock_send_mut s dst =
     and_then (ok_or (get_actor s dst) (StepActorNotFound dst)) (\<lambda>_.
       Inr (case get_actor s dst of Some _ \<Rightarrow> modify_actor s dst unblock | None \<Rightarrow> s))"

definition execute_thread_switch_mut ::
  "lion_state \<Rightarrow> thread_id \<Rightarrow> thread_id \<Rightarrow> step_error + lion_state" where
  "execute_thread_switch_mut s f t = Inl (KernelOpFailed (KoNotImplemented ''thread_switch''))"

fun kernel_op_execute_mut :: "kernel_op \<Rightarrow> lion_state \<Rightarrow> step_error + lion_state" where
  "kernel_op_execute_mut (RouteOne dst) s = execute_route_one_mut s dst"
| "kernel_op_execute_mut (WorkflowTick wid) s = execute_workflow_tick_mut s wid"
| "kernel_op_execute_mut TimeTick s = execute_time_tick_mut s"
| "kernel_op_execute_mut (UnblockSend dst) s = execute_unblock_send_mut s dst"
| "kernel_op_execute_mut (ThreadSwitch f t) s = execute_thread_switch_mut s f t"

section \<open>Their effect\<close>

lemma kernel_op_mut_eq: "kernel_op_execute_mut op s = kernel_op_execute op s"
  by (cases op) (simp_all add: execute_route_one_mut_def execute_route_one_def
      execute_workflow_tick_mut_def execute_workflow_tick_def execute_time_tick_mut_def
      execute_time_tick_def execute_unblock_send_mut_def execute_unblock_send_def
      execute_thread_switch_mut_def execute_thread_switch_def Let_def)

lemma kernel_op_Inr:
  "kernel_op_execute op s = Inr s' \<longleftrightarrow>
     (case op of
        RouteOne dst \<Rightarrow> (\<exists>a. get_actor s dst = Some a \<and> ar_pending a \<noteq> []
          \<and> length (ar_mailbox a) < ar_capacity a) \<and> s' = modify_actor s dst deliver
      | WorkflowTick wid \<Rightarrow> (\<exists>w. get_workflow s wid = Some w \<and> wi_status w = Running) \<and> s' = s
      | TimeTick \<Rightarrow> state_tick s = Inr s'
      | UnblockSend dst \<Rightarrow> get_actor s dst \<noteq> None \<and> s' = modify_actor s dst unblock
      | ThreadSwitch f t \<Rightarrow> False)"
proof (cases op)
  case (RouteOne dst)
  then show ?thesis
    by (cases "get_actor s dst")
      (auto simp: execute_route_one_def deliver_mut_snd split: if_splits)
next
  case (WorkflowTick wid)
  then show ?thesis
    by (cases "get_workflow s wid") (auto simp: execute_workflow_tick_def status_is_running_def)
next
  case (UnblockSend dst)
  then show ?thesis by (cases "get_actor s dst") (auto simp: execute_unblock_send_def)
qed (auto simp: execute_time_tick_def execute_thread_switch_def map_err_Inr_iff)

lemma find_oob_read_None: "pi_find_oob_read d p = None \<longleftrightarrow>
    (\<forall>(addr, sz) \<in> set (pi_reads d). addr_in_bounds (pg_memory p) addr sz)"
  by (auto simp: pi_find_oob_read_def find_map_None_iff split: if_splits)

lemma find_oob_write_None: "pi_find_oob_write d p = None \<longleftrightarrow>
    (\<forall>(addr, sz) \<in> set (pi_writes d). addr_in_bounds (pg_memory p) addr sz)"
  by (auto simp: pi_find_oob_write_def find_map_None_iff split: if_splits)

lemma pi_check_preconditions_ok:
  "pi_check_preconditions d s pid = Inr u \<longleftrightarrow> (\<exists>p. get_plugin s pid = Some p
     \<and> (\<forall>a. get_actor s pid = Some a \<longrightarrow> \<not> is_blocked a \<and> (pi_consume_mailbox d \<longrightarrow> can_receive a))
     \<and> (\<forall>(addr, sz) \<in> set (pi_reads d). addr_in_bounds (pg_memory p) addr sz)
     \<and> (\<forall>(addr, sz) \<in> set (pi_writes d). addr_in_bounds (pg_memory p) addr sz))"
proof (cases "get_plugin s pid")
  case (Some p)
  show ?thesis
    unfolding find_oob_read_None [symmetric] find_oob_write_None [symmetric]
    using Some by (auto simp: pi_check_preconditions_def and_then_Inr_iff split: option.splits if_splits)
qed (simp add: pi_check_preconditions_def)

section \<open>Constructors\<close>

definition internal_new :: "(mem_addr \<times> mem_size) list \<Rightarrow> (mem_addr \<times> mem_size) list \<Rightarrow> bool \<Rightarrow> plugin_internal" where
  "internal_new rs ws b = 
     \<lparr>pi_reads = rs, pi_writes = ws, pi_consume_mailbox = b\<rparr>"

definition internal_with_reads :: "(mem_addr \<times> mem_size) list \<Rightarrow> plugin_internal" where
  "internal_with_reads rs = 
     \<lparr>pi_reads = rs, pi_writes = [], pi_consume_mailbox = False\<rparr>"

definition internal_with_writes :: "(mem_addr \<times> mem_size) list \<Rightarrow> plugin_internal" where
  "internal_with_writes ws = 
     \<lparr>pi_reads = [], pi_writes = ws, pi_consume_mailbox = False\<rparr>"

definition step_error_from_auth :: "authorization_error \<Rightarrow> step_error" where
  "step_error_from_auth e = AuthorizationFailed e"

definition step_error_from_state :: "state_error \<Rightarrow> step_error" where
  "step_error_from_state e = StepStateError e"

lemma internal_builders:
  "plugin_compute = internal_new [] [] False" "internal_with_reads rs = internal_new rs [] False"
  "internal_with_writes ws = internal_new [] ws False"
  by (simp_all add: plugin_compute_def internal_new_def internal_with_reads_def internal_with_writes_def)

text \<open>A step that only computes is never refused for a registered plugin that is not blocked.\<close>

lemma compute_preconditions:
  "pi_check_preconditions plugin_compute s p = Inr () \<longleftrightarrow>
     get_plugin s p \<noteq> None \<and> (\<forall>a. get_actor s p = Some a \<longrightarrow> \<not> is_blocked a)"
  by (auto simp: pi_check_preconditions_ok plugin_compute_def)

end
