(* ===== verification/LionHostCall.thy ===== *)
theory LionHostCall
  imports LionStepBase
begin

text \<open>
  Host calls (\<open>step/host_call.rs\<close>): the request, the action its authorization must name, the
  memory-region preconditions, and the six operations in the pure and in the in-place form. The
  five thread operations are the error the code returns for them. An argument is a 64-bit word
  widened to an identifier.
\<close>

section \<open>Data\<close>

datatype host_function =
  FnCapCall | FnCapSend | FnKernelAlloc | FnMemFree | FnCapRevoke | FnDeclassify
| FnThreadCreate | FnThreadConfigure | FnThreadResume | FnThreadSuspend | FnThreadDestroy

record host_call =
  hc_caller :: plugin_id
  hc_function :: host_function
  hc_args :: "u64 list"
  hc_reads :: "(mem_addr \<times> mem_size) list"
  hc_writes :: "(mem_addr \<times> mem_size) list"

record host_result =
  hr_new_caps :: "capability list"
  hr_new_msgs :: "message list"

definition fn_is_declassify :: "host_function \<Rightarrow> bool" where
  "fn_is_declassify f \<longleftrightarrow> f = FnDeclassify"

definition fn_is_effectful :: "host_function \<Rightarrow> bool" where
  "fn_is_effectful f \<longleftrightarrow> True"

definition result_empty :: host_result where
  "result_empty = \<lparr>hr_new_caps = [], hr_new_msgs = []\<rparr>"

definition fn_is_cap_operation :: "host_function \<Rightarrow> bool" where
  "fn_is_cap_operation f \<longleftrightarrow> f = FnCapCall \<or> f = FnCapRevoke"

definition fn_is_mem_operation :: "host_function \<Rightarrow> bool" where
  "fn_is_mem_operation f \<longleftrightarrow> f = FnKernelAlloc \<or> f = FnMemFree"

definition fn_is_thread_operation :: "host_function \<Rightarrow> bool" where
  "fn_is_thread_operation f \<longleftrightarrow> f = FnThreadCreate \<or> f = FnThreadConfigure \<or> f = FnThreadResume
     \<or> f = FnThreadSuspend \<or> f = FnThreadDestroy"

definition first_arg :: "host_call \<Rightarrow> u64 option" where
  "first_arg hc = (case hc_args hc of [] \<Rightarrow> None | a # _ \<Rightarrow> Some a)"

section \<open>The required action and the preconditions\<close>

definition map_policy_err :: "policy_error + action \<Rightarrow> step_error + action" where
  "map_policy_err r = map_err (\<lambda>_. HostCallPreconditionFailed NoCapabilityId) r"

definition required_action :: "host_call \<Rightarrow> step_error + action" where
  "required_action hc =
     (case hc_function hc of
        FnCapCall \<Rightarrow>
          and_then (ok_or (first_arg hc) (HostCallPreconditionFailed NoCapabilityId)) (\<lambda>target.
            map_policy_err (action_new (hc_caller hc) (ucast target) (rights_singleton Read) ''cap_call''))
      | FnKernelAlloc \<Rightarrow>
          map_policy_err (action_new (hc_caller hc) 0 (rights_singleton Create) ''kernel_alloc'')
      | FnMemFree \<Rightarrow>
          and_then (ok_or (first_arg hc) (HostCallPreconditionFailed NoAddress)) (\<lambda>addr.
            map_policy_err (action_new (hc_caller hc) (ucast addr) (rights_singleton Delete) ''mem_free''))
      | FnCapRevoke \<Rightarrow>
          and_then (ok_or (first_arg hc) (HostCallPreconditionFailed NoCapabilityId)) (\<lambda>cap_id.
            map_policy_err (action_new (hc_caller hc) (ucast cap_id) (rights_singleton Revoke) ''cap_revoke''))
      | FnDeclassify \<Rightarrow>
          map_policy_err (action_new (hc_caller hc) 0 (rights_singleton right.Declassify) ''declassify'')
      | FnCapSend \<Rightarrow>
          map_policy_err (action_new (hc_caller hc) 0 (rights_singleton Send) ''cap_send'')
      | _ \<Rightarrow> Inl (HostCallPreconditionFailed (HcNotImplemented ''thread operations'')))"

definition hc_find_oob_read :: "host_call \<Rightarrow> plugin_state \<Rightarrow> step_error option" where
  "hc_find_oob_read hc p =
     find_map (\<lambda>(addr, sz). if addr_in_bounds (pg_memory p) addr sz then None
       else Some (HostCallPreconditionFailed (HcReadOutOfBounds addr sz))) (hc_reads hc)"

definition hc_find_oob_write :: "host_call \<Rightarrow> plugin_state \<Rightarrow> step_error option" where
  "hc_find_oob_write hc p =
     find_map (\<lambda>(addr, sz). if addr_in_bounds (pg_memory p) addr sz then None
       else Some (HostCallPreconditionFailed (HcWriteOutOfBounds addr sz))) (hc_writes hc)"

definition hc_check_preconditions :: "host_call \<Rightarrow> lion_state \<Rightarrow> step_error + unit" where
  "hc_check_preconditions hc s =
     and_then (ok_or (get_plugin s (hc_caller hc)) (StepPluginNotFound (hc_caller hc))) (\<lambda>p.
     case hc_find_oob_read hc p of
       Some err \<Rightarrow> Inl err
     | None \<Rightarrow> (case hc_find_oob_write hc p of Some err \<Rightarrow> Inl err | None \<Rightarrow> Inr ()))"

section \<open>The operations\<close>

definition hc_cap_call :: "lion_state \<Rightarrow> host_call \<Rightarrow> host_result \<Rightarrow> step_error + lion_state" where
  "hc_cap_call s hc result =
     and_then (ok_or (get_plugin s (hc_caller hc)) (StepPluginNotFound (hc_caller hc))) (\<lambda>p.
       let has_valid_cap = list_ex (rev_is_valid (ks_revocation (st_kernel s))) (pg_held_caps p)
       in if \<not> has_valid_cap then Inl (HostCallPreconditionFailed NoValidCapability) else Inr s)"

fun send_loop :: "lion_state \<Rightarrow> host_call \<Rightarrow> message list \<Rightarrow> step_error + unit" where
  "send_loop s hc [] = Inr ()"
| "send_loop s hc (m # ms) =
     (if mg_src m \<noteq> hc_caller hc then Inl (HostCallPreconditionFailed SourceMismatch)
      else and_then (ok_or (get_actor s (mg_dst m)) (StepActorNotFound (mg_dst m))) (\<lambda>dst_actor.
             if length (ar_mailbox dst_actor) \<ge> ar_capacity dst_actor
             then Inl (HostCallPreconditionFailed HcMailboxFull) else send_loop s hc ms))"

definition hc_cap_send :: "lion_state \<Rightarrow> host_call \<Rightarrow> host_result \<Rightarrow> step_error + lion_state" where
  "hc_cap_send s hc result =
     (if hr_new_msgs result = [] then Inl (HostCallPreconditionFailed NoMessage)
      else and_then (send_loop s hc (hr_new_msgs result)) (\<lambda>_. Inr s))"

definition add_memory_used :: "u64 \<Rightarrow> plugin_state \<Rightarrow> plugin_state" where
  "add_memory_used n p = p\<lparr>pg_memory_used := saturating_add (pg_memory_used p) n\<rparr>"

definition hc_kernel_alloc :: "lion_state \<Rightarrow> host_call \<Rightarrow> step_error + lion_state" where
  "hc_kernel_alloc s hc =
     (let n = (case first_arg hc of Some a \<Rightarrow> a | None \<Rightarrow> 0)
      in and_then (ok_or (get_plugin s (hc_caller hc)) (StepPluginNotFound (hc_caller hc))) (\<lambda>p.
           if \<not> can_alloc_memory p n
           then Inl (QuotaExceeded 0 n (pg_memory_used p) (pg_memory_quota p))
           else let new_state = apply_alloc s (hc_caller hc) n
                in Inr (modify_plugin new_state (hc_caller hc) (add_memory_used n))))"

definition find_valid_targeting :: "lion_state \<Rightarrow> mem_addr \<Rightarrow> cap_id option" where
  "find_valid_targeting s addr =
     map_option fst (find (\<lambda>(_, c). cp_valid c \<and> cp_target c = ucast addr)
       (rv_caps (ks_revocation (st_kernel s))))"

definition hc_mem_free :: "lion_state \<Rightarrow> host_call \<Rightarrow> step_error + lion_state" where
  "hc_mem_free s hc =
     and_then (ok_or (first_arg hc) (HostCallPreconditionFailed NoAddress)) (\<lambda>addr.
       if is_freed (st_ghost s) addr then Inl (AddressAlreadyFreed addr)
       else case find_valid_targeting s addr of
              Some cap_id \<Rightarrow> Inl (CapabilityTargetsAddress cap_id addr)
            | None \<Rightarrow> map_err (\<lambda>e. HostCallPreconditionFailed (FreeFailed e)) (apply_free s addr))"

definition hc_cap_revoke :: "lion_state \<Rightarrow> host_call \<Rightarrow> step_error + lion_state" where
  "hc_cap_revoke s hc =
     and_then (ok_or (map_option ucast (first_arg hc)) (HostCallPreconditionFailed NoCapabilityId)) (\<lambda>cap_id.
       if rev_get (ks_revocation (st_kernel s)) cap_id = None then Inl (StepCapabilityNotFound cap_id)
       else Inr (apply_cap_revoke s cap_id))"

definition declassify_level :: "u64 \<Rightarrow> step_error + security_level" where
  "declassify_level v =
     (if v = 0 then Inr Public else if v = 1 then Inr Internal else if v = 2 then Inr Confidential
      else if v = 3 then Inr Secret
      else Inl (HostCallPreconditionFailed (InvalidSecurityLevel v)))"

definition set_level :: "security_level \<Rightarrow> plugin_state \<Rightarrow> plugin_state" where
  "set_level l p = p\<lparr>pg_level := l\<rparr>"

definition hc_declassify :: "lion_state \<Rightarrow> host_call \<Rightarrow> step_error + lion_state" where
  "hc_declassify s hc =
     (let new_level_val = (case first_arg hc of Some a \<Rightarrow> a | None \<Rightarrow> 0)
      in and_then (declassify_level new_level_val) (\<lambda>new_level.
         and_then (ok_or (get_plugin s (hc_caller hc)) (StepPluginNotFound (hc_caller hc))) (\<lambda>p.
           if new_level > pg_level p then Inl (HostCallPreconditionFailed CannotClassifyUp)
           else Inr (modify_plugin s (hc_caller hc) (set_level new_level)))))"

definition not_implemented :: "step_error + lion_state" where
  "not_implemented = Inl (HostCallPreconditionFailed (HcNotImplemented ''thread operations''))"

definition function_execute ::
  "host_function \<Rightarrow> lion_state \<Rightarrow> host_call \<Rightarrow> host_result \<Rightarrow> step_error + lion_state" where
  "function_execute f s hc result =
     (case f of
        FnCapCall \<Rightarrow> hc_cap_call s hc result
      | FnCapSend \<Rightarrow> hc_cap_send s hc result
      | FnKernelAlloc \<Rightarrow> hc_kernel_alloc s hc
      | FnMemFree \<Rightarrow> hc_mem_free s hc
      | FnCapRevoke \<Rightarrow> hc_cap_revoke s hc
      | FnDeclassify \<Rightarrow> hc_declassify s hc
      | _ \<Rightarrow> not_implemented)"

section \<open>The operations in place\<close>

definition hc_cap_call_mut :: "lion_state \<Rightarrow> host_call \<Rightarrow> host_result \<Rightarrow> step_error + lion_state" where
  "hc_cap_call_mut s hc result =
     and_then (ok_or (get_plugin s (hc_caller hc)) (StepPluginNotFound (hc_caller hc))) (\<lambda>p.
       let has_valid_cap = list_ex (rev_is_valid (ks_revocation (st_kernel s))) (pg_held_caps p)
       in if \<not> has_valid_cap then Inl (HostCallPreconditionFailed NoValidCapability) else Inr s)"

definition hc_cap_send_mut :: "lion_state \<Rightarrow> host_call \<Rightarrow> host_result \<Rightarrow> step_error + lion_state" where
  "hc_cap_send_mut s hc result =
     (if hr_new_msgs result = [] then Inl (HostCallPreconditionFailed NoMessage)
      else and_then (send_loop s hc (hr_new_msgs result)) (\<lambda>_. Inr s))"

definition hc_kernel_alloc_mut :: "lion_state \<Rightarrow> host_call \<Rightarrow> step_error + lion_state" where
  "hc_kernel_alloc_mut s hc =
     (let n = (case first_arg hc of Some a \<Rightarrow> a | None \<Rightarrow> 0)
      in and_then (ok_or (get_plugin s (hc_caller hc)) (StepPluginNotFound (hc_caller hc))) (\<lambda>p.
           if \<not> can_alloc_memory p n
           then Inl (QuotaExceeded 0 n (pg_memory_used p) (pg_memory_quota p))
           else let (_, s1) = apply_alloc_mut s (hc_caller hc) n
                in Inr (modify_plugin s1 (hc_caller hc) (add_memory_used n))))"

definition hc_mem_free_mut :: "lion_state \<Rightarrow> host_call \<Rightarrow> step_error + lion_state" where
  "hc_mem_free_mut s hc =
     and_then (ok_or (first_arg hc) (HostCallPreconditionFailed NoAddress)) (\<lambda>addr.
       if is_freed (st_ghost s) addr then Inl (AddressAlreadyFreed addr)
       else case find_valid_targeting s addr of
              Some cap_id \<Rightarrow> Inl (CapabilityTargetsAddress cap_id addr)
            | None \<Rightarrow> map_err (\<lambda>e. HostCallPreconditionFailed (FreeFailed e)) (apply_free_mut s addr))"

definition hc_cap_revoke_mut :: "lion_state \<Rightarrow> host_call \<Rightarrow> step_error + lion_state" where
  "hc_cap_revoke_mut s hc =
     and_then (ok_or (map_option ucast (first_arg hc)) (HostCallPreconditionFailed NoCapabilityId)) (\<lambda>cap_id.
       if rev_get (ks_revocation (st_kernel s)) cap_id = None then Inl (StepCapabilityNotFound cap_id)
       else map_err (\<lambda>_. StepCapabilityNotFound cap_id) (apply_cap_revoke_mut s cap_id))"

definition hc_declassify_mut :: "lion_state \<Rightarrow> host_call \<Rightarrow> step_error + lion_state" where
  "hc_declassify_mut s hc =
     (let new_level_val = (case first_arg hc of Some a \<Rightarrow> a | None \<Rightarrow> 0)
      in and_then (declassify_level new_level_val) (\<lambda>new_level.
         and_then (ok_or (get_plugin s (hc_caller hc)) (StepPluginNotFound (hc_caller hc))) (\<lambda>p.
           if new_level > pg_level p then Inl (HostCallPreconditionFailed CannotClassifyUp)
           else Inr (modify_plugin s (hc_caller hc) (set_level new_level)))))"

definition function_execute_mut ::
  "host_function \<Rightarrow> lion_state \<Rightarrow> host_call \<Rightarrow> host_result \<Rightarrow> step_error + lion_state" where
  "function_execute_mut f s hc result =
     (case f of
        FnCapCall \<Rightarrow> hc_cap_call_mut s hc result
      | FnCapSend \<Rightarrow> hc_cap_send_mut s hc result
      | FnKernelAlloc \<Rightarrow> hc_kernel_alloc_mut s hc
      | FnMemFree \<Rightarrow> hc_mem_free_mut s hc
      | FnCapRevoke \<Rightarrow> hc_cap_revoke_mut s hc
      | FnDeclassify \<Rightarrow> hc_declassify_mut s hc
      | _ \<Rightarrow> not_implemented)"

section \<open>Their effect\<close>

lemma find_valid_targeting_None:
  "find_valid_targeting s a = None \<longleftrightarrow> \<not> any_valid_targeting (ks_revocation (st_kernel s)) (ucast a)"
  by (auto simp: find_valid_targeting_def find_None_all any_valid_targeting_def list_ex_iff)

lemma required_action_Inr:
  "required_action hc = Inr a \<Longrightarrow> ac_subject a = hc_caller hc \<and>
     (case hc_function hc of
        FnCapCall \<Rightarrow> ac_rights a = rights_singleton Read \<and> (\<exists>x. first_arg hc = Some x \<and> ac_target a = ucast x)
      | FnMemFree \<Rightarrow> ac_rights a = rights_singleton Delete \<and> (\<exists>x. first_arg hc = Some x \<and> ac_target a = ucast x)
      | FnCapRevoke \<Rightarrow> ac_rights a = rights_singleton Revoke \<and> (\<exists>x. first_arg hc = Some x \<and> ac_target a = ucast x)
      | FnKernelAlloc \<Rightarrow> ac_rights a = rights_singleton Create \<and> ac_target a = 0
      | FnDeclassify \<Rightarrow> ac_rights a = rights_singleton right.Declassify \<and> ac_target a = 0
      | FnCapSend \<Rightarrow> ac_rights a = rights_singleton Send \<and> ac_target a = 0
      | _ \<Rightarrow> False)"
  by (cases "hc_function hc")
    (auto simp: required_action_def map_policy_err_def action_new_def and_then_Inr_iff ok_or_Inr_iff)

lemma hc_find_oob_None:
  "hc_find_oob_read hc p = None \<longleftrightarrow> (\<forall>(addr, sz) \<in> set (hc_reads hc). addr_in_bounds (pg_memory p) addr sz)"
  "hc_find_oob_write hc p = None \<longleftrightarrow> (\<forall>(addr, sz) \<in> set (hc_writes hc). addr_in_bounds (pg_memory p) addr sz)"
  by (auto simp: hc_find_oob_read_def hc_find_oob_write_def find_map_None_iff split: if_splits)

lemma hc_check_preconditions_ok:
  "hc_check_preconditions hc s = Inr u \<longleftrightarrow> (\<exists>p. get_plugin s (hc_caller hc) = Some p
     \<and> (\<forall>(addr, sz) \<in> set (hc_reads hc). addr_in_bounds (pg_memory p) addr sz)
     \<and> (\<forall>(addr, sz) \<in> set (hc_writes hc). addr_in_bounds (pg_memory p) addr sz))"
  unfolding hc_find_oob_None [symmetric]
  by (cases "get_plugin s (hc_caller hc)") (auto simp: hc_check_preconditions_def split: option.splits)

definition arg_or_zero :: "host_call \<Rightarrow> u64" where
  "arg_or_zero hc = (case first_arg hc of Some a \<Rightarrow> a | None \<Rightarrow> 0)"

lemma hc_cap_call_Inr: "hc_cap_call s hc r = Inr s' \<Longrightarrow> s' = s"
  by (auto simp: hc_cap_call_def and_then_Inr_iff Let_def split: if_splits)

lemma hc_cap_send_Inr: "hc_cap_send s hc r = Inr s' \<Longrightarrow> s' = s"
  by (auto simp: hc_cap_send_def and_then_Inr_iff split: if_splits)

lemma send_loop_ok:
  "send_loop s hc ms = Inr u \<longleftrightarrow> (\<forall>m \<in> set ms. mg_src m = hc_caller hc \<and>
     (\<exists>a. get_actor s (mg_dst m) = Some a \<and> length (ar_mailbox a) < ar_capacity a))"
proof (induction ms)
  case (Cons m ms)
  then show ?case by (cases "get_actor s (mg_dst m)") auto
qed simp

lemma hc_kernel_alloc_Inr:
  "hc_kernel_alloc s hc = Inr s' \<longleftrightarrow> (\<exists>p. get_plugin s (hc_caller hc) = Some p
     \<and> can_alloc_memory p (arg_or_zero hc)
     \<and> s' = modify_plugin (apply_alloc s (hc_caller hc) (arg_or_zero hc)) (hc_caller hc)
              (add_memory_used (arg_or_zero hc)))"
  by (cases "get_plugin s (hc_caller hc)") (auto simp: hc_kernel_alloc_def arg_or_zero_def Let_def)

lemma hc_mem_free_Inr:
  "hc_mem_free s hc = Inr s' \<longleftrightarrow> (\<exists>a. first_arg hc = Some a \<and> \<not> is_freed (st_ghost s) a
     \<and> apply_free s a = Inr s')"
proof (cases "first_arg hc")
  case (Some a)
  then show ?thesis
    using find_valid_targeting_None [of s a]
    by (auto simp: hc_mem_free_def apply_free_Inr map_err_Inr_iff split: option.splits if_splits)
qed (simp add: hc_mem_free_def)

lemma hc_mem_free_mut_Inr:
  "hc_mem_free_mut s hc = Inr s' \<longleftrightarrow> (\<exists>a. first_arg hc = Some a \<and> \<not> is_freed (st_ghost s) a
     \<and> apply_free_mut s a = Inr s')"
proof (cases "first_arg hc")
  case (Some a)
  then show ?thesis
    using find_valid_targeting_None [of s a]
    by (auto simp: hc_mem_free_mut_def apply_free_mut_Inr map_err_Inr_iff split: option.splits if_splits)
qed (simp add: hc_mem_free_mut_def)

lemma hc_cap_revoke_Inr:
  "hc_cap_revoke s hc = Inr s' \<longleftrightarrow> (\<exists>k. first_arg hc = Some k \<and> get_cap s (ucast k) \<noteq> None
     \<and> s' = apply_cap_revoke s (ucast k))"
  by (cases "first_arg hc") (auto simp: hc_cap_revoke_def get_cap_def)

lemma hc_cap_revoke_mut_Inr:
  "hc_cap_revoke_mut s hc = Inr s' \<longleftrightarrow> (\<exists>k. first_arg hc = Some k \<and> get_cap s (ucast k) \<noteq> None
     \<and> apply_cap_revoke_mut s (ucast k) = Inr s')"
  by (cases "first_arg hc") (auto simp: hc_cap_revoke_mut_def get_cap_def map_err_Inr_iff)

lemma hc_declassify_Inr:
  "hc_declassify s hc = Inr s' \<longleftrightarrow> (\<exists>l p. declassify_level (arg_or_zero hc) = Inr l
     \<and> get_plugin s (hc_caller hc) = Some p \<and> l \<le> pg_level p
     \<and> s' = modify_plugin s (hc_caller hc) (set_level l))"
  by (cases "get_plugin s (hc_caller hc)"; cases "declassify_level (arg_or_zero hc)")
    (auto simp: hc_declassify_def arg_or_zero_def Let_def not_less)

lemma hc_mut_eqs:
  "hc_cap_call_mut s hc r = hc_cap_call s hc r" "hc_cap_send_mut s hc r = hc_cap_send s hc r"
  "hc_declassify_mut s hc = hc_declassify s hc"
  by (simp_all add: hc_cap_call_mut_def hc_cap_call_def hc_cap_send_mut_def hc_cap_send_def
      hc_declassify_mut_def hc_declassify_def)

lemma hc_kernel_alloc_mut_eq: "hc_kernel_alloc_mut s hc = hc_kernel_alloc s hc"
proof (cases "get_plugin s (hc_caller hc)")
  case (Some p)
  then show ?thesis
    by (cases "can_alloc_memory p (case first_arg hc of Some a \<Rightarrow> a | None \<Rightarrow> 0)")
      (simp_all add: hc_kernel_alloc_mut_def hc_kernel_alloc_def apply_alloc_mut_eq Let_def)
qed (simp add: hc_kernel_alloc_mut_def hc_kernel_alloc_def)

section \<open>Constructors and aliases\<close>

datatype resource_type = RtMemory u64 | RtCapability u64 | RtActor u64

definition CAP_INVOKE :: "host_function" where
  "CAP_INVOKE = FnCapCall"

definition IPC_SEND :: "host_function" where
  "IPC_SEND = FnCapSend"

definition MEM_ALLOC :: "host_function" where
  "MEM_ALLOC = FnKernelAlloc"

definition host_call_new :: "plugin_id \<Rightarrow> host_function \<Rightarrow> u64 list \<Rightarrow> (mem_addr \<times> mem_size) list
    \<Rightarrow> (mem_addr \<times> mem_size) list \<Rightarrow> host_call" where
  "host_call_new p f xs rs ws = 
     \<lparr>hc_caller = p, hc_function = f, hc_args = xs, hc_reads = rs, hc_writes = ws\<rparr>"

definition result_with_caps :: "capability list \<Rightarrow> host_result" where
  "result_with_caps cs = \<lparr>hr_new_caps = cs, hr_new_msgs = []\<rparr>"

definition result_with_msgs :: "message list \<Rightarrow> host_result" where
  "result_with_msgs ms = \<lparr>hr_new_caps = [], hr_new_msgs = ms\<rparr>"

text \<open>A send call needs a result that carries messages: the empty result and one that carries only
  capabilities are refused.\<close>

lemma send_needs_messages:
  "hc_cap_send s hc result_empty = Inl (HostCallPreconditionFailed host_call_precondition.NoMessage)"
  "hc_cap_send s hc (result_with_caps cs) = Inl (HostCallPreconditionFailed host_call_precondition.NoMessage)"
  by (simp_all add: hc_cap_send_def result_empty_def result_with_caps_def)

end
