(* ===== verification/LionStep.thy ===== *)
theory LionStep
  imports LionHostCall
begin

text \<open>
  Steps (\<open>step/mod.rs\<close>): the five kinds, atomic authorization of a host call, and the two
  execution paths, \<open>step_execute\<close> on an immutable state and \<open>step_execute_mut\<close> in place.
  \<open>lion_trans\<close> is the abstract transition both refine.
\<close>

datatype step =
  StPluginInternal plugin_id plugin_internal
| StHostCall host_call authorized host_result
| StKernelInternal kernel_op
| StMemFree plugin_id mem_addr
| StCapRevoke plugin_id cap_id

section \<open>Construction and observers\<close>

definition host_call_atomic ::
  "lion_state \<Rightarrow> host_call \<Rightarrow> cap_id \<Rightarrow> policy_context \<Rightarrow> host_result \<Rightarrow> step_error + step" where
  "host_call_atomic s hc cap_id ctx result =
     and_then (ok_or (get_cap s cap_id) (StepCapabilityNotFound cap_id)) (\<lambda>cap.
     and_then (required_action hc) (\<lambda>action.
     if cp_holder cap \<noteq> hc_caller hc
     then Inl (AuthorizationFailed (HolderMismatch (hc_caller hc) (cp_holder cap)))
     else and_then (map_err AuthorizationFailed (validate_atomic s cap action ctx)) (\<lambda>auth.
            Inr (StHostCall hc auth result))))"

definition step_is_effectful :: "step \<Rightarrow> bool" where
  "step_is_effectful st \<longleftrightarrow> (case st of StHostCall _ _ _ \<Rightarrow> True | _ \<Rightarrow> False)"

fun step_subject :: "step \<Rightarrow> plugin_id option" where
  "step_subject (StPluginInternal pid _) = Some pid"
| "step_subject (StHostCall hc _ _) = Some (hc_caller hc)"
| "step_subject (StKernelInternal _) = None"
| "step_subject (StMemFree caller _) = Some caller"
| "step_subject (StCapRevoke caller _) = Some caller"

definition step_level :: "step \<Rightarrow> lion_state \<Rightarrow> security_level" where
  "step_level st s =
     (case step_subject st of
        Some pid \<Rightarrow> (case plugin_level s pid of Some l \<Rightarrow> l | None \<Rightarrow> Public)
      | None \<Rightarrow> Secret)"

definition step_is_declassify :: "step \<Rightarrow> bool" where
  "step_is_declassify st \<longleftrightarrow> (case st of StHostCall hc _ _ \<Rightarrow> hc_function hc = FnDeclassify | _ \<Rightarrow> False)"

section \<open>Execution\<close>

fun write_check_loop :: "plugin_state \<Rightarrow> (mem_addr \<times> mem_size) list \<Rightarrow> step_error + unit" where
  "write_check_loop p [] = Inr ()"
| "write_check_loop p ((addr, sz) # ws) =
     (if \<not> addr_in_bounds (pg_memory p) addr 1
      then Inl (PluginPreconditionFailed (PlWriteOutOfBounds addr 1 (memory_bounds p)))
      else write_check_loop p ws)"

definition consume_from :: "lion_state \<Rightarrow> actor_id \<Rightarrow> lion_state" where
  "consume_from s pid =
     (case get_actor s pid of
        Some _ \<Rightarrow> modify_actor s pid (\<lambda>a. snd (consume_mut a))
      | None \<Rightarrow> s)"

definition execute_plugin_internal ::
  "lion_state \<Rightarrow> plugin_id \<Rightarrow> plugin_internal \<Rightarrow> step_error + lion_state" where
  "execute_plugin_internal s pid d =
     and_then (ok_or (get_plugin s pid) (StepPluginNotFound pid)) (\<lambda>p.
     and_then (pi_check_preconditions d s pid) (\<lambda>_.
     case get_plugin s pid of
       Some _ \<Rightarrow> and_then (write_check_loop p (pi_writes d)) (\<lambda>_.
                   Inr (if pi_consume_mailbox d then consume_from s pid else s))
     | None \<Rightarrow> Inr s))"

definition execute_host_call ::
  "lion_state \<Rightarrow> host_call \<Rightarrow> authorized \<Rightarrow> host_result \<Rightarrow> step_error + lion_state" where
  "execute_host_call s hc auth result =
     (if ac_subject (au_action auth) \<noteq> hc_caller hc
      then Inl (AuthorizationFailed (HolderMismatch (ac_subject (au_action auth)) (hc_caller hc)))
      else and_then (required_action hc) (\<lambda>derived.
        if derived \<noteq> au_action auth
        then Inl (StepInvalidTransition (IncompatibleStates ''authorized host call'' ''mismatched host call''))
        else and_then (map_err AuthorizationFailed (auth_validate auth s)) (\<lambda>_.
             and_then (hc_check_preconditions hc s) (\<lambda>_.
             function_execute (hc_function hc) s hc result))))"

definition execute_mem_free :: "lion_state \<Rightarrow> mem_addr \<Rightarrow> step_error + lion_state" where
  "execute_mem_free s addr =
     (if is_freed (st_ghost s) addr then Inl (AddressAlreadyFreed addr)
      else case find_valid_targeting s addr of
             Some cap_id \<Rightarrow> Inl (CapabilityTargetsAddress cap_id addr)
           | None \<Rightarrow> map_err StepStateError (apply_free s addr))"

definition execute_cap_revoke :: "lion_state \<Rightarrow> cap_id \<Rightarrow> step_error + lion_state" where
  "execute_cap_revoke s cap_id =
     (if rev_get (ks_revocation (st_kernel s)) cap_id = None then Inl (StepCapabilityNotFound cap_id)
      else Inr (apply_cap_revoke s cap_id))"

fun step_execute :: "step \<Rightarrow> lion_state \<Rightarrow> step_error + lion_state" where
  "step_execute (StPluginInternal pid d) s = execute_plugin_internal s pid d"
| "step_execute (StHostCall hc auth result) s = execute_host_call s hc auth result"
| "step_execute (StKernelInternal op) s = kernel_op_execute op s"
| "step_execute (StMemFree caller addr) s = execute_mem_free s addr"
| "step_execute (StCapRevoke caller cap_id) s = execute_cap_revoke s cap_id"

definition execute_plugin_internal_mut ::
  "lion_state \<Rightarrow> plugin_id \<Rightarrow> plugin_internal \<Rightarrow> step_error + lion_state" where
  "execute_plugin_internal_mut s pid d =
     and_then (ok_or (get_plugin s pid) (StepPluginNotFound pid)) (\<lambda>p.
     and_then (pi_check_preconditions d s pid) (\<lambda>_.
     and_then (write_check_loop p (pi_writes d)) (\<lambda>_.
       Inr (if pi_consume_mailbox d then consume_from s pid else s))))"

definition execute_host_call_mut ::
  "lion_state \<Rightarrow> host_call \<Rightarrow> authorized \<Rightarrow> host_result \<Rightarrow> step_error + lion_state" where
  "execute_host_call_mut s hc auth result =
     (if ac_subject (au_action auth) \<noteq> hc_caller hc
      then Inl (AuthorizationFailed (HolderMismatch (ac_subject (au_action auth)) (hc_caller hc)))
      else and_then (required_action hc) (\<lambda>derived.
        if derived \<noteq> au_action auth
        then Inl (StepInvalidTransition (IncompatibleStates ''authorized host call'' ''mismatched host call''))
        else and_then (map_err AuthorizationFailed (auth_validate auth s)) (\<lambda>_.
             and_then (hc_check_preconditions hc s) (\<lambda>_.
             function_execute_mut (hc_function hc) s hc result))))"

definition execute_mem_free_mut :: "lion_state \<Rightarrow> mem_addr \<Rightarrow> step_error + lion_state" where
  "execute_mem_free_mut s addr =
     (if is_freed (st_ghost s) addr then Inl (AddressAlreadyFreed addr)
      else case find_valid_targeting s addr of
             Some cap_id \<Rightarrow> Inl (CapabilityTargetsAddress cap_id addr)
           | None \<Rightarrow> map_err StepStateError (apply_free_mut s addr))"

definition execute_cap_revoke_mut :: "lion_state \<Rightarrow> cap_id \<Rightarrow> step_error + lion_state" where
  "execute_cap_revoke_mut s cap_id =
     (if rev_get (ks_revocation (st_kernel s)) cap_id = None then Inl (StepCapabilityNotFound cap_id)
      else map_err (\<lambda>_. StepCapabilityNotFound cap_id) (apply_cap_revoke_mut s cap_id))"

fun step_execute_mut :: "step \<Rightarrow> lion_state \<Rightarrow> step_error + lion_state" where
  "step_execute_mut (StPluginInternal pid d) s = execute_plugin_internal_mut s pid d"
| "step_execute_mut (StHostCall hc auth result) s = execute_host_call_mut s hc auth result"
| "step_execute_mut (StKernelInternal op) s = kernel_op_execute_mut op s"
| "step_execute_mut (StMemFree caller addr) s = execute_mem_free_mut s addr"
| "step_execute_mut (StCapRevoke caller cap_id) s = execute_cap_revoke_mut s cap_id"

fun reachable_loop :: "lion_state \<Rightarrow> step list \<Rightarrow> step_error + lion_state" where
  "reachable_loop current [] = Inr current"
| "reachable_loop current (st # sts) =
     and_then (step_execute st current) (\<lambda>next_state. reachable_loop next_state sts)"

definition reachable :: "lion_state \<Rightarrow> lion_state \<Rightarrow> step list \<Rightarrow> step_error + bool" where
  "reachable start target steps =
     and_then (reachable_loop start steps) (\<lambda>current. Inr (state_time current = state_time target))"

section \<open>What a successful step did\<close>

lemma write_check_loop_ok:
  "write_check_loop p ws = Inr u \<longleftrightarrow> (\<forall>(addr, sz) \<in> set ws. addr_in_bounds (pg_memory p) addr 1)"
  by (induction p ws rule: write_check_loop.induct) auto

lemma plugin_internal_mut_eq: "execute_plugin_internal_mut s pid d = execute_plugin_internal s pid d"
  by (cases "get_plugin s pid") (simp_all add: execute_plugin_internal_mut_def execute_plugin_internal_def)

lemma execute_plugin_internal_Inr:
  "execute_plugin_internal s pid d = Inr s' \<Longrightarrow>
     get_plugin s pid \<noteq> None \<and> s' = (if pi_consume_mailbox d then consume_from s pid else s)"
  by (cases "get_plugin s pid") (auto simp: execute_plugin_internal_def and_then_Inr_iff)

lemma execute_host_call_Inr:
  "execute_host_call s hc auth r = Inr s' \<longleftrightarrow> required_action hc = Inr (au_action auth)
     \<and> ac_subject (au_action auth) = hc_caller hc \<and> mediated s auth
     \<and> is_ok (hc_check_preconditions hc s) \<and> function_execute (hc_function hc) s hc r = Inr s'"
  by (auto simp: execute_host_call_def and_then_Inr_iff map_err_Inr_iff auth_validate_ok is_ok_iff
      split: if_splits)

lemma execute_host_call_mut_Inr:
  "execute_host_call_mut s hc auth r = Inr s' \<longleftrightarrow> required_action hc = Inr (au_action auth)
     \<and> ac_subject (au_action auth) = hc_caller hc \<and> mediated s auth
     \<and> is_ok (hc_check_preconditions hc s) \<and> function_execute_mut (hc_function hc) s hc r = Inr s'"
  by (auto simp: execute_host_call_mut_def and_then_Inr_iff map_err_Inr_iff auth_validate_ok is_ok_iff
      split: if_splits)

lemma execute_mem_free_Inr:
  "execute_mem_free s a = Inr s' \<longleftrightarrow> \<not> is_freed (st_ghost s) a \<and> apply_free s a = Inr s'"
  using find_valid_targeting_None [of s a]
  by (auto simp: execute_mem_free_def apply_free_Inr map_err_Inr_iff split: option.splits if_splits)

lemma execute_mem_free_mut_Inr:
  "execute_mem_free_mut s a = Inr s' \<longleftrightarrow> apply_free_mut s a = Inr s'"
proof -
  have "meta_free_mut (st_ghost s) a = Inr g \<Longrightarrow> \<not> is_freed (st_ghost s) a" for g
    by (auto simp: meta_free_mut_def)
  then show ?thesis
    using find_valid_targeting_None [of s a]
    by (auto simp: execute_mem_free_mut_def apply_free_mut_Inr map_err_Inr_iff split: option.splits if_splits)
qed

lemma execute_cap_revoke_Inr:
  "execute_cap_revoke s k = Inr s' \<longleftrightarrow> get_cap s k \<noteq> None \<and> s' = apply_cap_revoke s k"
  by (auto simp: execute_cap_revoke_def get_cap_def)

lemma execute_cap_revoke_mut_Inr:
  "execute_cap_revoke_mut s k = Inr s' \<longleftrightarrow> get_cap s k \<noteq> None \<and> apply_cap_revoke_mut s k = Inr s'"
  by (auto simp: execute_cap_revoke_mut_def get_cap_def map_err_Inr_iff)

lemma reachable_loop_run: "reachable_loop s sts = run_all step_execute sts s"
  by (induction sts arbitrary: s) (auto split: sum.splits simp: and_then_def)

section \<open>Kernel-internal execution\<close>

definition execute_kernel_internal :: "lion_state \<Rightarrow> kernel_op \<Rightarrow> step_error + lion_state" where
  "execute_kernel_internal s op = kernel_op_execute op s"

definition execute_kernel_internal_mut :: "lion_state \<Rightarrow> kernel_op \<Rightarrow> step_error + lion_state" where
  "execute_kernel_internal_mut s op = kernel_op_execute_mut op s"

lemma step_kernel_internal:
  "step_execute (StKernelInternal op) s = execute_kernel_internal s op"
  "step_execute_mut (StKernelInternal op) s = execute_kernel_internal_mut s op"
  by (simp_all add: execute_kernel_internal_def execute_kernel_internal_mut_def)

end
