(* ===== verification/LionSystem.thy ===== *)
theory LionSystem
  imports LionStep
begin

text \<open>
  The step system as a whole. \<open>lion_trans\<close> is an abstract specification of a transition: the ten
  things a step may do to the state. Both execution paths refine it, so the invariants and the
  order \<open>state_progress\<close> are proved once, by cases on it, and reach the code through the
  interpretations \<open>pure\<close> and \<open>inplace\<close> of the run contracts.
\<close>

section \<open>Abstract transitions\<close>

inductive lion_trans :: "lion_state \<Rightarrow> lion_state \<Rightarrow> bool" where
  tr_same: "lion_trans s s"
| tr_consume: "lion_trans s (modify_actor s aid (\<lambda>a. snd (consume_mut a)))"
| tr_deliver: "lion_trans s (modify_actor s aid deliver)"
| tr_unblock: "lion_trans s (modify_actor s aid unblock)"
| tr_tick: "state_tick s = Inr s' \<Longrightarrow> lion_trans s s'"
| tr_alloc: "get_plugin s pid = Some p \<Longrightarrow> can_alloc_memory p n \<Longrightarrow>
    lion_trans s (modify_plugin (apply_alloc s pid n) pid (add_memory_used n))"
| tr_free: "apply_free s a = Inr s' \<Longrightarrow> lion_trans s s'"
| tr_free_mut: "apply_free_mut s a = Inr s' \<Longrightarrow> lion_trans s s'"
| tr_revoke: "get_cap s k \<noteq> None \<Longrightarrow> lion_trans s (with_revocation s (marked P (ks_revocation (st_kernel s))))"
| tr_declassify: "get_plugin s pid = Some p \<Longrightarrow> l \<le> pg_level p \<Longrightarrow>
    lion_trans s (modify_plugin s pid (set_level l))"

inductive_cases lion_transE: "lion_trans s s'"

lemma function_execute_trans:
  assumes "function_execute f s hc r = Inr s'"
  shows "lion_trans s s'"
  using assms
proof (cases f)
  case FnCapCall
  with assms show ?thesis by (auto simp: function_execute_def dest: hc_cap_call_Inr intro: tr_same)
next
  case FnCapSend
  with assms show ?thesis by (auto simp: function_execute_def dest: hc_cap_send_Inr intro: tr_same)
next
  case FnKernelAlloc
  with assms show ?thesis by (auto simp: function_execute_def hc_kernel_alloc_Inr intro: tr_alloc)
next
  case FnMemFree
  with assms show ?thesis by (auto simp: function_execute_def hc_mem_free_Inr intro: tr_free)
next
  case FnCapRevoke
  with assms show ?thesis
    by (auto simp: function_execute_def hc_cap_revoke_Inr apply_cap_revoke_def revoke_transitive_marked
        intro!: tr_revoke)
next
  case FnDeclassify
  with assms show ?thesis by (auto simp: function_execute_def hc_declassify_Inr intro: tr_declassify)
qed (simp_all add: function_execute_def not_implemented_def)

lemma apply_cap_revoke_mut_trans:
  assumes "state_wf s" and "get_cap s k = Some c" and "apply_cap_revoke_mut s k = Inr s'"
  shows "lion_trans s s'"
proof -
  have "s' = with_revocation s (revoke_transitive_fast (ks_revocation (st_kernel s)) k)"
    using assms by (auto simp: apply_cap_revoke_mut_eq)
  then show ?thesis
    using state_wf_parts(2) [OF assms(1)] assms(2)
    by (auto simp: revoke_transitive_fast_marked intro!: tr_revoke)
qed

lemma function_execute_mut_trans:
  assumes "state_wf s" and "function_execute_mut f s hc r = Inr s'"
  shows "lion_trans s s'"
proof (cases "f = FnMemFree \<or> f = FnCapRevoke")
  case True
  with assms show ?thesis
    by (auto simp: function_execute_mut_def hc_mem_free_mut_Inr hc_cap_revoke_mut_Inr
        intro: tr_free_mut apply_cap_revoke_mut_trans [OF assms(1)])
next
  case False
  then have "function_execute_mut f s hc r = function_execute f s hc r"
    by (cases f) (simp_all add: function_execute_mut_def function_execute_def hc_mut_eqs hc_kernel_alloc_mut_eq)
  then show ?thesis using assms(2) function_execute_trans by simp
qed

lemma kernel_op_trans: "kernel_op_execute op s = Inr s' \<Longrightarrow> lion_trans s s'"
proof -
  assume "kernel_op_execute op s = Inr s'"
  note this [unfolded kernel_op_Inr]
  then show ?thesis by (cases op) (auto intro: lion_trans.intros)
qed

lemma plugin_internal_trans: "execute_plugin_internal s pid d = Inr s' \<Longrightarrow> lion_trans s s'"
  by (auto dest!: execute_plugin_internal_Inr simp: consume_from_def
      intro: lion_trans.intros split: option.splits)

lemma step_execute_trans: "step_execute st s = Inr s' \<Longrightarrow> lion_trans s s'"
proof (cases st)
  case (StCapRevoke pid k)
  assume "step_execute st s = Inr s'"
  with StCapRevoke show ?thesis
    by (auto simp: execute_cap_revoke_Inr apply_cap_revoke_def revoke_transitive_marked intro!: tr_revoke)
qed (auto simp: execute_host_call_Inr execute_mem_free_Inr
    intro: plugin_internal_trans function_execute_trans kernel_op_trans tr_free)

lemma step_execute_mut_trans: "state_wf s \<Longrightarrow> step_execute_mut st s = Inr s' \<Longrightarrow> lion_trans s s'"
  by (cases st) (auto simp: execute_host_call_mut_Inr execute_mem_free_mut_Inr execute_cap_revoke_mut_Inr
      plugin_internal_mut_eq kernel_op_mut_eq
      intro: plugin_internal_trans function_execute_mut_trans kernel_op_trans tr_free_mut
        apply_cap_revoke_mut_trans [of s])

section \<open>Invariant and progress\<close>

lemma plugin_wf_add_memory: "plugin_wf p \<Longrightarrow> can_alloc_memory p n \<Longrightarrow> plugin_wf (add_memory_used n p)"
  by (simp add: plugin_wf_def add_memory_used_def alloc_used_exact(2))

lemma plugin_wf_set_level [simp]: "plugin_wf (set_level l p) = plugin_wf p"
  by (simp add: plugin_wf_def set_level_def)

lemma get_apply_alloc [simp]:
  "get_plugin (apply_alloc s pid n) = get_plugin s" "get_actor (apply_alloc s pid n) = get_actor s"
  "st_kernel (apply_alloc s pid n) = st_kernel s" "st_workflows (apply_alloc s pid n) = st_workflows s"
  "st_resources (apply_alloc s pid n) = st_resources s" "st_actors (apply_alloc s pid n) = st_actors s"
  by (simp_all add: apply_alloc_eq)

lemma get_with_revocation [simp]:
  "get_plugin (with_revocation s r) = get_plugin s" "get_actor (with_revocation s r) = get_actor s"
  "get_workflow (with_revocation s r) = get_workflow s"
  by (simp_all add: with_revocation_eq)

lemma lion_trans_wf: "lion_trans s s' \<Longrightarrow> state_wf s \<Longrightarrow> state_wf s'"
proof (induction rule: lion_trans.induct)
  case (tr_alloc s pid p n)
  have "plugin_wf (add_memory_used n q)" if "get_plugin (apply_alloc s pid n) pid = Some q" for q
    using that tr_alloc state_wf_parts(5) [OF tr_alloc(3)] by (simp add: plugin_wf_add_memory)
  then show ?case using state_wf_alloc [OF tr_alloc(3)] by (intro state_wf_modify_plugin)
next
  case (tr_declassify s pid p l)
  then show ?case using state_wf_parts(5) [of s] by (intro state_wf_modify_plugin) auto
next
  case (tr_revoke s k P)
  then show ?case
    using state_wf_parts(2) [of s] by (auto simp: with_revocation_eq intro!: state_wf_revocation marked_wf)
next
  case (tr_consume s aid)
  then show ?case using state_wf_parts(6) [of s] by (intro state_wf_modify_actor) auto
next
  case (tr_deliver s aid)
  then show ?case using state_wf_parts(6) [of s] by (intro state_wf_modify_actor) auto
next
  case (tr_unblock s aid)
  then show ?case using state_wf_parts(6) [of s] by (intro state_wf_modify_actor) auto
qed (auto intro: state_tick_wf state_wf_free state_wf_free_mut)

definition plugin_progress :: "plugin_state \<Rightarrow> plugin_state \<Rightarrow> bool" where
  "plugin_progress p q \<longleftrightarrow> pg_level q \<le> pg_level p \<and> pg_held_caps q = pg_held_caps p
     \<and> pg_memory q = pg_memory p \<and> pg_memory_used p \<le> pg_memory_used q
     \<and> pg_memory_quota q = pg_memory_quota p \<and> pg_cap_quota q = pg_cap_quota p
     \<and> pg_ipc_queue_limit q = pg_ipc_queue_limit p"

definition cap_progress :: "capability \<Rightarrow> capability \<Rightarrow> bool" where
  "cap_progress c d \<longleftrightarrow> d = c \<or> d = cap_revoke c"

definition state_progress :: "lion_state \<Rightarrow> lion_state \<Rightarrow> bool" where
  "state_progress s s' \<longleftrightarrow>
     (\<forall>a. is_freed (st_ghost s) a \<longrightarrow> is_freed (st_ghost s') a)
     \<and> (\<forall>k. rel_option cap_progress (get_cap s k) (get_cap s' k))
     \<and> (\<forall>pid. rel_option plugin_progress (get_plugin s pid) (get_plugin s' pid))
     \<and> state_time s \<le> state_time s'
     \<and> ks_policy (st_kernel s') = ks_policy (st_kernel s)
     \<and> ks_key_state (st_kernel s') = ks_key_state (st_kernel s)
     \<and> ks_next_cap_id (st_kernel s') = ks_next_cap_id (st_kernel s)
     \<and> st_resources s' = st_resources s \<and> st_workflows s' = st_workflows s"

lemma plugin_progress_refl [simp]: "plugin_progress p p"
  by (simp add: plugin_progress_def)

lemma plugin_progress_trans: "plugin_progress p q \<Longrightarrow> plugin_progress q r \<Longrightarrow> plugin_progress p r"
  by (auto simp: plugin_progress_def)

lemma cap_progress_refl [simp]: "cap_progress c c"
  by (simp add: cap_progress_def)

lemma cap_progress_trans: "cap_progress c d \<Longrightarrow> cap_progress d e \<Longrightarrow> cap_progress c e"
  by (auto simp: cap_progress_def)

lemma rel_option_refl_all: "(\<And>x. R x x) \<Longrightarrow> rel_option R o1 o1"
  by (cases o1) simp_all

lemma rel_option_transp:
  "(\<And>x y z. R x y \<Longrightarrow> R y z \<Longrightarrow> R x z) \<Longrightarrow> rel_option R a b \<Longrightarrow> rel_option R b c \<Longrightarrow> rel_option R a c"
  by (cases a; cases b; cases c) auto

lemma state_progress_refl [simp]: "state_progress s s"
  by (simp add: state_progress_def rel_option_refl_all)

lemma state_progress_trans: "state_progress s t \<Longrightarrow> state_progress t u \<Longrightarrow> state_progress s u"
  unfolding state_progress_def
  by (auto intro: rel_option_transp [OF cap_progress_trans] rel_option_transp [OF plugin_progress_trans])

lemma lion_trans_progress: "lion_trans s s' \<Longrightarrow> state_wf s \<Longrightarrow> state_progress s s'"
proof (induction rule: lion_trans.induct)
  case (tr_alloc s pid p n)
  have le: "pg_memory_used p \<le> saturating_add (pg_memory_used p) n"
    using alloc_used_exact(1) [OF tr_alloc(2)] by (simp add: word_le_nat_alt)
  then have "rel_option plugin_progress (get_plugin s q)
      (get_plugin (modify_plugin (apply_alloc s pid n) pid (add_memory_used n)) q)" for q
    using tr_alloc(1)
    by (auto simp: table_simps plugin_progress_def add_memory_used_def rel_option_refl_all)
  then show ?case
    by (simp add: state_progress_def get_cap_def state_time_def rel_option_refl_all)
      (simp add: apply_alloc_eq)
next
  case (tr_declassify s pid p l)
  then have "rel_option plugin_progress (get_plugin s q) (get_plugin (modify_plugin s pid (set_level l)) q)" for q
    by (auto simp: table_simps plugin_progress_def set_level_def rel_option_refl_all)
  then show ?case by (simp add: state_progress_def get_cap_def state_time_def rel_option_refl_all)
next
  case (tr_revoke s k P)
  have "rel_option cap_progress (rev_get r k) (rev_get (marked P r) k)" for r k
    by (cases "rev_get r k") (simp_all add: marked_get cap_progress_def)
  then show ?case by (simp add: state_progress_def get_cap_def state_time_def rel_option_refl_all)
next
  case (tr_tick s s')
  then show ?case
    using word_le_plus_one by (auto simp: state_progress_def state_tick_Inr get_cap_def state_time_def rel_option_refl_all)
next
  case (tr_free s a s')
  then show ?case
    using state_wf_parts(3) [of s]
    by (auto simp: state_progress_def apply_free_Inr is_freed_free get_cap_def state_time_def rel_option_refl_all)
next
  case (tr_free_mut s a s')
  then show ?case
    using state_wf_parts(3) [of s] is_freed_free_mut [of "st_ghost s" a]
    by (auto simp: state_progress_def apply_free_mut_Inr get_cap_def state_time_def rel_option_refl_all)
qed (simp_all add: state_progress_def get_cap_def state_time_def rel_option_refl_all)

interpretation pure: preorder_system step_execute state_wf state_progress
  by unfold_locales
    (auto intro: lion_trans_wf lion_trans_progress step_execute_trans state_progress_trans)

interpretation inplace: preorder_system step_execute_mut state_wf state_progress
  by unfold_locales
    (auto intro: lion_trans_wf lion_trans_progress step_execute_mut_trans state_progress_trans)

end
