(* ===== verification/LionSafety.thy ===== *)
theory LionSafety
  imports LionSystem
begin

text \<open>
  The security properties of the step system: what whole runs preserve, what a single step may
  touch, complete mediation of host calls, and how the two execution paths relate. \<open>path\<close> names
  the path: the pure \<open>execute\<close> or the in-place \<open>execute_mut\<close>.
\<close>

datatype path = Pure | InPlace

fun exec_on :: "path \<Rightarrow> step \<Rightarrow> lion_state \<Rightarrow> step_error + lion_state" where
  "exec_on Pure = step_execute"
| "exec_on InPlace = step_execute_mut"

lemma exec_on_trans: "state_wf s \<Longrightarrow> exec_on d st s = Inr s' \<Longrightarrow> lion_trans s s'"
  by (cases d) (auto intro: step_execute_trans step_execute_mut_trans)

lemma run_on_wf: "state_wf s \<Longrightarrow> run_all (exec_on d) sts s = Inr s' \<Longrightarrow> state_wf s'"
  by (cases d) (auto intro: pure.run_inv inplace.run_inv)

lemma run_on_progress: "state_wf s \<Longrightarrow> run_all (exec_on d) sts s = Inr s' \<Longrightarrow> state_progress s s'"
  by (cases d) (auto intro: pure.run_rel inplace.run_rel)

section \<open>Effects on plugins\<close>

definition plugin_effect :: "step \<Rightarrow> lion_state \<Rightarrow> lion_state \<Rightarrow> bool" where
  "plugin_effect st s s' \<longleftrightarrow>
     (case st of
        StHostCall hc auth r \<Rightarrow>
          (case hc_function hc of
             FnKernelAlloc \<Rightarrow> (\<exists>p. get_plugin s (hc_caller hc) = Some p \<and> can_alloc_memory p (arg_or_zero hc)
                \<and> get_plugin s' = (get_plugin s)(hc_caller hc \<mapsto> add_memory_used (arg_or_zero hc) p))
           | FnDeclassify \<Rightarrow> (\<exists>p l. get_plugin s (hc_caller hc) = Some p \<and> l \<le> pg_level p
                \<and> declassify_level (arg_or_zero hc) = Inr l
                \<and> get_plugin s' = (get_plugin s)(hc_caller hc \<mapsto> set_level l p))
           | _ \<Rightarrow> get_plugin s' = get_plugin s)
      | _ \<Rightarrow> get_plugin s' = get_plugin s)"

lemma get_plugin_modify_fun:
  "get_plugin s pid = Some p \<Longrightarrow> get_plugin (modify_plugin s pid f) = (get_plugin s)(pid \<mapsto> f p)"
  by (simp add: fun_eq_iff table_simps)

lemma get_plugin_free:
  "apply_free s a = Inr s' \<Longrightarrow> get_plugin s' = get_plugin s"
  "apply_free_mut s a = Inr s' \<Longrightarrow> get_plugin s' = get_plugin s"
  by (auto simp: apply_free_Inr apply_free_mut_Inr)

lemma get_plugin_revoke:
  "get_plugin (apply_cap_revoke s k) = get_plugin s"
  "apply_cap_revoke_mut s k = Inr s' \<Longrightarrow> get_plugin s' = get_plugin s"
  by (auto simp: apply_cap_revoke_def apply_cap_revoke_mut_def and_then_Inr_iff)

lemma get_plugin_tick: "state_tick s = Inr s' \<Longrightarrow> get_plugin s' = get_plugin s"
  by (auto simp: state_tick_Inr)

lemma get_plugin_kernel_op: "kernel_op_execute op s = Inr s' \<Longrightarrow> get_plugin s' = get_plugin s"
proof -
  assume "kernel_op_execute op s = Inr s'"
  note this [unfolded kernel_op_Inr]
  then show ?thesis by (cases op) (auto intro: get_plugin_tick)
qed

lemma get_plugin_internal: "execute_plugin_internal s pid d = Inr s' \<Longrightarrow> get_plugin s' = get_plugin s"
  by (auto dest!: execute_plugin_internal_Inr simp: consume_from_def split: option.splits)

lemma function_plugin_effect:
  "function_execute (hc_function hc) s hc r = Inr s' \<Longrightarrow> plugin_effect (StHostCall hc a r) s s'"
  by (cases "hc_function hc")
    (auto simp: function_execute_def plugin_effect_def not_implemented_def hc_kernel_alloc_Inr
      hc_declassify_Inr hc_mem_free_Inr hc_cap_revoke_Inr get_plugin_modify_fun get_plugin_free get_plugin_revoke
      dest: hc_cap_call_Inr hc_cap_send_Inr)

lemma function_mut_plugin_effect:
  "function_execute_mut (hc_function hc) s hc r = Inr s' \<Longrightarrow> plugin_effect (StHostCall hc a r) s s'"
  by (cases "hc_function hc")
    (auto simp: function_execute_mut_def plugin_effect_def not_implemented_def hc_mut_eqs hc_kernel_alloc_mut_eq
      hc_kernel_alloc_Inr hc_declassify_Inr hc_mem_free_mut_Inr hc_cap_revoke_mut_Inr get_plugin_modify_fun
      get_plugin_free get_plugin_revoke dest: hc_cap_call_Inr hc_cap_send_Inr)

lemma exec_on_plugin_effect: "exec_on d st s = Inr s' \<Longrightarrow> plugin_effect st s s'"
proof (cases d; cases st)
qed (auto simp: execute_host_call_Inr execute_host_call_mut_Inr execute_mem_free_Inr execute_mem_free_mut_Inr
      execute_cap_revoke_Inr execute_cap_revoke_mut_Inr plugin_internal_mut_eq kernel_op_mut_eq
      function_plugin_effect function_mut_plugin_effect
      plugin_effect_def [of "StPluginInternal _ _"] plugin_effect_def [of "StKernelInternal _"]
      plugin_effect_def [of "StMemFree _ _"] plugin_effect_def [of "StCapRevoke _ _"]
      get_plugin_free get_plugin_revoke get_plugin_kernel_op get_plugin_internal)

section \<open>Mediation\<close>

lemma exec_on_host_call:
  "exec_on d (StHostCall hc auth r) s = Inr s' \<Longrightarrow> required_action hc = Inr (au_action auth)
     \<and> ac_subject (au_action auth) = hc_caller hc \<and> mediated s auth \<and> is_ok (hc_check_preconditions hc s)"
  by (cases d) (simp_all add: execute_host_call_Inr execute_host_call_mut_Inr)

lemma mediated_live: "mediated s w \<Longrightarrow> \<not> is_freed (st_ghost s) (ucast (ac_target (au_action w)))"
  by (auto simp: mediated_def is_live_def split: option.splits resource_status.splits)

lemma progress_invalid:
  assumes "state_progress s s'" and "\<not> cap_is_valid s k"
  shows "\<not> cap_is_valid s' k"
proof -
  have r: "rel_option cap_progress (rev_get (ks_revocation (st_kernel s)) k) (rev_get (ks_revocation (st_kernel s')) k)"
    using assms(1) by (auto simp: state_progress_def get_cap_def)
  show ?thesis
    using r assms(2)
    by (cases "rev_get (ks_revocation (st_kernel s)) k"; cases "rev_get (ks_revocation (st_kernel s')) k")
      (auto simp: cap_is_valid_def rev_is_valid_get cap_progress_def)
qed

section \<open>A concrete system for the witnesses\<close>

definition demo_root :: capability where
  "demo_root = \<lparr>cp_id = 0, cp_holder = 1, cp_target = 0, cp_rights = rights_all, cp_parent = None,
     cp_epoch = 0, cp_valid = True, cp_signature = tag_empty\<rparr>"

definition demo_base :: lion_state where
  "demo_base = state_empty\<lparr>st_kernel := kernel_state_default\<lparr>ks_policy := policy_permit_all\<rparr>,
     st_plugins := [(1, plugin_empty Secret 64)]\<rparr>"

definition demo_state :: lion_state where
  "demo_state = delegate_to (apply_alloc demo_base 1 8) demo_root 1"

definition demo_alloc_call :: host_call where
  "demo_alloc_call = \<lparr>hc_caller = 1, hc_function = FnKernelAlloc, hc_args = [5], hc_reads = [], hc_writes = []\<rparr>"

definition demo_ctx :: policy_context where
  "demo_ctx = \<lparr>pc_now = 0, pc_call_origin = None\<rparr>"

definition demo_alloc_action :: action where
  "demo_alloc_action = \<lparr>ac_subject = 1, ac_target = 0, ac_rights = rights_singleton Create, ac_kind = ''kernel_alloc''\<rparr>"

definition demo_auth :: authorized where
  "demo_auth = \<lparr>au_cap = demo_root, au_action = demo_alloc_action, au_ctx = demo_ctx\<rparr>"

definition demo_result :: host_result where
  "demo_result = \<lparr>hr_new_caps = [], hr_new_msgs = []\<rparr>"

definition demo_step :: step where
  "demo_step = StHostCall demo_alloc_call demo_auth demo_result"

lemma demo_base_wf: "state_wf demo_base"
proof -
  have "get_plugin demo_base pid = (if pid = 1 then Some (plugin_empty Secret 64) else None)" for pid
    by (simp add: get_tb demo_base_def table_eval)
  then show ?thesis
    using state_wf_empty
    by (simp add: state_wf_def get_tb(2,3,4)) (simp add: demo_base_def state_empty_def tables_wf_def kernel_state_default_def)
qed

lemma demo_base_cap: "get_cap (apply_alloc demo_base 1 8) k = None"
  by (simp add: get_cap_def apply_alloc_eq demo_base_def kernel_state_default_def)

lemma demo_state_wf: "state_wf demo_state"
  unfolding demo_state_def by (intro delegate_to_wf state_wf_alloc demo_base_wf) (simp add: demo_base_cap)

lemma demo_plugin: "get_plugin demo_state 1 = Some (grant_cap_mut (plugin_empty Secret 64) 0)"
proof -
  have "get_plugin demo_base 1 = Some (plugin_empty Secret 64)" by (simp add: get_tb demo_base_def table_eval)
  then show ?thesis by (simp add: demo_state_def delegate_to_def table_simps demo_root_def)
qed

lemma demo_caps: "get_cap demo_state k = (if k = 0 then Some demo_root else None)"
proof -
  have "rev_wf (ks_revocation (st_kernel (apply_alloc demo_base 1 8)))"
    using state_wf_alloc [OF demo_base_wf] by (rule state_wf_parts(2))
  moreover have "cp_id demo_root = 0" by (simp add: demo_root_def)
  ultimately show ?thesis
    using demo_base_cap by (simp add: demo_state_def delegate_to_def get_cap_def inserted_get rev_wf_caps)
qed

lemma demo_ghost: "is_live (st_ghost demo_state) 0" "\<not> is_freed (st_ghost demo_state) a"
  "meta_status (st_ghost demo_state) 0 = Some (Allocated 1)"
  by (simp_all add: demo_state_def delegate_to_def apply_alloc_eq demo_base_def state_empty_def meta_alloc_def
      meta_empty_def meta_resource_count_def is_live_def is_freed_def meta_status_def table_eval)

lemma demo_policy: "ks_policy (st_kernel demo_state) = policy_permit_all"
  by (simp add: demo_state_def delegate_to_def demo_base_def)

lemma demo_holds: "plugin_holds demo_state 1 0"
  using demo_plugin by (simp add: plugin_view holds_cap_grant)

lemma demo_valid: "cap_is_valid demo_state 0"
  using demo_caps [of 0] by (simp add: cap_is_valid_def rev_is_valid_get get_cap_def demo_root_def)

lemma contains_singleton: "rights_contains (rights_singleton x) y \<longleftrightarrow> x = y"
proof -
  have "rights_contains (rights_singleton x) y \<longleftrightarrow> y \<in> rights_set (rights_singleton x)"
    by (simp only: rights_set_def mem_Collect_eq)
  then show ?thesis by auto
qed

lemma demo_mediated: "mediated demo_state demo_auth"
  using contains_singleton [of Create Write] demo_holds demo_valid demo_ghost(1)
  by (simp add: mediated_def demo_auth_def demo_root_def demo_alloc_action_def demo_policy
      policy_eval_def policy_permit_all_def biba_write_ok_iff rights_subset_iff)

lemma demo_step_runs:
  "exec_on d demo_step demo_state = Inr (modify_plugin (apply_alloc demo_state 1 5) 1 (add_memory_used 5))"
proof -
  have ra: "required_action demo_alloc_call = Inr demo_alloc_action"
    by (simp add: required_action_def demo_alloc_call_def map_policy_err_def action_new_def demo_alloc_action_def)
  have pre: "is_ok (hc_check_preconditions demo_alloc_call demo_state)"
    by (simp add: is_ok_iff hc_check_preconditions_ok demo_alloc_call_def demo_plugin)
  have "can_alloc_memory (grant_cap_mut (plugin_empty Secret 64) 0) 5"
    by (simp add: can_alloc_memory_iff grant_cap_mut_def plugin_empty_def DEFAULT_QUOTA_def)
  then have "hc_kernel_alloc demo_state demo_alloc_call
      = Inr (modify_plugin (apply_alloc demo_state 1 5) 1 (add_memory_used 5))"
    by (simp add: hc_kernel_alloc_Inr demo_alloc_call_def demo_plugin arg_or_zero_def first_arg_def)
  then show ?thesis
    using ra pre demo_mediated
    by (cases d) (simp_all add: demo_step_def execute_host_call_Inr execute_host_call_mut_Inr
        demo_alloc_call_def function_execute_def function_execute_mut_def hc_kernel_alloc_mut_eq
        demo_auth_def demo_alloc_action_def)
qed

section \<open>Properties\<close>

text \<open>C2: the system invariant and the direction of change. From a well-formed state, every run of steps that
  succeeds, on either execution path, ends in a well-formed state (tables sorted, index consistent,
  counters exact, quotas and mailbox bounds kept, addresses fresh), and along it freed addresses stay
  freed, no capability appears, disappears, changes or comes back to life, the clock never goes back,
  keys, policy and identifier counter stay, and every plugin keeps its capabilities, memory, quotas and
  queue limit, while its level only falls and its recorded use only grows, within the memory quota.\<close>

theorem system_runs_safe:
  assumes "state_wf s" and "run_all (exec_on d) sts s = Inr s'"
  shows "state_wf s'
    \<and> temporal_safety s s'
    \<and> (\<forall>k. rel_option (\<lambda>c c'. c' = c \<or> c' = cap_revoke c) (get_cap s k) (get_cap s' k))
    \<and> state_time s \<le> state_time s'
    \<and> ks_key_state (st_kernel s') = ks_key_state (st_kernel s)
    \<and> ks_policy (st_kernel s') = ks_policy (st_kernel s)
    \<and> ks_next_cap_id (st_kernel s') = ks_next_cap_id (st_kernel s)
    \<and> (\<forall>pid. rel_option (\<lambda>p p'. pg_level p' \<le> pg_level p \<and> pg_held_caps p' = pg_held_caps p
          \<and> pg_memory p' = pg_memory p \<and> pg_memory_quota p' = pg_memory_quota p
          \<and> pg_cap_quota p' = pg_cap_quota p \<and> pg_ipc_queue_limit p' = pg_ipc_queue_limit p
          \<and> pg_memory_used p \<le> pg_memory_used p' \<and> pg_memory_used p' \<le> pg_memory_quota p')
        (get_plugin s pid) (get_plugin s' pid))
    \<and> (\<forall>aid a. get_actor s' aid = Some a \<longrightarrow> length (ar_mailbox a) \<le> ar_capacity a)"
proof -
  have w: "state_wf s'" and pr: "state_progress s s'"
    using run_on_wf [OF assms] run_on_progress [OF assms] by simp_all
  have "rel_option (\<lambda>p p'. pg_level p' \<le> pg_level p \<and> pg_held_caps p' = pg_held_caps p
          \<and> pg_memory p' = pg_memory p \<and> pg_memory_quota p' = pg_memory_quota p
          \<and> pg_cap_quota p' = pg_cap_quota p \<and> pg_ipc_queue_limit p' = pg_ipc_queue_limit p
          \<and> pg_memory_used p \<le> pg_memory_used p' \<and> pg_memory_used p' \<le> pg_memory_quota p')
        (get_plugin s pid) (get_plugin s' pid)" for pid
  proof -
    have "rel_option plugin_progress (get_plugin s pid) (get_plugin s' pid)"
      using pr by (simp add: state_progress_def)
    then show ?thesis
      using state_wf_parts(5) [OF w, of pid]
      by (cases "get_plugin s pid"; cases "get_plugin s' pid") (simp_all add: plugin_progress_def plugin_wf_def)
  qed
  then show ?thesis
    using w pr state_wf_parts(6) [OF w]
    by (simp add: state_progress_def temporal_safety_iff [OF state_wf_parts(3) [OF assms(1)]]
        actor_wf_def cap_progress_def [abs_def])
qed

lemma system_runs_safe_witness:
  "\<exists>s'. run_all (exec_on InPlace) [demo_step] demo_state = Inr s' \<and> state_wf s' \<and> temporal_safety demo_state s'"
  using system_runs_safe [OF demo_state_wf, of InPlace "[demo_step]"] demo_step_runs [of InPlace] by simp

text \<open>What a step does to a plugin of the state, read off its effect.\<close>

lemma plugin_effect_cases:
  assumes e: "plugin_effect st s s'" and p: "get_plugin s pid = Some p"
  shows "\<exists>p'. get_plugin s' pid = Some p' \<and>
      (p' = p
       \<or> step_is_declassify st \<and> (\<exists>l. l \<le> pg_level p \<and> p' = p\<lparr>pg_level := l\<rparr>)
       \<or> (\<exists>hc auth r n. st = StHostCall hc auth r \<and> hc_function hc = FnKernelAlloc
            \<and> n = unat (arg_or_zero hc) \<and> unat (pg_memory_used p') = unat (pg_memory_used p) + n
            \<and> unat (pg_memory_used p') \<le> unat (pg_memory_quota p)
            \<and> p'\<lparr>pg_memory_used := pg_memory_used p\<rparr> = p))"
proof (cases "get_plugin s' = get_plugin s")
  case False
  then obtain hc auth r where st: "st = StHostCall hc auth r" and "hc_function hc \<in> {FnKernelAlloc, FnDeclassify}"
    using e by (cases st) (auto simp: plugin_effect_def split: host_function.splits)
  then consider "hc_function hc = FnKernelAlloc" | "hc_function hc = FnDeclassify" by blast
  then show ?thesis
  proof cases
    case 1
    then obtain q where q: "get_plugin s (hc_caller hc) = Some q" "can_alloc_memory q (arg_or_zero hc)"
        "get_plugin s' = (get_plugin s)(hc_caller hc \<mapsto> add_memory_used (arg_or_zero hc) q)"
      using e by (auto simp: plugin_effect_def st)
    show ?thesis
    proof (cases "pid = hc_caller hc")
      case True
      then have "q = p" using p q(1) by simp
      then show ?thesis
        using alloc_used_exact [OF q(2)] q(3) True st 1
        by (auto simp: add_memory_used_def word_le_nat_alt)
    qed (simp add: q(3) p)
  next
    case 2
    then obtain q l where "get_plugin s (hc_caller hc) = Some q" "l \<le> pg_level q"
        "get_plugin s' = (get_plugin s)(hc_caller hc \<mapsto> set_level l q)"
      using e by (auto simp: plugin_effect_def st)
    then show ?thesis
      using p st 2 by (cases "pid = hc_caller hc") (auto simp: step_is_declassify_def set_level_def)
  qed
qed (simp add: p)

text \<open>C9: isolation of a single step. A step that succeeds, on either path, changes the state of no plugin
  but its own subject; it changes a plugin at all only when it is an allocation host call, which adds
  exactly the requested amount to the recorded use, or a declassification, which lowers the level and
  nothing else. Kernel operations, direct frees and direct revocations touch no plugin.\<close>

theorem step_isolation:
  assumes "state_wf s" and "exec_on d st s = Inr s'"
  shows "(\<forall>pid. step_subject st \<noteq> Some pid \<longrightarrow> get_plugin s' pid = get_plugin s pid)
    \<and> (\<forall>pid. step_subject st = Some pid \<longrightarrow> preserves_isolation s s' pid)
    \<and> (\<forall>pid p. get_plugin s pid = Some p \<longrightarrow> (\<exists>p'. get_plugin s' pid = Some p' \<and>
          (p' = p
           \<or> step_is_declassify st \<and> (\<exists>l. l \<le> pg_level p \<and> p' = p\<lparr>pg_level := l\<rparr>)
           \<or> (\<exists>hc auth r n. st = StHostCall hc auth r \<and> hc_function hc = FnKernelAlloc
                \<and> n = unat (arg_or_zero hc) \<and> unat (pg_memory_used p') = unat (pg_memory_used p) + n
                \<and> unat (pg_memory_used p') \<le> unat (pg_memory_quota p)
                \<and> p'\<lparr>pg_memory_used := pg_memory_used p\<rparr> = p))))"
proof -
  have e: "plugin_effect st s s'" using assms(2) by (rule exec_on_plugin_effect)
  have frame: "get_plugin s' pid = get_plugin s pid" if "step_subject st \<noteq> Some pid" for pid
    using e that by (cases st) (auto simp: plugin_effect_def split: host_function.splits)
  have iso: "preserves_isolation s s' pid" if "step_subject st = Some pid" for pid
    using frame that by (auto simp: preserves_isolation_iff [OF state_wf_parts(1) [OF assms(1)]])
  show ?thesis using frame iso plugin_effect_cases [OF e] by blast
qed

lemma step_isolation_witness:
  "\<exists>s'. exec_on Pure demo_step demo_state = Inr s' \<and> preserves_isolation demo_state s' 1"
proof -
  have "step_subject demo_step = Some 1" by (simp add: demo_step_def demo_alloc_call_def)
  then show ?thesis using step_isolation [OF demo_state_wf demo_step_runs] demo_step_runs by blast
qed

text \<open>C1: complete mediation. A host call executes, on either path, only if the action it was authorized for
  is the one its own request requires, its subject is the caller, the presented capability names that
  holder, that target and at least those rights, the caller holds its identifier, the kernel's capability
  of that identifier and the presented one's parent are valid, the policy permits the action, the target
  is live, a write does not go up in integrity, and every memory region is inside the caller's memory.\<close>

theorem host_call_mediation:
  assumes "exec_on d (StHostCall hc auth r) s = Inr s'"
  shows "required_action hc = Inr (au_action auth)
    \<and> cp_holder (au_cap auth) = hc_caller hc \<and> ac_subject (au_action auth) = hc_caller hc
    \<and> cp_target (au_cap auth) = ac_target (au_action auth)
    \<and> rights_is_subset_of (ac_rights (au_action auth)) (cp_rights (au_cap auth))
    \<and> plugin_holds s (hc_caller hc) (cp_id (au_cap auth))
    \<and> cap_is_valid s (cp_id (au_cap auth))
    \<and> (\<forall>p. cp_parent (au_cap auth) = Some p \<longrightarrow> cap_is_valid s p)
    \<and> policy_check (ks_policy (st_kernel s)) (au_action auth) (au_ctx auth) = Permit
    \<and> is_live (st_ghost s) (ucast (ac_target (au_action auth)))
    \<and> (rights_contains (ac_rights (au_action auth)) Write \<longrightarrow>
        (\<exists>p. get_plugin s (hc_caller hc) = Some p
           \<and> resource_integrity s (ucast (ac_target (au_action auth))) \<le> pg_level p))
    \<and> (\<exists>p. get_plugin s (hc_caller hc) = Some p
        \<and> (\<forall>(a, n) \<in> set (hc_reads hc) \<union> set (hc_writes hc). addr_in_bounds (pg_memory p) a n))"
proof -
  have h: "required_action hc = Inr (au_action auth)" "ac_subject (au_action auth) = hc_caller hc"
    "mediated s auth" "is_ok (hc_check_preconditions hc s)"
    using exec_on_host_call [OF assms] by simp_all
  obtain p where p: "get_plugin s (hc_caller hc) = Some p"
      "\<forall>(a, n) \<in> set (hc_reads hc) \<union> set (hc_writes hc). addr_in_bounds (pg_memory p) a n"
    using h(4) unfolding is_ok_iff hc_check_preconditions_ok by blast
  then show ?thesis
    using h by (auto simp: mediated_def biba_write_ok_iff plugin_view(1) policy_check_def)
qed

lemma host_call_mediation_witness:
  "plugin_holds demo_state 1 0 \<and> cap_is_valid demo_state 0"
  using host_call_mediation [OF demo_step_runs [of Pure, unfolded demo_step_def]]
  by (simp add: demo_alloc_call_def demo_auth_def demo_root_def)

text \<open>C3: no use after free or revocation. Once an address is freed, or a capability revoked, then after any
  further run of steps, mixed with any inputs, no host call whose action targets that address, that
  presents that capability, or that presents a capability with that parent, executes on either path.\<close>

theorem no_use_after_free_or_revoke:
  assumes "state_wf s" and "run_all (exec_on d) sts s = Inr s'"
    and "is_freed (st_ghost s) (ucast (ac_target (au_action auth)))
      \<or> \<not> cap_is_valid s (cp_id (au_cap auth))
      \<or> (\<exists>p. cp_parent (au_cap auth) = Some p \<and> \<not> cap_is_valid s p)"
  shows "\<exists>e. exec_on d' (StHostCall hc auth r) s' = Inl e"
proof (cases "exec_on d' (StHostCall hc auth r) s'")
  case (Inr s'')
  have m: "mediated s' auth" using exec_on_host_call [OF Inr] by simp
  have pr: "state_progress s s'" by (rule run_on_progress [OF assms(1,2)])
  have "is_freed (st_ghost s) a \<longrightarrow> is_freed (st_ghost s') a" for a
    using pr by (simp add: state_progress_def)
  then have False
    using assms(3) mediated_live [OF m] m progress_invalid [OF pr] by (auto simp: mediated_def)
  then show ?thesis ..
qed simp

lemma no_use_after_free_or_revoke_witness:
  "\<exists>s s'. is_ok (exec_on Pure demo_step demo_state) \<and> step_execute_mut (StCapRevoke 9 0) demo_state = Inr s
     \<and> run_all (exec_on Pure) [StKernelInternal TimeTick] s = Inr s' \<and> (\<exists>e. exec_on Pure demo_step s' = Inl e)"
proof -
  let ?r = "ks_revocation (st_kernel demo_state)"
  let ?s = "with_revocation demo_state (revoke_transitive_fast ?r 0)"
  let ?t = "?s\<lparr>st_kernel := (st_kernel ?s)\<lparr>ks_now := ks_now (st_kernel ?s) + 1\<rparr>\<rparr>"
  have r: "step_execute_mut (StCapRevoke 9 0) demo_state = Inr ?s"
    using demo_caps [of 0] by (simp add: execute_cap_revoke_mut_Inr apply_cap_revoke_mut_eq [OF demo_state_wf])
  have w: "state_wf ?s" using run_on_wf [OF demo_state_wf, of InPlace "[StCapRevoke 9 0]" ?s] r by simp
  have "ks_now (st_kernel demo_state) = 0"
    by (simp add: demo_state_def delegate_to_def apply_alloc_eq demo_base_def kernel_state_default_def)
  then have "state_tick ?s = Inr ?t" by (simp add: state_tick_Inr state_time_def)
  then have t: "run_all (exec_on Pure) [StKernelInternal TimeTick] ?s = Inr ?t"
    by (simp add: execute_time_tick_def)
  have "\<not> cap_is_valid ?s 0"
    using fast.revoke_valid [OF state_wf_parts(2) [OF demo_state_wf]] by (simp add: cap_is_valid_def)
  then have "\<exists>e. exec_on Pure demo_step ?t = Inl e"
    using no_use_after_free_or_revoke [OF w t, of demo_auth Pure demo_alloc_call demo_result]
    by (simp add: demo_step_def demo_auth_def demo_root_def)
  then show ?thesis using r t demo_step_runs [of Pure] by (auto simp: is_ok_def)
qed

section \<open>The two execution paths\<close>

text \<open>Equal up to the status the ghost history records for freed addresses.\<close>

definition obs_eq :: "lion_state \<Rightarrow> lion_state \<Rightarrow> bool" where
  "obs_eq s t \<longleftrightarrow> s\<lparr>st_ghost := st_ghost t\<rparr> = t \<and> is_freed (st_ghost s) = is_freed (st_ghost t)
     \<and> is_live (st_ghost s) = is_live (st_ghost t)"

lemma obs_eq_refl [simp]: "obs_eq s s"
  by (simp add: obs_eq_def)












end
