(* ===== verification/LionFlow.thy ===== *)
theory LionFlow
  imports LionSafety
begin

text \<open>
  Information flow: what runs of steps above a level leave invisible at that level. Steps have the
  level of the code (\<open>Step::level\<close>), observation is the code's low equivalence.
\<close>

fun high_run :: "path \<Rightarrow> security_level \<Rightarrow> step list \<Rightarrow> lion_state \<Rightarrow> bool" where
  "high_run d l [] s = True"
| "high_run d l (st # sts) s \<longleftrightarrow> l < step_level st s
     \<and> (case exec_on d st s of Inl _ \<Rightarrow> True | Inr s' \<Rightarrow> high_run d l sts s')"

lemma high_subject:
  "l < step_level st s \<Longrightarrow> step_subject st = Some pid \<Longrightarrow> \<exists>p. get_plugin s pid = Some p \<and> l < pg_level p"
  by (auto simp: step_level_def plugin_view less_security_level_def split: option.splits)

text \<open>What one step above \<open>l\<close> may show at \<open>l\<close>: nothing, or its declassified subject.\<close>

lemma high_step:
  assumes "exec_on d st s = Inr s'" and "l < step_level st s"
  shows "get_plugin s pid = Some p \<Longrightarrow> pg_level p \<le> l \<Longrightarrow> get_plugin s' pid = Some p"
    and "get_plugin s' pid = Some q \<Longrightarrow> pg_level q \<le> l \<Longrightarrow> get_plugin s pid \<noteq> Some q \<Longrightarrow>
      step_is_declassify st \<and> step_subject st = Some pid"
proof -
  have e: "plugin_effect st s s'" using assms(1) by (rule exec_on_plugin_effect)
  have "get_plugin s' pid = get_plugin s pid
      \<or> step_subject st = Some pid \<and> (\<exists>p0 n. get_plugin s pid = Some p0 \<and> get_plugin s' pid = Some (add_memory_used n p0))
      \<or> step_subject st = Some pid \<and> step_is_declassify st"
  proof (cases "step_subject st = Some pid")
    case True
    with e show ?thesis
      by (cases st) (auto simp: plugin_effect_def step_is_declassify_def split: host_function.splits)
  next
    case False
    with e show ?thesis by (cases st) (auto simp: plugin_effect_def split: host_function.splits)
  qed
  then show "get_plugin s pid = Some p \<Longrightarrow> pg_level p \<le> l \<Longrightarrow> get_plugin s' pid = Some p"
    and "get_plugin s' pid = Some q \<Longrightarrow> pg_level q \<le> l \<Longrightarrow> get_plugin s pid \<noteq> Some q \<Longrightarrow>
      step_is_declassify st \<and> step_subject st = Some pid"
    using high_subject [OF assms(2), of pid] by (auto simp: add_memory_used_def)
qed

lemma high_run_plugins:
  assumes "run_all (exec_on d) sts s = Inr s'" and "high_run d l sts s"
  shows "get_plugin s pid = Some p \<Longrightarrow> pg_level p \<le> l \<Longrightarrow> get_plugin s' pid = Some p"
    and "get_plugin s' pid = Some q \<Longrightarrow> pg_level q \<le> l \<Longrightarrow> get_plugin s pid \<noteq> Some q \<Longrightarrow>
      \<exists>st \<in> set sts. step_is_declassify st \<and> step_subject st = Some pid"
  using assms
proof (induction sts arbitrary: s)
  case Nil
  { case 1 then show ?case by simp next case 2 then show ?case by simp }
next
  case (Cons st sts)
  {
    case 1
    then obtain s1 where s1: "exec_on d st s = Inr s1" "run_all (exec_on d) sts s1 = Inr s'" "high_run d l sts s1"
      by (auto split: sum.splits)
    have "get_plugin s1 pid = Some p" using high_step(1) [OF s1(1), of l pid p] 1 by simp
    then show ?case using Cons.IH(1) 1 s1 by simp
  next
    case 2
    then obtain s1 where s1: "exec_on d st s = Inr s1" "run_all (exec_on d) sts s1 = Inr s'" "high_run d l sts s1"
      by (auto split: sum.splits)
    show ?case
    proof (cases "get_plugin s1 pid = Some q")
      case True
      then show ?thesis using high_step(2) [OF s1(1), of l pid q] 2 by auto
    next
      case False
      then show ?thesis using Cons.IH(2) 2 s1 by auto
    qed
  }
qed

section \<open>Property\<close>

text \<open>C11: nothing flows down without a declassification. A run of steps that all execute above a level,
  on either path, leaves every plugin and resource at or below that level exactly as it was; if none of
  them is a declassification, the states before and after are low equivalent at that level; otherwise
  a plugin that is new at the level is the subject of one of the declassifications.\<close>

theorem high_runs_invisible:
  assumes "state_wf s" and "run_all (exec_on d) sts s = Inr s'" and "high_run d l sts s"
  shows "low_equivalent_left l s s'
    \<and> ((\<forall>st \<in> set sts. \<not> step_is_declassify st) \<longrightarrow> low_equivalent l s s')
    \<and> (\<forall>pid q. get_plugin s' pid = Some q \<and> pg_level q \<le> l \<and> get_plugin s pid \<noteq> Some q \<longrightarrow>
         (\<exists>st \<in> set sts. step_is_declassify st \<and> step_subject st = Some pid))"
proof -
  note w = state_wf_parts(1) [OF assms(1)] and w' = state_wf_parts(1) [OF run_on_wf [OF assms(1,2)]]
  note run = high_run_plugins [OF assms(2,3)]
  have "st_resources s' = st_resources s"
    using run_on_progress [OF assms(1,2)] by (simp add: state_progress_def)
  then have r: "get_resource s' = get_resource s" by (simp add: fun_eq_iff get_tb)
  have left: "low_equivalent_left l s s'"
    using run(1) by (simp add: low_equivalent_left_iff [OF w] r)
  moreover have "low_equivalent_left l s' s" if "\<forall>st \<in> set sts. \<not> step_is_declassify st"
    using run(2) that by (fastforce simp: low_equivalent_left_iff [OF w'] r)
  ultimately show ?thesis using run(2) by (auto simp: low_equivalent_def)
qed

lemma high_runs_invisible_witness:
  "\<exists>s'. run_all (exec_on Pure) [demo_step] demo_state = Inr s' \<and> low_equivalent Internal demo_state s'"
proof -
  have l: "step_level demo_step demo_state = Secret"
    using demo_plugin by (simp add: step_level_def demo_step_def demo_alloc_call_def plugin_view
        grant_cap_mut_def plugin_empty_def)
  have "\<not> step_is_declassify demo_step" by (simp add: step_is_declassify_def demo_step_def demo_alloc_call_def)
  moreover have "high_run Pure Internal [demo_step] demo_state"
    using l by (simp add: less_security_level_def split: sum.split)
  ultimately show ?thesis
    using high_runs_invisible [OF demo_state_wf, of Pure "[demo_step]" _ Internal] demo_step_runs [of Pure] by simp
qed

end
