(* ===== verification/LionNoninterference.thy ===== *)
theory LionNoninterference
  imports LionFlow
begin

text \<open>
  Noninterference: what two runs show at a level when one of them lacks the steps above it. Observation
  is the code's low equivalence (\<open>state/state.rs\<close>), the level of a step the code's \<open>Step::level\<close>.
\<close>

section \<open>Unwinding\<close>

text \<open>The steps of a run that are not high, and the runs without a high downgrading step; whether a step is
  high is decided in the state it runs in.\<close>

fun purge :: "('a \<Rightarrow> 's \<Rightarrow> 'e + 's) \<Rightarrow> ('a \<Rightarrow> 's \<Rightarrow> bool) \<Rightarrow> 'a list \<Rightarrow> 's \<Rightarrow> 'a list" where
  "purge f high [] s = []"
| "purge f high (a # as) s =
     (let rest = (case f a s of Inl _ \<Rightarrow> [] | Inr s' \<Rightarrow> purge f high as s')
      in if high a s then rest else a # rest)"

fun no_downgrade :: "('a \<Rightarrow> 's \<Rightarrow> 'e + 's) \<Rightarrow> ('a \<Rightarrow> 's \<Rightarrow> bool) \<Rightarrow> ('a \<Rightarrow> bool) \<Rightarrow> 'a list \<Rightarrow> 's \<Rightarrow> bool" where
  "no_downgrade f high down [] s = True"
| "no_downgrade f high down (a # as) s \<longleftrightarrow> (down a \<longrightarrow> \<not> high a s)
     \<and> (case f a s of Inl _ \<Rightarrow> True | Inr s' \<Rightarrow> no_downgrade f high down as s')"

text \<open>A system that is executed in two ways and observed through a view: a high step that downgrades
  nothing does not change the view, and the same step takes equal views to equal views.\<close>

locale unwinding =
  fixes exec :: "'a \<Rightarrow> 's \<Rightarrow> 'e + 's" and exec2 :: "'a \<Rightarrow> 's \<Rightarrow> 'e + 's" and inv :: "'s \<Rightarrow> bool"
    and view :: "'s \<Rightarrow> 'v" and high :: "'a \<Rightarrow> 's \<Rightarrow> bool" and down :: "'a \<Rightarrow> bool"
  assumes exec_inv: "inv s \<Longrightarrow> exec a s = Inr s' \<Longrightarrow> inv s'"
    and exec2_inv: "inv t \<Longrightarrow> exec2 a t = Inr t' \<Longrightarrow> inv t'"
    and local_respect: "inv s \<Longrightarrow> exec a s = Inr s' \<Longrightarrow> high a s \<Longrightarrow> \<not> down a \<Longrightarrow> view s' = view s"
    and consistent: "inv s \<Longrightarrow> inv t \<Longrightarrow> exec a s = Inr s' \<Longrightarrow> exec2 a t = Inr t' \<Longrightarrow> view s = view t \<Longrightarrow>
      (down a \<longrightarrow> \<not> high a s) \<Longrightarrow> view s' = view t'"
begin

lemma purged_view:
  assumes "inv s" and "inv t" and "view s = view t" and "run_all exec as s = Inr s'"
    and "no_downgrade exec high down as s" and "run_all exec2 (purge exec high as s) t = Inr t'"
  shows "view s' = view t'"
  using assms
proof (induction as arbitrary: s t)
  case (Cons a as)
  obtain s1 where s1: "exec a s = Inr s1" "run_all exec as s1 = Inr s'"
    using Cons.prems(4) by (auto split: sum.splits)
  note i = exec_inv [OF Cons.prems(1) s1(1)]
  have nd: "down a \<longrightarrow> \<not> high a s" "no_downgrade exec high down as s1" using Cons.prems(5) s1(1) by simp_all
  show ?case
  proof (cases "high a s")
    case True
    then have "view s1 = view s" using local_respect [OF Cons.prems(1) s1(1)] nd(1) by blast
    moreover have "run_all exec2 (purge exec high as s1) t = Inr t'" using Cons.prems(6) True s1(1) by simp
    ultimately show ?thesis using Cons.IH [OF i Cons.prems(2) _ s1(2) nd(2)] Cons.prems(3) by simp
  next
    case False
    then obtain t1 where t1: "exec2 a t = Inr t1" "run_all exec2 (purge exec high as s1) t1 = Inr t'"
      using Cons.prems(6) s1(1) by (auto split: sum.splits)
    have "view s1 = view t1" by (rule consistent [OF Cons.prems(1,2) s1(1) t1(1) Cons.prems(3) nd(1)])
    then show ?thesis using Cons.IH [OF i exec2_inv [OF Cons.prems(2) t1(1)] _ s1(2) nd(2) t1(2)] by simp
  qed
qed simp

end

section \<open>The view at a level\<close>

definition low_view :: "security_level \<Rightarrow> lion_state \<Rightarrow> plugin_id \<Rightarrow> plugin_state option" where
  "low_view l s pid = (case get_plugin s pid of Some p \<Rightarrow> if pg_level p \<le> l then Some p else None | None \<Rightarrow> None)"

definition low_resources :: "security_level \<Rightarrow> lion_state \<Rightarrow> resource_id \<Rightarrow> resource_info option" where
  "low_resources l s rid = (case get_resource s rid of Some r \<Rightarrow> if ri_level r \<le> l then Some r else None | None \<Rightarrow> None)"

lemma low_view_Some: "low_view l s pid = Some p \<longleftrightarrow> get_plugin s pid = Some p \<and> pg_level p \<le> l"
  by (auto simp: low_view_def split: option.split)

lemma low_resources_Some: "low_resources l s rid = Some r \<longleftrightarrow> get_resource s rid = Some r \<and> ri_level r \<le> l"
  by (auto simp: low_resources_def split: option.split)

lemma option_fun_eqI:
  assumes "\<And>x y. f x = Some y \<Longrightarrow> g x = Some y" and "\<And>x y. g x = Some y \<Longrightarrow> f x = Some y"
  shows "f = g"
proof
  fix x show "f x = g x" using assms [of x] by (cases "f x"; cases "g x") auto
qed

lemma low_equivalent_view:
  assumes "tables_wf s" and "tables_wf t"
  shows "low_equivalent l s t \<longleftrightarrow> low_view l s = low_view l t \<and> low_resources l s = low_resources l t"
proof
  assume e: "low_equivalent l s t"
  note l = e [unfolded low_equivalent_def low_equivalent_left_iff [OF assms(1)] low_equivalent_left_iff [OF assms(2)]]
  have "low_view l s = low_view l t" by (rule option_fun_eqI; unfold low_view_Some; insert l; blast)
  moreover have "low_resources l s = low_resources l t"
    by (rule option_fun_eqI; unfold low_resources_Some; insert l; blast)
  ultimately show "low_view l s = low_view l t \<and> low_resources l s = low_resources l t" ..
next
  assume "low_view l s = low_view l t \<and> low_resources l s = low_resources l t"
  then have "low_view l s pid = Some p \<longleftrightarrow> low_view l t pid = Some p"
    "low_resources l s rid = Some r \<longleftrightarrow> low_resources l t rid = Some r" for pid p rid r by simp_all
  then show "low_equivalent l s t"
    unfolding low_equivalent_def low_equivalent_left_iff [OF assms(1)] low_equivalent_left_iff [OF assms(2)]
      low_view_Some low_resources_Some by blast
qed

section \<open>The effect of a step as a function\<close>

definition step_fun :: "step \<Rightarrow> plugin_state \<Rightarrow> plugin_state" where
  "step_fun st =
     (case st of
        StHostCall hc auth r \<Rightarrow>
          (case hc_function hc of
             FnKernelAlloc \<Rightarrow> add_memory_used (arg_or_zero hc)
           | FnDeclassify \<Rightarrow> (case declassify_level (arg_or_zero hc) of Inr l \<Rightarrow> set_level l | Inl _ \<Rightarrow> id)
           | _ \<Rightarrow> id)
      | _ \<Rightarrow> id)"

lemma step_fun_level: "\<not> step_is_declassify st \<Longrightarrow> pg_level (step_fun st p) = pg_level p"
  by (auto simp: step_fun_def step_is_declassify_def add_memory_used_def split: step.split host_function.split)

lemma exec_step_fun:
  assumes "exec_on d st s = Inr s'"
  shows "get_plugin s' pid =
    (if step_subject st = Some pid then map_option (step_fun st) (get_plugin s pid) else get_plugin s pid)"
    and "step_is_declassify st \<Longrightarrow> step_subject st = Some pid \<Longrightarrow> get_plugin s pid \<noteq> None"
  using exec_on_plugin_effect [OF assms]
  by (auto simp: plugin_effect_def step_fun_def step_is_declassify_def option.map_id
      split: step.splits host_function.splits)

lemma exec_resources: "state_wf s \<Longrightarrow> exec_on d st s = Inr s' \<Longrightarrow> low_resources l s' = low_resources l s"
proof -
  assume "state_wf s" "exec_on d st s = Inr s'"
  then have "st_resources s' = st_resources s"
    using run_on_progress [of s d "[st]" s'] by (simp add: state_progress_def)
  then show ?thesis by (simp add: low_resources_def fun_eq_iff get_tb)
qed

text \<open>A step above the level that does not declassify shows nothing.\<close>

lemma high_step_invisible:
  assumes "exec_on d st s = Inr s'" and "l < step_level st s" and "\<not> step_is_declassify st"
  shows "low_view l s' = low_view l s"
proof
  fix pid
  show "low_view l s' pid = low_view l s pid"
  proof (cases "step_subject st = Some pid")
    case True
    then obtain p where p: "get_plugin s pid = Some p" "l < pg_level p" using high_subject [OF assms(2)] by blast
    then have "get_plugin s' pid = Some (step_fun st p)" using exec_step_fun(1) [OF assms(1), of pid] True by simp
    moreover have "\<not> pg_level p \<le> l" using p(2) by simp
    ultimately show ?thesis using p(1) step_fun_level [OF assms(3)] by (simp add: low_view_def)
  next
    case False
    then show ?thesis using exec_step_fun(1) [OF assms(1), of pid] by (simp add: low_view_def)
  qed
qed

text \<open>The same step from two states with the same view ends with the same view.\<close>

lemma step_consistent:
  assumes "exec_on d st s = Inr s'" and "exec_on e st t = Inr t'" and "low_view l s = low_view l t"
    and "step_is_declassify st \<Longrightarrow> step_level st s \<le> l"
  shows "low_view l s' = low_view l t'"
proof
  fix pid
  have v: "low_view l s pid = low_view l t pid" using assms(3) by simp
  show "low_view l s' pid = low_view l t' pid"
  proof (cases "step_subject st = Some pid")
    case False
    then show ?thesis
      using v exec_step_fun(1) [OF assms(1), of pid] exec_step_fun(1) [OF assms(2), of pid] by (simp add: low_view_def)
  next
    case True
    note f = exec_step_fun(1) [OF assms(1), of pid] exec_step_fun(1) [OF assms(2), of pid]
    show ?thesis
    proof (cases "low_view l s pid")
      case (Some p)
      with v have "low_view l s pid = Some p" "low_view l t pid = Some p" by simp_all
      then have "get_plugin s pid = Some p" "get_plugin t pid = Some p" unfolding low_view_Some by blast+
      then show ?thesis using f True by (simp add: low_view_def)
    next
      case None
      have nd: "\<not> step_is_declassify st"
      proof
        assume d: "step_is_declassify st"
        then obtain p where "get_plugin s pid = Some p" using exec_step_fun(2) [OF assms(1) d True] by blast
        then show False using assms(4) [OF d] None True by (simp add: low_view_def step_level_def plugin_view)
      qed
      have hidden: "low_view l u pid = None" if "low_view l w pid = None" "exec_on d' st w = Inr u" for w u d'
        using that(1) exec_step_fun(1) [OF that(2), of pid] True step_fun_level [OF nd]
        by (auto simp: low_view_def split: option.splits if_splits)
      show ?thesis using hidden [OF None assms(1)] hidden [OF _ assms(2)] v None by simp
    qed
  qed
qed

text \<open>The interpretation of the unwinding conditions: the view at a level of plugins and resources.\<close>

definition level_view :: "security_level \<Rightarrow> lion_state \<Rightarrow>
    (plugin_id \<Rightarrow> plugin_state option) \<times> (resource_id \<Rightarrow> resource_info option)" where
  "level_view l s = (low_view l s, low_resources l s)"

definition above :: "security_level \<Rightarrow> step \<Rightarrow> lion_state \<Rightarrow> bool" where
  "above l st s \<longleftrightarrow> l < step_level st s"

lemma low_equivalent_level_view:
  "tables_wf s \<Longrightarrow> tables_wf t \<Longrightarrow> low_equivalent l s t \<longleftrightarrow> level_view l s = level_view l t"
  by (simp add: low_equivalent_view level_view_def)

interpretation unwind: unwinding "exec_on d" "exec_on e" state_wf "level_view l" "above l" step_is_declassify
  for d :: path and e :: path and l :: security_level
proof unfold_locales
  fix s st s' assume "state_wf s" "exec_on d st s = Inr s'"
  then show "state_wf s'" using run_on_wf [of s d "[st]"] by simp
next
  fix t st t' assume "state_wf t" "exec_on e st t = Inr t'"
  then show "state_wf t'" using run_on_wf [of t e "[st]"] by simp
next
  fix s st s' assume "state_wf s" "exec_on d st s = Inr s'" "above l st s" "\<not> step_is_declassify st"
  then show "level_view l s' = level_view l s"
    using high_step_invisible exec_resources by (simp add: level_view_def above_def)
next
  fix s t st s' t'
  assume a: "state_wf s" "state_wf t" "exec_on d st s = Inr s'" "exec_on e st t = Inr t'"
    "level_view l s = level_view l t" "step_is_declassify st \<longrightarrow> \<not> above l st s"
  have v: "low_view l s = low_view l t" "low_resources l s = low_resources l t"
    using a(5) by (simp_all add: level_view_def)
  have "low_view l s' = low_view l t'"
    by (rule step_consistent [OF a(3,4) v(1)]) (use a(6) in \<open>simp add: above_def\<close>)
  then show "level_view l s' = level_view l t'"
    using exec_resources [OF a(1,3)] exec_resources [OF a(2,4)] v(2) by (simp add: level_view_def)
qed

section \<open>Property\<close>

text \<open>C10: noninterference. Take a run from one state and, from a state that looks the same at a level, the
  run of only those of its steps that execute at or below the level, on the same or the other path. If
  both go through and nothing is declassified from above the level, the final states look the same at
  the level: what happened above leaves no trace in the plugins and resources below.\<close>

theorem noninterference:
  assumes "state_wf s" and "state_wf t" and "low_equivalent l s t"
    and "run_all (exec_on d) sts s = Inr s'" and "no_downgrade (exec_on d) (above l) step_is_declassify sts s"
    and "run_all (exec_on e) (purge (exec_on d) (above l) sts s) t = Inr t'"
  shows "low_equivalent l s' t'"
proof -
  have "level_view l s = level_view l t"
    using assms(3) low_equivalent_level_view state_wf_parts(1) assms(1,2) by blast
  then have "level_view l s' = level_view l t'" by (rule unwind.purged_view [OF assms(1,2) _ assms(4-6)])
  moreover have "tables_wf s'" "tables_wf t'"
    using state_wf_parts(1) run_on_wf [OF assms(1,4)] run_on_wf [OF assms(2,6)] by blast+
  ultimately show ?thesis by (simp add: low_equivalent_level_view)
qed

lemma noninterference_witness:
  "\<exists>s'. run_all (exec_on Pure) [demo_step] demo_state = Inr s'
     \<and> purge (exec_on Pure) (above Internal) [demo_step] demo_state = [] \<and> low_equivalent Internal s' demo_state"
proof -
  have l: "above Internal demo_step demo_state"
    using demo_plugin by (simp add: above_def step_level_def demo_step_def demo_alloc_call_def plugin_view
        grant_cap_mut_def plugin_empty_def less_security_level_def)
  have nd: "\<not> step_is_declassify demo_step" by (simp add: step_is_declassify_def demo_step_def demo_alloc_call_def)
  have p: "purge (exec_on Pure) (above Internal) [demo_step] demo_state = []"
    using l demo_step_runs [of Pure] by simp
  have e: "low_equivalent Internal demo_state demo_state"
    using state_wf_parts(1) [OF demo_state_wf] by (simp add: low_equivalent_level_view)
  have n: "no_downgrade (exec_on Pure) (above Internal) step_is_declassify [demo_step] demo_state"
    using nd by (simp split: sum.split)
  obtain s' where s': "run_all (exec_on Pure) [demo_step] demo_state = Inr s'" using demo_step_runs [of Pure] by simp
  have r: "run_all (exec_on InPlace) (purge (exec_on Pure) (above Internal) [demo_step] demo_state) demo_state
      = Inr demo_state"
    unfolding p by simp
  show ?thesis using noninterference [OF demo_state_wf demo_state_wf e s' n r] s' p by blast
qed

end
