(* ===== verification/LionMessages.thy ===== *)
theory LionMessages
  imports LionSafety
begin

text \<open>
  Messages in the step system: what a run does to the messages an actor has pending or in its mailbox.
\<close>

definition consumes :: "actor_id \<Rightarrow> step \<Rightarrow> bool" where
  "consumes aid st \<longleftrightarrow>
     (case st of StPluginInternal pid d \<Rightarrow> pid = aid \<and> pi_consume_mailbox d | _ \<Rightarrow> False)"

lemma function_execute_actors:
  "function_execute f s hc r = Inr s' \<Longrightarrow> get_actor s' = get_actor s"
  by (cases f)
    (auto simp: function_execute_def not_implemented_def hc_kernel_alloc_Inr hc_declassify_Inr hc_mem_free_Inr
      hc_cap_revoke_Inr apply_free_Inr apply_cap_revoke_def dest: hc_cap_call_Inr hc_cap_send_Inr)

lemma apply_cap_revoke_mut_actors: "apply_cap_revoke_mut s k = Inr s' \<Longrightarrow> get_actor s' = get_actor s"
  by (auto simp: apply_cap_revoke_mut_def and_then_Inr_iff)

lemma function_execute_mut_actors:
  "function_execute_mut f s hc r = Inr s' \<Longrightarrow> get_actor s' = get_actor s"
  by (cases f)
    (auto simp: function_execute_mut_def not_implemented_def hc_mut_eqs hc_kernel_alloc_mut_eq hc_kernel_alloc_Inr
      hc_declassify_Inr hc_mem_free_mut_Inr hc_cap_revoke_mut_Inr apply_free_mut_Inr
      dest: hc_cap_call_Inr hc_cap_send_Inr apply_cap_revoke_mut_actors)

lemma in_flight_unblock [simp]: "in_flight (unblock a) = in_flight a"
  by (simp add: in_flight_def unblock_def)

lemma capacity_simps [simp]: "ar_capacity (deliver a) = ar_capacity a" "ar_capacity (unblock a) = ar_capacity a"
  "ar_capacity (snd (consume_mut a)) = ar_capacity a"
  by (simp_all add: deliver_def unblock_def consume_mut_def split: list.split)

lemma kernel_op_messages:
  "kernel_op_execute op s = Inr s' \<Longrightarrow>
   map_option (\<lambda>a. (in_flight a, ar_capacity a)) (get_actor s' aid)
     = map_option (\<lambda>a. (in_flight a, ar_capacity a)) (get_actor s aid)"
proof -
  assume "kernel_op_execute op s = Inr s'"
  note this [unfolded kernel_op_Inr]
  then show ?thesis
    by (cases op) (auto simp: table_simps state_tick_Inr option.map_comp comp_def)
qed

lemma consume_front:
  "can_receive a \<Longrightarrow> in_flight a \<noteq> [] \<and> in_flight (snd (consume_mut a)) = tl (in_flight a)"
  by (cases "ar_mailbox a") (simp_all add: can_receive_def consume_mut_def in_flight_def)

lemma internal_messages:
  assumes "execute_plugin_internal s pid d = Inr s'"
  shows "map_option (\<lambda>a. (in_flight a, ar_capacity a)) (get_actor s' aid)
    = map_option (\<lambda>a. (if pid = aid \<and> pi_consume_mailbox d then tl (in_flight a) else in_flight a, ar_capacity a))
        (get_actor s aid)"
    and "pid = aid \<Longrightarrow> pi_consume_mailbox d \<Longrightarrow> get_actor s aid = Some a \<Longrightarrow> in_flight a \<noteq> []"
proof -
  obtain p where "get_plugin s pid = Some p" and pre: "is_ok (pi_check_preconditions d s pid)"
    using assms by (cases "get_plugin s pid") (auto simp: execute_plugin_internal_def and_then_Inr_iff is_ok_iff)
  then have rc: "can_receive a" if "get_actor s pid = Some a" "pi_consume_mailbox d" for a
    using that unfolding is_ok_iff pi_check_preconditions_ok by blast
  then show "pid = aid \<Longrightarrow> pi_consume_mailbox d \<Longrightarrow> get_actor s aid = Some a \<Longrightarrow> in_flight a \<noteq> []"
    using consume_front by blast
  have s': "s' = (if pi_consume_mailbox d then consume_from s pid else s)"
    using execute_plugin_internal_Inr [OF assms] by simp
  show "map_option (\<lambda>a. (in_flight a, ar_capacity a)) (get_actor s' aid)
    = map_option (\<lambda>a. (if pid = aid \<and> pi_consume_mailbox d then tl (in_flight a) else in_flight a, ar_capacity a))
        (get_actor s aid)"
    using rc consume_front by (auto simp: s' consume_from_def table_simps split: option.split)
qed

lemma step_messages:
  assumes "exec_on d st s = Inr s'"
  shows "map_option (\<lambda>a. (in_flight a, ar_capacity a)) (get_actor s' aid)
    = map_option (\<lambda>a. (if consumes aid st then tl (in_flight a) else in_flight a, ar_capacity a)) (get_actor s aid)"
    and "consumes aid st \<Longrightarrow> get_actor s aid = Some a \<Longrightarrow> in_flight a \<noteq> []"
proof -
  have "execute_plugin_internal s pid pd = Inr s'" if "st = StPluginInternal pid pd" for pid pd
    using assms that by (cases d) (simp_all add: plugin_internal_mut_eq)
  note int = internal_messages [OF this]
  show "map_option (\<lambda>a. (in_flight a, ar_capacity a)) (get_actor s' aid)
    = map_option (\<lambda>a. (if consumes aid st then tl (in_flight a) else in_flight a, ar_capacity a)) (get_actor s aid)"
  proof (cases st)
    case (StPluginInternal pid pd)
    then show ?thesis using int(1) [OF StPluginInternal, of aid] by (simp add: consumes_def)
  next
    case (StKernelInternal op)
    then have "kernel_op_execute op s = Inr s'" using assms by (cases d) (simp_all add: kernel_op_mut_eq)
    then show ?thesis using kernel_op_messages StKernelInternal by (simp add: consumes_def)
  next
    case (StHostCall hc auth r)
    then have "get_actor s' = get_actor s"
      using assms function_execute_actors function_execute_mut_actors
      by (cases d) (auto simp: execute_host_call_Inr execute_host_call_mut_Inr)
    then show ?thesis using StHostCall by (simp add: consumes_def)
  next
    case (StMemFree c a)
    then have "get_actor s' = get_actor s"
      using assms by (cases d) (auto simp: execute_mem_free_Inr execute_mem_free_mut_Inr apply_free_Inr apply_free_mut_Inr)
    then show ?thesis using StMemFree by (simp add: consumes_def)
  next
    case (StCapRevoke c k)
    then have "get_actor s' = get_actor s"
      using assms apply_cap_revoke_mut_actors
      by (cases d) (auto simp: execute_cap_revoke_Inr execute_cap_revoke_mut_Inr apply_cap_revoke_def)
    then show ?thesis using StCapRevoke by (simp add: consumes_def)
  qed
  show "consumes aid st \<Longrightarrow> get_actor s aid = Some a \<Longrightarrow> in_flight a \<noteq> []"
    using int(2) by (cases st) (auto simp: consumes_def)
qed

section \<open>Property\<close>

text \<open>C12: messages are conserved. Along a run of steps on either path the messages of an actor, in its
  mailbox and pending in order, lose from the front exactly one message for each step in which that
  actor consumes its mailbox, and nothing else happens to them: none is lost, reordered, duplicated, and
  none is ever added, by a send or otherwise. Actors neither appear nor disappear, and keep their
  capacity.\<close>

theorem messages_conserved:
  assumes "run_all (exec_on d) sts s = Inr s'"
  shows "(get_actor s aid = None \<longrightarrow> get_actor s' aid = None)
    \<and> (\<forall>a. get_actor s aid = Some a \<longrightarrow>
        (\<exists>a'. get_actor s' aid = Some a' \<and> ar_capacity a' = ar_capacity a
           \<and> length (filter (consumes aid) sts) \<le> length (in_flight a)
           \<and> in_flight a' = drop (length (filter (consumes aid) sts)) (in_flight a)))"
  using assms
proof (induction sts arbitrary: s)
  case (Cons st sts)
  obtain s1 where s1: "exec_on d st s = Inr s1" "run_all (exec_on d) sts s1 = Inr s'"
    using Cons.prems by (auto split: sum.splits)
  note m = step_messages [OF s1(1), of aid]
  show ?case
  proof (cases "get_actor s aid")
    case None
    then show ?thesis using m(1) Cons.IH [OF s1(2)] by simp
  next
    case (Some a)
    then obtain a1 where a1: "get_actor s1 aid = Some a1" "ar_capacity a1 = ar_capacity a"
        "in_flight a1 = (if consumes aid st then tl (in_flight a) else in_flight a)"
      using m(1) by (cases "get_actor s1 aid") auto
    have "consumes aid st \<Longrightarrow> in_flight a \<noteq> []" using m(2) [OF _ Some] .
    then show ?thesis
      using Some a1 Cons.IH [OF s1(2)] by (cases "in_flight a") (auto simp: drop_Suc)
  qed
qed simp

definition demo_mailbox :: actor_runtime where
  "demo_mailbox = (actor_empty 4)\<lparr>ar_mailbox := [\<lparr>mg_id = 1, mg_src = 2, mg_dst = 1, mg_level = Public, mg_body = []\<rparr>,
     \<lparr>mg_id = 2, mg_src = 2, mg_dst = 1, mg_level = Public, mg_body = []\<rparr>]\<rparr>"

definition demo_reader :: lion_state where
  "demo_reader = demo_base\<lparr>st_actors := [(1, demo_mailbox)]\<rparr>"

definition demo_read :: step where
  "demo_read = StPluginInternal 1 (plugin_compute\<lparr>pi_consume_mailbox := True\<rparr>)"

lemma messages_conserved_witness:
  "\<exists>s' a'. run_all (exec_on InPlace) [demo_read] demo_reader = Inr s' \<and> get_actor s' 1 = Some a'
     \<and> map mg_id (in_flight a') = [2]"
proof -
  have a: "get_actor demo_reader 1 = Some demo_mailbox" by (simp add: get_tb demo_reader_def table_eval)
  have p: "get_plugin demo_reader 1 = Some (plugin_empty Secret 64)"
    by (simp add: get_tb demo_reader_def demo_base_def table_eval)
  have "is_ok (pi_check_preconditions (plugin_compute\<lparr>pi_consume_mailbox := True\<rparr>) demo_reader 1)"
    using a p by (simp add: is_ok_iff pi_check_preconditions_ok plugin_compute_def demo_mailbox_def
        actor_empty_def is_blocked_def can_receive_def)
  then have "\<exists>s'. exec_on InPlace demo_read demo_reader = Inr s'"
    using p by (auto simp: demo_read_def plugin_internal_mut_eq execute_plugin_internal_def is_ok_iff and_then_Inr_iff
        plugin_compute_def)
  then obtain s' where s': "run_all (exec_on InPlace) [demo_read] demo_reader = Inr s'" by auto
  then obtain a' where a': "get_actor s' 1 = Some a'" "in_flight a' = drop 1 (in_flight demo_mailbox)"
    using messages_conserved [OF s', of 1] a by (auto simp: consumes_def demo_read_def plugin_compute_def)
  have "map mg_id (in_flight a') = [2]"
    unfolding a'(2) by (simp add: in_flight_def demo_mailbox_def actor_empty_def)
  with s' a'(1) show ?thesis by (intro exI conjI)
qed

end
