(* ===== verification/LionGaps.thy ===== *)
theory LionGaps
  imports LionSafety
begin

text \<open>
  Where the step system does not do what its documentation promises, stated and proved as
  properties of the code: the authorization trusts the presented copy of a capability, the direct
  free and revoke steps are not mediated, a host call can never free memory, and freeing address 0
  disables three host functions for good. Atomic authorization, which avoids the first, is shown
  sound.
\<close>

section \<open>Properties\<close>

text \<open>C15: a host call step built by \<open>host_call_atomic\<close> carries the kernel's own capability of the given
  identifier, fully authorized for the action the call requires in that state; executing it there is
  never refused for authorization, and on both paths it comes down to the memory preconditions and the
  host function itself.\<close>

theorem atomic_authorization:
  assumes "host_call_atomic s hc k ctx r = Inr st"
  shows "\<exists>auth. st = StHostCall hc auth r \<and> get_cap s k = Some (au_cap auth) \<and> au_ctx auth = ctx
    \<and> required_action hc = Inr (au_action auth) \<and> cp_holder (au_cap auth) = hc_caller hc \<and> mediated s auth
    \<and> step_execute st s = and_then (hc_check_preconditions hc s) (\<lambda>_. function_execute (hc_function hc) s hc r)
    \<and> step_execute_mut st s = and_then (hc_check_preconditions hc s) (\<lambda>_. function_execute_mut (hc_function hc) s hc r)"
proof -
  obtain cap a auth where c: "get_cap s k = Some cap" "required_action hc = Inr a" "cp_holder cap = hc_caller hc"
      "validate_atomic s cap a ctx = Inr auth" "st = StHostCall hc auth r"
    using assms by (auto simp: host_call_atomic_def and_then_Inr_iff ok_or_Inr_iff map_err_Inr_iff split: if_splits)
  then have auth: "auth = \<lparr>au_cap = cap, au_action = a, au_ctx = ctx\<rparr>" "mediated s auth"
    by (auto simp: validate_atomic_ok)
  have v: "auth_validate auth s = Inr ()" using auth(2) by (simp add: auth_validate_ok)
  have "ac_subject a = hc_caller hc" using required_action_Inr [OF c(2)] by simp
  with c auth v show ?thesis by (simp add: execute_host_call_def execute_host_call_mut_def)
qed

lemma atomic_authorization_witness:
  "\<exists>st. host_call_atomic demo_state demo_alloc_call 0 demo_ctx demo_result = Inr st
    \<and> is_ok (step_execute st demo_state)"
proof -
  have ra: "required_action demo_alloc_call = Inr demo_alloc_action"
    by (simp add: required_action_def demo_alloc_call_def map_policy_err_def action_new_def demo_alloc_action_def)
  have "validate_atomic demo_state demo_root demo_alloc_action demo_ctx = Inr demo_auth"
    using demo_mediated by (simp add: validate_atomic_ok demo_auth_def)
  then have h: "host_call_atomic demo_state demo_alloc_call 0 demo_ctx demo_result = Inr demo_step"
    using ra demo_caps [of 0]
    by (simp add: host_call_atomic_def demo_root_def demo_alloc_call_def demo_step_def)
  obtain auth where "demo_step = StHostCall demo_alloc_call auth demo_result" "mediated demo_state auth"
    using atomic_authorization [OF h] by blast
  then show ?thesis using h demo_step_runs [of Pure] by auto
qed

text \<open>A copy of the capability \<open>k\<close> that claims what an action needs: the subject as its holder, the target, the
  rights, no parent; the rest is arbitrary.\<close>

definition claimed_copy :: "cap_id \<Rightarrow> action \<Rightarrow> u64 \<Rightarrow> bool \<Rightarrow> sealed_tag \<Rightarrow> capability" where
  "claimed_copy k a epoch valid seal = \<lparr>cp_id = k, cp_holder = ac_subject a, cp_target = ac_target a,
     cp_rights = ac_rights a, cp_parent = None, cp_epoch = epoch, cp_valid = valid, cp_signature = seal\<rparr>"

definition claimed_witness :: "cap_id \<Rightarrow> action \<Rightarrow> policy_context \<Rightarrow> u64 \<Rightarrow> bool \<Rightarrow> sealed_tag \<Rightarrow> authorized" where
  "claimed_witness k a ctx epoch valid seal =
     \<lparr>au_cap = claimed_copy k a epoch valid seal, au_action = a, au_ctx = ctx\<rparr>"

lemma claimed_mediated:
  "mediated s (claimed_witness k a ctx e v t) \<longleftrightarrow> plugin_holds s (ac_subject a) k \<and> cap_is_valid s k
     \<and> policy_eval (ks_policy (st_kernel s)) a ctx = Permit \<and> is_live (st_ghost s) (ucast (ac_target a))
     \<and> biba_write_ok s a"
  by (auto simp: mediated_def claimed_witness_def claimed_copy_def rights_is_subset_of_def)

lemma claimed_call:
  assumes "required_action hc = Inr a"
  shows "mediated s (claimed_witness k a ctx e v t) \<Longrightarrow>
      step_execute (StHostCall hc (claimed_witness k a ctx e v t) r) s =
        and_then (hc_check_preconditions hc s) (\<lambda>_. function_execute (hc_function hc) s hc r)
      \<and> step_execute_mut (StHostCall hc (claimed_witness k a ctx e v t) r) s =
        and_then (hc_check_preconditions hc s) (\<lambda>_. function_execute_mut (hc_function hc) s hc r)"
    and "\<not> mediated s (claimed_witness k a ctx e v t) \<Longrightarrow>
      \<not> is_ok (step_execute (StHostCall hc (claimed_witness k a ctx e v t) r) s)
      \<and> \<not> is_ok (step_execute_mut (StHostCall hc (claimed_witness k a ctx e v t) r) s)"
proof -
  have w: "au_action (claimed_witness k a ctx e v t) = a" by (simp add: claimed_witness_def)
  show "\<not> mediated s (claimed_witness k a ctx e v t) \<Longrightarrow>
      \<not> is_ok (step_execute (StHostCall hc (claimed_witness k a ctx e v t) r) s)
      \<and> \<not> is_ok (step_execute_mut (StHostCall hc (claimed_witness k a ctx e v t) r) s)"
    by (simp add: is_ok_iff execute_host_call_Inr execute_host_call_mut_Inr)
  assume "mediated s (claimed_witness k a ctx e v t)"
  then have "auth_validate (claimed_witness k a ctx e v t) s = Inr ()" by (simp add: auth_validate_ok)
  then show "step_execute (StHostCall hc (claimed_witness k a ctx e v t) r) s =
        and_then (hc_check_preconditions hc s) (\<lambda>_. function_execute (hc_function hc) s hc r)
      \<and> step_execute_mut (StHostCall hc (claimed_witness k a ctx e v t) r) s =
        and_then (hc_check_preconditions hc s) (\<lambda>_. function_execute_mut (hc_function hc) s hc r)"
    using required_action_Inr [OF assms] assms w by (simp add: execute_host_call_def execute_host_call_mut_def)
qed

lemma atomic_needs_stored:
  assumes "required_action hc = Inr a" and "is_ok (host_call_atomic s hc k ctx r)"
  shows "\<exists>c. get_cap s k = Some c \<and> cp_holder c = ac_subject a \<and> cp_target c = ac_target a
    \<and> rights_is_subset_of (ac_rights a) (cp_rights c)"
proof -
  obtain c auth where "get_cap s k = Some c" "validate_atomic s c a ctx = Inr auth"
    using assms by (auto simp: is_ok_iff host_call_atomic_def and_then_Inr_iff ok_or_Inr_iff map_err_Inr_iff split: if_splits)
  then show ?thesis by (auto simp: validate_atomic_ok mediated_def)
qed

text \<open>C36: authorization trusts the presented copy of a capability. A copy that claims the subject as its
  holder, the target and the rights of the action and no parent, with any epoch, validity flag and seal,
  is accepted by \<open>validate_atomic\<close> exactly when the plugin holds the identifier, the kernel's capability of
  that identifier is valid, the policy permits the action, the target is live and the Biba check passes:
  the rights, target and holder the kernel has on record and the seal are never consulted. A host call
  that presents an accepted copy comes down, on both paths, to its memory preconditions and its function;
  one that presents a refused copy fails on both. \<open>host_call_atomic\<close>, in contrast, builds a call for that
  identifier only if the capability on record names that holder and target and has those rights.\<close>

theorem presented_copy_trusted:
  "(is_ok (validate_atomic s (claimed_copy k a e v t) a ctx) \<longleftrightarrow>
      plugin_holds s (ac_subject a) k \<and> cap_is_valid s k \<and> policy_eval (ks_policy (st_kernel s)) a ctx = Permit
      \<and> is_live (st_ghost s) (ucast (ac_target a)) \<and> biba_write_ok s a)
   \<and> (required_action hc = Inr a \<longrightarrow>
      (if is_ok (validate_atomic s (claimed_copy k a e v t) a ctx)
       then step_execute (StHostCall hc (claimed_witness k a ctx e v t) r) s =
              and_then (hc_check_preconditions hc s) (\<lambda>_. function_execute (hc_function hc) s hc r)
         \<and> step_execute_mut (StHostCall hc (claimed_witness k a ctx e v t) r) s =
              and_then (hc_check_preconditions hc s) (\<lambda>_. function_execute_mut (hc_function hc) s hc r)
       else \<not> is_ok (step_execute (StHostCall hc (claimed_witness k a ctx e v t) r) s)
         \<and> \<not> is_ok (step_execute_mut (StHostCall hc (claimed_witness k a ctx e v t) r) s)))
   \<and> (required_action hc = Inr a \<and> is_ok (host_call_atomic s hc k ctx r) \<longrightarrow>
      (\<exists>c. get_cap s k = Some c \<and> cp_holder c = ac_subject a \<and> cp_target c = ac_target a
        \<and> rights_is_subset_of (ac_rights a) (cp_rights c)))"
proof -
  have "is_ok (validate_atomic s (claimed_copy k a e v t) a ctx) \<longleftrightarrow> mediated s (claimed_witness k a ctx e v t)"
    by (simp add: is_ok_iff validate_atomic_ok claimed_witness_def)
  then show ?thesis
    using claimed_mediated [of s k a ctx e v t] claimed_call [of hc a s k ctx e v t r]
      atomic_needs_stored [of hc a s k ctx r]
    by (simp only: simp_thms if_split) blast
qed

text \<open>Plugin 1 of the demo state holds capability 0, whose target is address 0. After another allocation a copy
  without a seal authorizes the plugin for address 1; and the allocation call runs with such a copy.\<close>

lemma presented_copy_trusted_witness:
  "(let s = apply_alloc demo_state 1 5; a = demo_alloc_action\<lparr>ac_target := 1\<rparr>
    in is_ok (validate_atomic s (claimed_copy 0 a 9 False tag_empty) a demo_ctx)
       \<and> get_cap s 0 = Some demo_root \<and> cp_target demo_root \<noteq> 1)
   \<and> is_ok (step_execute (StHostCall demo_alloc_call (claimed_witness 0 demo_alloc_action demo_ctx 9 False tag_empty)
        demo_result) demo_state)"
proof
  have b: "biba_write_ok s demo_alloc_action" "biba_write_ok s (demo_alloc_action\<lparr>ac_target := 1\<rparr>)" for s
    using contains_singleton [of Create Write] by (simp_all add: biba_write_ok_iff demo_alloc_action_def)
  have p: "policy_eval policy_permit_all a demo_ctx = Permit" for a
    by (simp add: policy_eval_def policy_permit_all_def)
  have "is_live (st_ghost (apply_alloc demo_state 1 5)) 1"
    by (simp add: demo_state_def delegate_to_def apply_alloc_eq demo_base_def state_empty_def meta_alloc_def
        meta_empty_def meta_resource_count_def is_live_def is_freed_def table_eval)
  moreover have "ks_policy (st_kernel (apply_alloc demo_state 1 5)) = policy_permit_all"
    "plugin_holds (apply_alloc demo_state 1 5) 1 0" "cap_is_valid (apply_alloc demo_state 1 5) 0"
    using demo_policy demo_holds demo_valid
    by (simp_all add: apply_alloc_eq plugin_view cap_is_valid_def)
  ultimately have "is_ok (validate_atomic (apply_alloc demo_state 1 5)
      (claimed_copy 0 (demo_alloc_action\<lparr>ac_target := 1\<rparr>) 9 False tag_empty) (demo_alloc_action\<lparr>ac_target := 1\<rparr>) demo_ctx)"
    using presented_copy_trusted [THEN conjunct1, of "apply_alloc demo_state 1 5" 0 "demo_alloc_action\<lparr>ac_target := 1\<rparr>"
        9 False tag_empty demo_ctx] b(2) p
    by (simp add: demo_alloc_action_def)
  then show "let s = apply_alloc demo_state 1 5; a = demo_alloc_action\<lparr>ac_target := 1\<rparr>
    in is_ok (validate_atomic s (claimed_copy 0 a 9 False tag_empty) a demo_ctx)
       \<and> get_cap s 0 = Some demo_root \<and> cp_target demo_root \<noteq> 1"
    using demo_caps [of 0] by (simp add: Let_def get_cap_def apply_alloc_eq demo_root_def)
  have ra: "required_action demo_alloc_call = Inr demo_alloc_action"
    by (simp add: required_action_def demo_alloc_call_def map_policy_err_def action_new_def demo_alloc_action_def)
  have v: "is_ok (validate_atomic demo_state (claimed_copy 0 demo_alloc_action 9 False tag_empty) demo_alloc_action demo_ctx)"
    using presented_copy_trusted [THEN conjunct1, of demo_state 0 demo_alloc_action 9 False tag_empty demo_ctx]
      b(1) p demo_policy demo_holds demo_valid demo_ghost(1) by (simp add: demo_alloc_action_def)
  have "step_execute (StHostCall demo_alloc_call (claimed_witness 0 demo_alloc_action demo_ctx 9 False tag_empty)
      demo_result) demo_state = and_then (hc_check_preconditions demo_alloc_call demo_state)
        (\<lambda>_. function_execute (hc_function demo_alloc_call) demo_state demo_alloc_call demo_result)"
    using presented_copy_trusted [THEN conjunct2, THEN conjunct1, THEN mp, OF ra,
        of demo_state 0 9 False tag_empty demo_ctx demo_result]
    by (simp only: v if_True)
  moreover have "is_ok (step_execute demo_step demo_state)" using demo_step_runs [of Pure] by simp
  then have "is_ok (and_then (hc_check_preconditions demo_alloc_call demo_state)
        (\<lambda>_. function_execute (hc_function demo_alloc_call) demo_state demo_alloc_call demo_result))"
    by (auto simp: demo_step_def execute_host_call_Inr is_ok_iff and_then_Inr_iff)
  ultimately show "is_ok (step_execute (StHostCall demo_alloc_call
      (claimed_witness 0 demo_alloc_action demo_ctx 9 False tag_empty) demo_result) demo_state)" by simp
qed

text \<open>The direct steps are not mediated. Revoking directly succeeds for every caller, registered or not,
  on every capability that exists, and invalidates it with all its descendants on the in-place path;
  freeing directly depends on the caller in no way either.\<close>

theorem direct_steps_unmediated:
  assumes "state_wf s" and "get_cap s k \<noteq> None"
  shows "(\<exists>s'. step_execute_mut (StCapRevoke caller k) s = Inr s'
      \<and> (\<forall>j. (k, j) \<in> (child_rel (ks_revocation (st_kernel s)))\<^sup>* \<longrightarrow> \<not> cap_is_valid s' j))
    \<and> is_ok (step_execute (StCapRevoke caller k) s)
    \<and> exec_on d (StMemFree caller a) s = exec_on d (StMemFree other a) s"
proof -
  let ?r = "ks_revocation (st_kernel s)"
  have "step_execute_mut (StCapRevoke caller k) s = Inr (with_revocation s (revoke_transitive_fast ?r k))"
    using assms by (simp add: execute_cap_revoke_mut_Inr apply_cap_revoke_mut_eq)
  moreover have "\<not> cap_is_valid (with_revocation s (revoke_transitive_fast ?r k)) j"
    if "(k, j) \<in> (child_rel ?r)\<^sup>*" for j
    using that fast.revoke_valid [OF state_wf_parts(2) [OF assms(1)]] by (simp add: cap_is_valid_def)
  moreover have "is_ok (step_execute (StCapRevoke caller k) s)"
    using assms(2) by (simp add: execute_cap_revoke_def get_cap_def)
  ultimately show ?thesis by (cases d) auto
qed

lemma direct_steps_unmediated_witness:
  "get_plugin demo_state 999 = None \<and> is_ok (step_execute_mut (StCapRevoke 999 0) demo_state)"
proof -
  have "get_cap demo_state 0 \<noteq> None" using demo_caps [of 0] by simp
  from direct_steps_unmediated [OF demo_state_wf this, of 999 Pure 0 1]
  have "is_ok (step_execute_mut (StCapRevoke 999 0) demo_state)" by (auto simp: is_ok_iff)
  moreover have "get_plugin demo_state 999 = None"
    by (simp add: demo_state_def delegate_to_def table_simps) (simp add: get_tb demo_base_def table_eval)
  ultimately show ?thesis by simp
qed

text \<open>C40: a host call can never free memory with a genuine capability. Authorizing \<open>MemFree\<close> of an address
  requires a valid capability targeting that address, and the operation refuses every address that a
  valid capability targets, so each such call fails on both paths.\<close>

theorem host_mem_free_refused:
  assumes "state_wf s" and "hc_function hc = FnMemFree"
    and "get_cap s (cp_id (au_cap auth)) = Some c" and "cp_target c = cp_target (au_cap auth)"
  shows "\<exists>e. exec_on d (StHostCall hc auth r) s = Inl e"
proof (cases "exec_on d (StHostCall hc auth r) s")
  case (Inr s')
  have h: "required_action hc = Inr (au_action auth)" "mediated s auth"
    using exec_on_host_call [OF Inr] by simp_all
  obtain a where a: "first_arg hc = Some a" "ac_target (au_action auth) = ucast a"
    using required_action_Inr [OF h(1)] assms(2) by auto
  have "cp_valid c" "cp_target c = ucast a"
    using h(2) assms(3,4) a(2) by (auto simp: mediated_def cap_is_valid_def rev_is_valid_get get_cap_def)
  moreover have "(cp_id (au_cap auth), c) \<in> set (rv_caps (ks_revocation (st_kernel s)))"
    using assms(3) rev_get_mem [OF state_wf_parts(2) [OF assms(1)]] by (simp add: get_cap_def)
  ultimately have "any_valid_targeting (ks_revocation (st_kernel s)) (ucast a)"
    by (force simp: any_valid_targeting_def list_ex_iff)
  then have False
    using Inr a(1) assms(2)
    by (cases d) (auto simp: execute_host_call_Inr execute_host_call_mut_Inr function_execute_def
        function_execute_mut_def hc_mem_free_Inr hc_mem_free_mut_Inr apply_free_Inr apply_free_mut_Inr)
  then show ?thesis ..
qed simp

lemma host_mem_free_refused_witness:
  "\<exists>e. exec_on Pure (StHostCall (demo_alloc_call\<lparr>hc_function := FnMemFree, hc_args := [0]\<rparr>)
     demo_auth demo_result) demo_state = Inl e"
  using host_mem_free_refused [OF demo_state_wf, of "demo_alloc_call\<lparr>hc_function := FnMemFree, hc_args := [0]\<rparr>"
      demo_auth demo_root Pure demo_result] demo_caps [of 0]
  by (simp add: demo_auth_def demo_root_def)

text \<open>Allocation, sending and declassification are authorized against resource 0, so once address 0 has
  been freed no such host call executes again, for any plugin, capability or path, after any run.\<close>

theorem address_zero_starvation:
  assumes "state_wf s" and "is_freed (st_ghost s) 0" and "run_all (exec_on d) sts s = Inr s'"
    and "hc_function hc \<in> {FnKernelAlloc, FnCapSend, FnDeclassify}"
  shows "\<exists>e. exec_on d' (StHostCall hc auth r) s' = Inl e"
proof (cases "exec_on d' (StHostCall hc auth r) s'")
  case (Inr s'')
  have h: "required_action hc = Inr (au_action auth)" "mediated s' auth"
    using exec_on_host_call [OF Inr] by simp_all
  have "ac_target (au_action auth) = 0"
    using required_action_Inr [OF h(1)] assms(4) by auto
  then have "\<not> is_freed (st_ghost s') 0" using mediated_live [OF h(2)] by simp
  moreover have "is_freed (st_ghost s') 0"
    using run_on_progress [OF assms(1,3)] assms(2) by (simp add: state_progress_def)
  ultimately show ?thesis by simp
qed simp

lemma address_zero_starvation_witness:
  "\<exists>s e. apply_free demo_base 0 = Inr s \<and> exec_on InPlace demo_step s = Inl e"
proof -
  have "\<not> any_valid_targeting (ks_revocation (st_kernel demo_base)) (ucast (0 :: mem_addr))"
    by (simp add: any_valid_targeting_def demo_base_def kernel_state_default_def rev_empty_def)
  then obtain s where s: "apply_free demo_base 0 = Inr s" "s = demo_base\<lparr>st_ghost := meta_free (st_ghost demo_base) 0\<rparr>"
    by (auto simp: apply_free_Inr)
  have wf: "state_wf s" using demo_base_wf s(1) by (rule state_wf_free)
  have fr: "is_freed (st_ghost s) 0"
    using s(2) is_freed_free [OF state_wf_parts(3) [OF demo_base_wf], of 0 0] by simp
  have "\<exists>e. exec_on InPlace (StHostCall demo_alloc_call demo_auth demo_result) s = Inl e"
    by (rule address_zero_starvation [OF wf fr, of Pure "[]"]) (simp_all add: demo_alloc_call_def)
  then show ?thesis using s(1) by (auto simp: demo_step_def)
qed

end
