(* ===== verification/LionKernelApi.thy ===== *)
theory LionKernelApi
  imports LionGaps
begin

text \<open>
  The public \<open>Kernel\<close> (\<open>kernel.rs\<close>): every operation over the owned state, delegation with its
  minting of sealed children included, and the reachable kernels as an inductive relation over the
  calls a client can make. The HMAC of the external crate is the parameter \<open>hmac\<close>. A fallible
  \<open>&mut self\<close> method that may already have written returns its result with the kernel it leaves
  behind; the outer \<open>None\<close> is the panic of sealing.
\<close>

datatype lion_error =
  ErCapability capability_error
| ErPolicy policy_error
| ErRights rights_error
| ErStep step_error
| ErState state_error
| ErKernel kernel_error

record kernel =
  kn_state :: lion_state

definition kernel_new :: kernel where
  "kernel_new = \<lparr>kn_state = state_empty\<rparr>"

definition api_tick :: "kernel \<Rightarrow> lion_error + kernel" where
  "api_tick k = and_then (map_err ErState (state_tick (kn_state k))) (\<lambda>s. Inr (k\<lparr>kn_state := s\<rparr>))"

definition api_execute :: "kernel \<Rightarrow> step \<Rightarrow> lion_error + kernel" where
  "api_execute k st =
     and_then (map_err ErStep (step_execute st (kn_state k))) (\<lambda>new_state. Inr (k\<lparr>kn_state := new_state\<rparr>))"

definition api_execute_mut :: "kernel \<Rightarrow> step \<Rightarrow> lion_error + kernel" where
  "api_execute_mut k st =
     and_then (map_err ErStep (step_execute_mut st (kn_state k))) (\<lambda>s. Inr (k\<lparr>kn_state := s\<rparr>))"

definition register_plugin :: "kernel \<Rightarrow> plugin_id \<Rightarrow> security_level \<Rightarrow> mem_size \<Rightarrow> lion_error + kernel" where
  "register_plugin k i level sz =
     (let ps = plugin_empty level sz
      in and_then (map_err ErState (insert_plugin (kn_state k) i ps)) (\<lambda>s. Inr (k\<lparr>kn_state := s\<rparr>)))"

definition delegate_cap ::
  "hmac_fun \<Rightarrow> kernel \<Rightarrow> cap_id \<Rightarrow> plugin_id \<Rightarrow> rights \<Rightarrow> ((lion_error + cap_id) \<times> kernel) option" where
  "delegate_cap hmac k parent_id target requested_rights =
     (case get_cap (kn_state k) parent_id of
        None \<Rightarrow> Some (Inl (ErKernel (CapNotFound parent_id)), k)
      | Some parent \<Rightarrow>
          if \<not> cp_valid parent then Some (Inl (ErCapability Revoked), k)
          else let child_rights = rights_intersection requested_rights (cp_rights parent)
               in if rights_is_empty child_rights then Some (Inl (ErCapability EmptyRights), k)
                  else case alloc_cap_id (st_kernel (kn_state k)) of
                         Inl e \<Rightarrow> Some (Inl (ErKernel e), k)
                       | Inr (i, ks) \<Rightarrow>
                           let s1 = (kn_state k)\<lparr>st_kernel := ks\<rparr>;
                               k1 = k\<lparr>kn_state := s1\<rparr>;
                               epoch = ky_epoch (ks_key_state (st_kernel s1));
                               payload = \<lparr>pl_holder = target, pl_target = cp_target parent,
                                          pl_rights = child_rights, pl_parent = Some parent_id,
                                          pl_epoch = epoch\<rparr>
                           in case seal_payload hmac (ky_current (ks_key_state (st_kernel s1))) payload of
                                None \<Rightarrow> None
                              | Some sig \<Rightarrow>
                                  Some (case capability_new i target (cp_target parent) child_rights
                                               (Some parent_id) epoch sig of
                                          Inl e \<Rightarrow> (Inl (ErCapability e), k1)
                                        | Inr child \<Rightarrow>
                                            (case apply_cap_delegate_mut s1 child target of
                                               Inl e \<Rightarrow> (Inl (ErKernel e), k1)
                                             | Inr s2 \<Rightarrow> (Inr i, k1\<lparr>kn_state := s2\<rparr>))))"

definition insert_cap_raw :: "kernel \<Rightarrow> capability \<Rightarrow> plugin_id \<Rightarrow> lion_error + kernel" where
  "insert_cap_raw k cap target =
     and_then (map_err ErKernel (apply_cap_delegate_mut (kn_state k) cap target)) (\<lambda>s. Inr (k\<lparr>kn_state := s\<rparr>))"

definition revoke_cap :: "kernel \<Rightarrow> cap_id \<Rightarrow> lion_error + kernel" where
  "revoke_cap k i =
     and_then (map_err ErKernel (apply_cap_revoke_mut (kn_state k) i)) (\<lambda>s. Inr (k\<lparr>kn_state := s\<rparr>))"

definition api_alloc :: "kernel \<Rightarrow> plugin_id \<Rightarrow> mem_size \<Rightarrow> u64 \<times> kernel" where
  "api_alloc k owner sz =
     (let (addr, s) = apply_alloc_mut (kn_state k) owner sz in (addr, k\<lparr>kn_state := s\<rparr>))"

definition api_free :: "kernel \<Rightarrow> u64 \<Rightarrow> lion_error + kernel" where
  "api_free k addr =
     and_then (map_err ErState (apply_free_mut (kn_state k) addr)) (\<lambda>s. Inr (k\<lparr>kn_state := s\<rparr>))"

section \<open>Reachable kernels\<close>

text \<open>A call and the kernel it leaves behind, whether it succeeds or fails; \<open>None\<close> is a panic.\<close>

datatype kernel_call =
  CallTick
| CallExecute step
| CallExecuteMut step
| CallRegister plugin_id security_level mem_size
| CallDelegate cap_id plugin_id rights
| CallInsertRaw capability plugin_id
| CallRevoke cap_id
| CallAlloc plugin_id mem_size
| CallFree u64

definition left_by :: "kernel \<Rightarrow> lion_error + kernel \<Rightarrow> kernel" where
  "left_by k r = (case r of Inl _ \<Rightarrow> k | Inr k' \<Rightarrow> k')"

fun perform :: "hmac_fun \<Rightarrow> kernel_call \<Rightarrow> kernel \<Rightarrow> kernel option" where
  "perform hmac CallTick k = Some (left_by k (api_tick k))"
| "perform hmac (CallExecute st) k = Some (left_by k (api_execute k st))"
| "perform hmac (CallExecuteMut st) k = Some (left_by k (api_execute_mut k st))"
| "perform hmac (CallRegister i l n) k = Some (left_by k (register_plugin k i l n))"
| "perform hmac (CallDelegate p t r) k = map_option snd (delegate_cap hmac k p t r)"
| "perform hmac (CallInsertRaw c t) k = Some (left_by k (insert_cap_raw k c t))"
| "perform hmac (CallRevoke i) k = Some (left_by k (revoke_cap k i))"
| "perform hmac (CallAlloc o1 n) k = Some (snd (api_alloc k o1 n))"
| "perform hmac (CallFree a) k = Some (left_by k (api_free k a))"

text \<open>Reachability under a discipline \<open>allowed\<close> on the calls.\<close>

inductive kernel_reach :: "hmac_fun \<Rightarrow> (kernel_call \<Rightarrow> bool) \<Rightarrow> kernel \<Rightarrow> bool"
  for hmac :: hmac_fun and allowed :: "kernel_call \<Rightarrow> bool" where
  reach_new: "kernel_reach hmac allowed kernel_new"
| reach_call: "kernel_reach hmac allowed k \<Longrightarrow> allowed c \<Longrightarrow> perform hmac c k = Some k' \<Longrightarrow>
    kernel_reach hmac allowed k'"

inductive_cases kernel_reachE: "kernel_reach hmac allowed k"

text \<open>The kernel after an identifier was consumed, and the child a delegation mints.\<close>

definition bumped :: "lion_state \<Rightarrow> lion_state" where
  "bumped s = s\<lparr>st_kernel := (st_kernel s)\<lparr>ks_next_cap_id := ks_next_cap_id (st_kernel s) + 1\<rparr>\<rparr>"

definition child_of :: "lion_state \<Rightarrow> cap_id \<Rightarrow> capability \<Rightarrow> plugin_id \<Rightarrow> rights \<Rightarrow> sealed_tag \<Rightarrow> capability" where
  "child_of s p parent t r sig =
     \<lparr>cp_id = ks_next_cap_id (st_kernel s), cp_holder = t, cp_target = cp_target parent,
      cp_rights = rights_intersection r (cp_rights parent), cp_parent = Some p,
      cp_epoch = ky_epoch (ks_key_state (st_kernel s)), cp_valid = True, cp_signature = sig\<rparr>"

definition child_seal :: "hmac_fun \<Rightarrow> lion_state \<Rightarrow> cap_id \<Rightarrow> capability \<Rightarrow> plugin_id \<Rightarrow> rights \<Rightarrow> sealed_tag option" where
  "child_seal hmac s p parent t r =
     seal_payload hmac (ky_current (ks_key_state (st_kernel s)))
       \<lparr>pl_holder = t, pl_target = cp_target parent, pl_rights = rights_intersection r (cp_rights parent),
        pl_parent = Some p, pl_epoch = ky_epoch (ks_key_state (st_kernel s))\<rparr>"

text \<open>The effect of a call on the state: a step transition, or one of the calls only the kernel makes.\<close>

inductive api_trans :: "hmac_fun \<Rightarrow> lion_state \<Rightarrow> kernel_call \<Rightarrow> lion_state \<Rightarrow> bool"
  for hmac :: hmac_fun where
  at_same: "api_trans hmac s c s"
| at_step: "step_execute st s = Inr s' \<Longrightarrow> api_trans hmac s (CallExecute st) s'"
| at_step_mut: "step_execute_mut st s = Inr s' \<Longrightarrow> api_trans hmac s (CallExecuteMut st) s'"
| at_tick: "state_tick s = Inr s' \<Longrightarrow> api_trans hmac s CallTick s'"
| at_register: "insert_plugin s i (plugin_empty l n) = Inr s' \<Longrightarrow> api_trans hmac s (CallRegister i l n) s'"
| at_raw: "get_cap s (cp_id c) = None \<Longrightarrow> api_trans hmac s (CallInsertRaw c t) (delegate_to s c t)"
| at_bumped: "api_trans hmac s (CallDelegate p t r) (bumped s)"
| at_mint: "get_cap s p = Some parent \<Longrightarrow> cp_valid parent \<Longrightarrow>
    \<not> rights_is_empty (rights_intersection r (cp_rights parent)) \<Longrightarrow>
    child_seal hmac s p parent t r = Some sig \<Longrightarrow> t \<noteq> 0 \<Longrightarrow>
    get_cap s (ks_next_cap_id (st_kernel s)) = None \<Longrightarrow>
    api_trans hmac s (CallDelegate p t r) (delegate_to (bumped s) (child_of s p parent t r sig) t)"
| at_revoke: "apply_cap_revoke_mut s i = Inr s' \<Longrightarrow> api_trans hmac s (CallRevoke i) s'"
| at_alloc: "api_trans hmac s (CallAlloc o1 n) (apply_alloc s o1 n)"
| at_free: "apply_free_mut s a = Inr s' \<Longrightarrow> api_trans hmac s (CallFree a) s'"

lemma left_by_simps [simp]: "left_by k (Inl e) = k" "left_by k (Inr k') = k'"
  by (simp_all add: left_by_def)

lemma alloc_cap_id_Inr:
  "alloc_cap_id ks = Inr (i, ks') \<longleftrightarrow> i = ks_next_cap_id ks \<and> ks_next_cap_id ks \<noteq> - 1
     \<and> ks' = ks\<lparr>ks_next_cap_id := ks_next_cap_id ks + 1\<rparr>"
  by (auto simp: alloc_cap_id_def checked_add_one Let_def)

lemma bumped_simps [simp]:
  "get_cap (bumped s) = get_cap s" "get_plugin (bumped s) = get_plugin s"
  "st_plugins (bumped s) = st_plugins s" "st_actors (bumped s) = st_actors s"
  "st_resources (bumped s) = st_resources s" "st_workflows (bumped s) = st_workflows s"
  "st_ghost (bumped s) = st_ghost s" "ks_policy (st_kernel (bumped s)) = ks_policy (st_kernel s)"
  "ks_key_state (st_kernel (bumped s)) = ks_key_state (st_kernel s)"
  "ks_revocation (st_kernel (bumped s)) = ks_revocation (st_kernel s)"
  "ks_next_cap_id (st_kernel (bumped s)) = ks_next_cap_id (st_kernel s) + 1"
  by (simp_all add: bumped_def get_cap_def fun_eq_iff)

lemma state_wf_bumped: "state_wf s \<Longrightarrow> state_wf (bumped s)"
  unfolding bumped_def by (simp add: state_wf_def)

lemma delegate_cap_early:
  "get_cap (kn_state k) p = None \<Longrightarrow> delegate_cap hmac k p t r = Some (Inl (ErKernel (CapNotFound p)), k)"
  "get_cap (kn_state k) p = Some parent \<Longrightarrow> \<not> cp_valid parent \<Longrightarrow>
   delegate_cap hmac k p t r = Some (Inl (ErCapability Revoked), k)"
  "get_cap (kn_state k) p = Some parent \<Longrightarrow> cp_valid parent \<Longrightarrow>
   rights_is_empty (rights_intersection r (cp_rights parent)) \<Longrightarrow>
   delegate_cap hmac k p t r = Some (Inl (ErCapability EmptyRights), k)"
  "get_cap (kn_state k) p = Some parent \<Longrightarrow> cp_valid parent \<Longrightarrow>
   \<not> rights_is_empty (rights_intersection r (cp_rights parent)) \<Longrightarrow>
   ks_next_cap_id (st_kernel (kn_state k)) = - 1 \<Longrightarrow>
   delegate_cap hmac k p t r = Some (Inl (ErKernel CapIdExhausted), k)"
  by (simp_all add: delegate_cap_def Let_def alloc_cap_id_def checked_add_one)

lemma delegate_cap_late:
  assumes "get_cap (kn_state k) p = Some parent" and "cp_valid parent"
    and "\<not> rights_is_empty (rights_intersection r (cp_rights parent))"
    and "ks_next_cap_id (st_kernel (kn_state k)) \<noteq> - 1"
  shows "child_seal hmac (kn_state k) p parent t r = None \<Longrightarrow> delegate_cap hmac k p t r = None"
    and "child_seal hmac (kn_state k) p parent t r = Some sig \<Longrightarrow> t = 0 \<Longrightarrow>
      delegate_cap hmac k p t r = Some (Inl (ErCapability InvalidHolder), k\<lparr>kn_state := bumped (kn_state k)\<rparr>)"
    and "child_seal hmac (kn_state k) p parent t r = Some sig \<Longrightarrow> t \<noteq> 0 \<Longrightarrow>
      get_cap (kn_state k) (ks_next_cap_id (st_kernel (kn_state k))) \<noteq> None \<Longrightarrow>
      delegate_cap hmac k p t r = Some (Inl (ErKernel (CapIdCollision (ks_next_cap_id (st_kernel (kn_state k))))),
        k\<lparr>kn_state := bumped (kn_state k)\<rparr>)"
    and "child_seal hmac (kn_state k) p parent t r = Some sig \<Longrightarrow> t \<noteq> 0 \<Longrightarrow>
      get_cap (kn_state k) (ks_next_cap_id (st_kernel (kn_state k))) = None \<Longrightarrow>
      delegate_cap hmac k p t r = Some (Inr (ks_next_cap_id (st_kernel (kn_state k))),
        k\<lparr>kn_state := delegate_to (bumped (kn_state k)) (child_of (kn_state k) p parent t r sig) t\<rparr>)"
proof -
  let ?s = "kn_state k"
  have a: "alloc_cap_id (st_kernel ?s) = Inr (ks_next_cap_id (st_kernel ?s), st_kernel (bumped ?s))"
    using assms(4) by (simp add: alloc_cap_id_Inr bumped_def)
  have b: "?s\<lparr>st_kernel := st_kernel (bumped ?s)\<rparr> = bumped ?s" by (simp add: bumped_def)
  note d = delegate_cap_def Let_def a b child_seal_def
  show "child_seal hmac ?s p parent t r = None \<Longrightarrow> delegate_cap hmac k p t r = None"
    using assms by (simp add: d)
  show "child_seal hmac ?s p parent t r = Some sig \<Longrightarrow> t = 0 \<Longrightarrow>
      delegate_cap hmac k p t r = Some (Inl (ErCapability InvalidHolder), k\<lparr>kn_state := bumped ?s\<rparr>)"
    using assms by (simp add: d capability_new_def)
  note e = apply_cap_delegate_mut_eq apply_cap_delegate_eq capability_new_def child_of_def
  show "child_seal hmac ?s p parent t r = Some sig \<Longrightarrow> t \<noteq> 0 \<Longrightarrow> get_cap ?s (ks_next_cap_id (st_kernel ?s)) \<noteq> None \<Longrightarrow>
      delegate_cap hmac k p t r = Some (Inl (ErKernel (CapIdCollision (ks_next_cap_id (st_kernel ?s)))),
        k\<lparr>kn_state := bumped ?s\<rparr>)"
    using assms by (simp add: d e)
  show "child_seal hmac ?s p parent t r = Some sig \<Longrightarrow> t \<noteq> 0 \<Longrightarrow> get_cap ?s (ks_next_cap_id (st_kernel ?s)) = None \<Longrightarrow>
      delegate_cap hmac k p t r = Some (Inr (ks_next_cap_id (st_kernel ?s)),
        k\<lparr>kn_state := delegate_to (bumped ?s) (child_of ?s p parent t r sig) t\<rparr>)"
    using assms by (simp add: d e)
qed

lemma delegate_cap_trans:
  assumes "delegate_cap hmac k p t r = Some (res, k')"
  shows "api_trans hmac (kn_state k) (CallDelegate p t r) (kn_state k')"
proof -
  let ?s = "kn_state k"
  consider "kn_state k' = ?s" | "kn_state k' = bumped ?s"
    | parent sig where "get_cap ?s p = Some parent" "cp_valid parent"
        "\<not> rights_is_empty (rights_intersection r (cp_rights parent))"
        "child_seal hmac ?s p parent t r = Some sig" "t \<noteq> 0" "get_cap ?s (ks_next_cap_id (st_kernel ?s)) = None"
        "kn_state k' = delegate_to (bumped ?s) (child_of ?s p parent t r sig) t"
  proof (cases "get_cap ?s p")
    case None
    then show ?thesis using assms that(1) by (simp add: delegate_cap_early)
  next
    case (Some parent)
    note e = delegate_cap_early(2-4) [OF Some] and l = delegate_cap_late [OF Some]
    show ?thesis
    proof (cases "cp_valid parent \<and> \<not> rights_is_empty (rights_intersection r (cp_rights parent))
        \<and> ks_next_cap_id (st_kernel ?s) \<noteq> - 1")
      case False
      then have "k' = k"
        using assms e [where hmac = hmac and t = t and r = r]
        by (cases "cp_valid parent"; cases "rights_is_empty (rights_intersection r (cp_rights parent))") simp_all
      then show ?thesis using that(1) by simp
    next
      case True
      then have v: "cp_valid parent" "\<not> rights_is_empty (rights_intersection r (cp_rights parent))"
          "ks_next_cap_id (st_kernel ?s) \<noteq> - 1" by simp_all
      obtain sig where sig: "child_seal hmac ?s p parent t r = Some sig"
        using l(1) [OF v, of hmac t] assms by (cases "child_seal hmac ?s p parent t r") simp_all
      show ?thesis
      proof (cases "t \<noteq> 0 \<and> get_cap ?s (ks_next_cap_id (st_kernel ?s)) = None")
        case True
        then show ?thesis
          using assms l(4) [OF v sig] by (intro that(3) [OF Some v(1,2) sig]) auto
      next
        case False
        then have "\<exists>e. delegate_cap hmac k p t r = Some (Inl e, k\<lparr>kn_state := bumped ?s\<rparr>)"
          using l(2,3) [OF v sig] by (cases "t = 0") simp_all
        then show ?thesis using assms that(2) by auto
      qed
    qed
  qed
  then show ?thesis
    by cases (simp_all add: at_same at_bumped at_mint)
qed

lemma perform_trans:
  assumes "perform hmac c k = Some k'"
  shows "api_trans hmac (kn_state k) c (kn_state k')"
  using assms
proof (cases c)
  case (CallDelegate p t r)
  then show ?thesis using assms by (auto intro: delegate_cap_trans)
next
  case (CallInsertRaw cap t)
  then show ?thesis using assms
    by (auto simp: insert_cap_raw_def apply_cap_delegate_mut_eq apply_cap_delegate_eq intro: at_same at_raw)
next
  case (CallAlloc o1 n)
  then show ?thesis using assms by (auto simp: api_alloc_def apply_alloc_mut_eq intro: at_alloc)
next
  case CallTick
  then show ?thesis using assms
    by (cases "state_tick (kn_state k)") (auto simp: api_tick_def intro: at_same at_tick)
next
  case (CallExecute st)
  then show ?thesis using assms
    by (cases "step_execute st (kn_state k)") (auto simp: api_execute_def intro: at_same at_step)
next
  case (CallExecuteMut st)
  then show ?thesis using assms
    by (cases "step_execute_mut st (kn_state k)") (auto simp: api_execute_mut_def intro: at_same at_step_mut)
next
  case (CallRegister i l n)
  then show ?thesis using assms
    by (cases "insert_plugin (kn_state k) i (plugin_empty l n)")
      (auto simp: register_plugin_def Let_def intro: at_same at_register)
next
  case (CallRevoke i)
  then show ?thesis using assms
    by (cases "apply_cap_revoke_mut (kn_state k) i") (auto simp: revoke_cap_def intro: at_same at_revoke)
next
  case (CallFree a)
  then show ?thesis using assms
    by (cases "apply_free_mut (kn_state k) a") (auto simp: api_free_def intro: at_same at_free)
qed

section \<open>Queries\<close>

text \<open>The queries of \<open>Kernel\<close> are those of its state; its default is a new kernel.\<close>

definition api_time :: "kernel \<Rightarrow> u64" where
  "api_time k = state_time (kn_state k)"

definition api_plugin_level :: "kernel \<Rightarrow> plugin_id \<Rightarrow> security_level option" where
  "api_plugin_level k p = plugin_level (kn_state k) p"

definition api_get_cap :: "kernel \<Rightarrow> cap_id \<Rightarrow> capability option" where
  "api_get_cap k i = get_cap (kn_state k) i"

definition api_cap_is_valid :: "kernel \<Rightarrow> cap_id \<Rightarrow> bool" where
  "api_cap_is_valid k i = cap_is_valid (kn_state k) i"

definition api_plugin_holds :: "kernel \<Rightarrow> plugin_id \<Rightarrow> cap_id \<Rightarrow> bool" where
  "api_plugin_holds k p i = plugin_holds (kn_state k) p i"

definition api_plugin_count :: "kernel \<Rightarrow> nat" where
  "api_plugin_count k = plugin_count (kn_state k)"

definition api_actor_count :: "kernel \<Rightarrow> nat" where
  "api_actor_count k = actor_count (kn_state k)"

definition api_resource_count :: "kernel \<Rightarrow> nat" where
  "api_resource_count k = resource_count (kn_state k)"

definition api_workflow_count :: "kernel \<Rightarrow> nat" where
  "api_workflow_count k = workflow_count (kn_state k)"

definition api_default :: "kernel" where
  "api_default = kernel_new"

lemmas api_query_defs =
  api_time_def api_plugin_level_def api_get_cap_def api_cap_is_valid_def api_plugin_holds_def
  api_plugin_count_def api_actor_count_def api_resource_count_def api_workflow_count_def

end
