(* ===== verification/LionErrors.thy ===== *)
theory LionErrors
  imports LionKernelApi
begin

text \<open>
  The messages of the errors: every \<open>Display\<close> implementation of an error type of the crate, and the
  derived \<open>Debug\<close> forms they embed. Text is ASCII, as everywhere in the development; the error values
  themselves are the datatypes of the components.
\<close>

section \<open>Debug forms\<close>

text \<open>A string literal as \<open>Debug\<close> prints it, for ASCII.\<close>

definition hex_digit :: "nat \<Rightarrow> char" where
  "hex_digit n = (if n < 10 then char_of (48 + n) else char_of (87 + n))"

definition hex_nat :: "nat \<Rightarrow> string" where
  "hex_nat n = (if n < 16 then [hex_digit n] else [hex_digit (n div 16), hex_digit (n mod 16)])"

definition escape_char :: "char \<Rightarrow> string" where
  "escape_char c =
     (let n = of_char c :: nat in
      if n = 0 then [char_of (92 :: nat), char_of (48 :: nat)]
      else if n = 9 then [char_of (92 :: nat), char_of (116 :: nat)]
      else if n = 10 then [char_of (92 :: nat), char_of (110 :: nat)]
      else if n = 13 then [char_of (92 :: nat), char_of (114 :: nat)]
      else if n = 34 \<or> n = 92 then [char_of (92 :: nat), c]
      else if n < 32 \<or> n = 127 then [char_of (92 :: nat)] @ ''u{'' @ hex_nat n @ ''}''
      else [c])"

definition debug_str :: "string \<Rightarrow> string" where
  "debug_str s = [char_of (34 :: nat)] @ concat (map escape_char s) @ [char_of (34 :: nat)]"

definition debug_opt :: "u128 option \<Rightarrow> string" where
  "debug_opt x = (case x of None \<Rightarrow> ''None'' | Some v \<Rightarrow> ''Some('' @ show_nat (unat v) @ '')'')"

fun debug_items :: "u64 list \<Rightarrow> string" where
  "debug_items [] = []"
| "debug_items [x] = show_nat (unat x)"
| "debug_items (x # y # xs) = show_nat (unat x) @ '', '' @ debug_items (y # xs)"

definition debug_vec :: "u64 list \<Rightarrow> string" where
  "debug_vec xs = ''['' @ debug_items xs @ '']''"

fun debug_level :: "security_level \<Rightarrow> string" where
  "debug_level Public = ''Public''" | "debug_level Internal = ''Internal''"
| "debug_level Confidential = ''Confidential''" | "debug_level Secret = ''Secret''"

fun debug_node_state :: "node_state \<Rightarrow> string" where
  "debug_node_state Pending = ''Pending''" | "debug_node_state Active = ''Active''"
| "debug_node_state Completed = ''Completed''" | "debug_node_state Failed = ''Failed''"

definition variant1 :: "string \<Rightarrow> string \<Rightarrow> string" where
  "variant1 name a = name @ ''('' @ a @ '')''"

definition variant2 :: "string \<Rightarrow> string \<Rightarrow> string \<Rightarrow> string" where
  "variant2 name a b = name @ ''('' @ a @ '', '' @ b @ '')''"

fun debug_state_error :: "state_error \<Rightarrow> string" where
  "debug_state_error (PluginNotFound i) = variant1 ''PluginNotFound'' (show_nat (unat i))"
| "debug_state_error (ActorNotFound i) = variant1 ''ActorNotFound'' (show_nat (unat i))"
| "debug_state_error (ResourceNotFound i) = variant1 ''ResourceNotFound'' (show_nat (unat i))"
| "debug_state_error (WorkflowNotFound i) = variant1 ''WorkflowNotFound'' (show_nat (unat i))"
| "debug_state_error (CapabilityNotFound i) = variant1 ''CapabilityNotFound'' (show_nat (unat i))"
| "debug_state_error (CapabilityNotHeld p c) =
     variant2 ''CapabilityNotHeld'' (show_nat (unat p)) (show_nat (unat c))"
| "debug_state_error (IsolationViolation a b) =
     variant2 ''IsolationViolation'' (show_nat (unat a)) (show_nat (unat b))"
| "debug_state_error (DanglingCapability a) = variant1 ''DanglingCapability'' (show_nat (unat a))"
| "debug_state_error (PluginExists i) = variant1 ''PluginExists'' (show_nat (unat i))"
| "debug_state_error (ActorExists i) = variant1 ''ActorExists'' (show_nat (unat i))"
| "debug_state_error (ResourceExists i) = variant1 ''ResourceExists'' (show_nat (unat i))"
| "debug_state_error (WorkflowExists i) = variant1 ''WorkflowExists'' (show_nat (unat i))"
| "debug_state_error (CounterOverflow n) = variant1 ''CounterOverflow'' (debug_str n)"

section \<open>Messages\<close>

fun capability_error_display :: "capability_error \<Rightarrow> string" where
  "capability_error_display InvalidHolder = ''Holder must be > 0''"
| "capability_error_display EmptyRights = ''Rights cannot be empty''"
| "capability_error_display InvalidSignature = ''Invalid capability signature''"
| "capability_error_display Revoked = ''Capability has been revoked''"
| "capability_error_display SealVerificationFailed = ''Seal verification failed''"

fun policy_error_display :: "policy_error \<Rightarrow> string" where
  "policy_error_display (InvalidAction msg) = ''Invalid action: '' @ msg"
| "policy_error_display (EvaluationFailed msg) = ''Policy evaluation failed: '' @ msg"

fun rights_error_display :: "rights_error \<Rightarrow> string" where
  "rights_error_display NoRights = ''Rights set cannot be empty''"
| "rights_error_display (InvalidRight v) = ''Invalid right value: '' @ show_nat (unat v)"

fun kernel_error_display :: "kernel_error \<Rightarrow> string" where
  "kernel_error_display (CapNotFound i) = ''Capability '' @ show_nat (unat i) @ '' not found''"
| "kernel_error_display CapIdExhausted = ''Capability ID space exhausted''"
| "kernel_error_display (CapIdCollision i) = ''Capability ID '' @ show_nat (unat i) @ '' already exists''"
| "kernel_error_display (InvalidCapability msg) = ''Invalid capability: '' @ msg"
| "kernel_error_display (KernelCounterOverflow name) = name @ '' counter overflow''"

fun workflow_error_display :: "workflow_error \<Rightarrow> string" where
  "workflow_error_display (NodeNotFound n) = ''Node '' @ show_nat (unat n) @ '' not found''"
| "workflow_error_display (InvalidTransition n a b) =
     ''Invalid transition for node '' @ show_nat (unat n) @ '': '' @ debug_node_state a @ '' -> '' @ debug_node_state b"
| "workflow_error_display TimedOut = ''Workflow timed out''"
| "workflow_error_display (DependenciesNotSatisfied n deps) =
     ''Node '' @ show_nat (unat n) @ '' has unsatisfied dependencies: '' @ debug_vec deps"

fun authorization_error_display :: "authorization_error \<Rightarrow> string" where
  "authorization_error_display (AuCapabilityNotFound i) = ''Capability '' @ show_nat (unat i) @ '' not found''"
| "authorization_error_display (AuCapabilityRevoked i) = ''Capability '' @ show_nat (unat i) @ '' is revoked''"
| "authorization_error_display (HolderMismatch e a) =
     ''Holder mismatch: expected '' @ show_nat (unat e) @ '', got '' @ show_nat (unat a)"
| "authorization_error_display (TargetMismatch e a) =
     ''Target mismatch: expected '' @ show_nat (unat e) @ '', got '' @ show_nat (unat a)"
| "authorization_error_display InsufficientRights = ''Insufficient rights''"
| "authorization_error_display PolicyDenied = ''Policy denied the action''"
| "authorization_error_display (ResourceNotLive a) = ''Resource at '' @ show_nat (unat a) @ '' is not live''"
| "authorization_error_display (BibaViolation w t) =
     ''Biba violation: writer level '' @ debug_level w @ '' cannot write to target level '' @ debug_level t"
| "authorization_error_display (AuCapabilityNotHeld i) =
     ''Capability '' @ show_nat (unat i) @ '' not held by plugin''"

fun plugin_precondition_display :: "plugin_precondition \<Rightarrow> string" where
  "plugin_precondition_display (PlBlocked pid on) =
     ''Plugin '' @ show_nat (unat pid) @ '' is blocked on '' @ debug_opt on"
| "plugin_precondition_display (PlReadOutOfBounds a n b) =
     ''Read region '' @ show_nat (unat a) @ ''+'' @ show_nat (unat n) @ '' out of bounds (memory size ''
       @ show_nat (unat b) @ '')''"
| "plugin_precondition_display (PlWriteOutOfBounds a n b) =
     ''Write region '' @ show_nat (unat a) @ ''+'' @ show_nat (unat n) @ '' out of bounds (memory size ''
       @ show_nat (unat b) @ '')''"
| "plugin_precondition_display PlMailboxEmpty = ''Cannot consume mailbox: mailbox is empty''"

fun host_call_precondition_display :: "host_call_precondition \<Rightarrow> string" where
  "host_call_precondition_display (HcReadOutOfBounds a n) =
     ''Read region '' @ show_nat (unat a) @ ''+'' @ show_nat (unat n) @ '' out of bounds''"
| "host_call_precondition_display (HcWriteOutOfBounds a n) =
     ''Write region '' @ show_nat (unat a) @ ''+'' @ show_nat (unat n) @ '' out of bounds''"
| "host_call_precondition_display NoValidCapability = ''No valid capability held''"
| "host_call_precondition_display NoMessage = ''No message to send''"
| "host_call_precondition_display SourceMismatch =
     ''Message source doesn'' @ [char_of (39 :: nat)] @ ''t match caller''"
| "host_call_precondition_display HcMailboxFull = ''Destination mailbox full''"
| "host_call_precondition_display (InvalidSecurityLevel v) = ''Invalid security level: '' @ show_nat (unat v)"
| "host_call_precondition_display CannotClassifyUp = ''Cannot classify up''"
| "host_call_precondition_display NoAddress = ''No address to free''"
| "host_call_precondition_display NoCapabilityId = ''No capability ID to revoke''"
| "host_call_precondition_display (FreeFailed source) = ''Free failed: '' @ debug_state_error source"
| "host_call_precondition_display (HcNotImplemented operation) =
     operation @ '' requires Phase 3 State extension (threads/scheduler)''"

fun kernel_op_error_display :: "kernel_op_error \<Rightarrow> string" where
  "kernel_op_error_display (NoPendingMessages dst) =
     ''Actor '' @ show_nat (unat dst) @ '' has no pending messages''"
| "kernel_op_error_display (MailboxAtCapacity dst) = ''Actor '' @ show_nat (unat dst) @ '' mailbox at capacity''"
| "kernel_op_error_display (KoWorkflowNotFound wid) = ''Workflow '' @ show_nat (unat wid) @ '' not found''"
| "kernel_op_error_display (WorkflowNotRunning wid) = ''Workflow '' @ show_nat (unat wid) @ '' is not running''"
| "kernel_op_error_display (KoNotImplemented operation) =
     operation @ '' requires Phase 3 State extension (threads/scheduler)''"
| "kernel_op_error_display (KoCounterOverflow msg) = ''counter overflow: '' @ msg"

fun transition_reason_display :: "invalid_transition_reason \<Rightarrow> string" where
  "transition_reason_display (IncompatibleStates expected found) = ''expected '' @ expected @ '', found '' @ found"

definition quota_kind_name :: "u8 \<Rightarrow> string" where
  "quota_kind_name k =
     (if k = 0 then ''memory'' else if k = 1 then ''capability'' else if k = 2 then ''ipc_queue'' else ''unknown'')"

fun step_error_display :: "step_error \<Rightarrow> string" where
  "step_error_display (StepPluginNotFound i) = ''plugin '' @ show_nat (unat i) @ '' not found''"
| "step_error_display (StepActorNotFound i) = ''actor '' @ show_nat (unat i) @ '' not found''"
| "step_error_display (AddressAlreadyFreed a) = ''address '' @ show_nat (unat a) @ '' already freed''"
| "step_error_display (CapabilityTargetsAddress c a) =
     ''capability '' @ show_nat (unat c) @ '' targets address '' @ show_nat (unat a)"
| "step_error_display (StepCapabilityNotFound i) = ''capability '' @ show_nat (unat i) @ '' not found''"
| "step_error_display (AuthorizationFailed e) = ''authorization failed: '' @ authorization_error_display e"
| "step_error_display (PluginPreconditionFailed r) =
     ''plugin precondition failed: '' @ plugin_precondition_display r"
| "step_error_display (HostCallPreconditionFailed r) =
     ''host call precondition failed: '' @ host_call_precondition_display r"
| "step_error_display (KernelOpFailed r) = ''kernel operation failed: '' @ kernel_op_error_display r"
| "step_error_display (StepInvalidTransition r) = ''invalid transition: '' @ transition_reason_display r"
| "step_error_display (StepStateError e) = ''state error: '' @ state_error_to_string e"
| "step_error_display (QuotaExceeded kind requested current quota) =
     quota_kind_name kind @ '' quota exceeded: requested '' @ show_nat (unat requested) @ '', current ''
       @ show_nat (unat current) @ '', quota '' @ show_nat (unat quota)"

fun lion_error_display :: "lion_error \<Rightarrow> string" where
  "lion_error_display (ErCapability e) = ''capability: '' @ capability_error_display e"
| "lion_error_display (ErPolicy e) = ''policy: '' @ policy_error_display e"
| "lion_error_display (ErRights e) = ''rights: '' @ rights_error_display e"
| "lion_error_display (ErStep e) = ''step: '' @ step_error_display e"
| "lion_error_display (ErState e) = ''state: '' @ state_error_to_string e"
| "lion_error_display (ErKernel e) = ''kernel: '' @ kernel_error_display e"

datatype error_source = SourceCapability capability_error | SourcePolicy policy_error

fun lion_error_source :: "lion_error \<Rightarrow> error_source option" where
  "lion_error_source (ErCapability source) = Some (SourceCapability source)"
| "lion_error_source (ErPolicy source) = Some (SourcePolicy source)"
| "lion_error_source _ = None"

section \<open>What a message tells\<close>

text \<open>Decimal numbers separate: what follows the digits is determined.\<close>

definition no_digit :: "string \<Rightarrow> bool" where
  "no_digit s \<longleftrightarrow> (case s of [] \<Rightarrow> True | c # _ \<Rightarrow> \<not> is_digit c)"

lemma no_digit_simps [simp]: "no_digit []" "no_digit (c # s) \<longleftrightarrow> \<not> is_digit c"
  by (simp_all add: no_digit_def)

lemma show_nat_split: "no_digit s \<Longrightarrow> takeWhile is_digit (show_nat n @ s) = show_nat n"
  using show_nat_facts [of n] by (cases s) (simp_all add: list_all_iff takeWhile_append2)

lemma show_nat_inj [simp]: "show_nat m = show_nat n \<longleftrightarrow> m = n"
  using show_nat_facts by metis

lemma show_nat_append_eq:
  assumes "no_digit s" and "no_digit t"
  shows "show_nat m @ s = show_nat n @ t \<longleftrightarrow> m = n \<and> s = t"
proof
  assume e: "show_nat m @ s = show_nat n @ t"
  then have "takeWhile is_digit (show_nat m @ s) = takeWhile is_digit (show_nat n @ t)" by simp
  then have "m = n" using assms by (simp add: show_nat_split)
  with e show "m = n \<and> s = t" by simp
qed simp

lemma show_nat_append_self:
  assumes "no_digit s" and "s \<noteq> []"
  shows "show_nat m @ s \<noteq> show_nat n" "show_nat n \<noteq> show_nat m @ s"
  using show_nat_append_eq [OF assms(1), of "[]" m n] assms(2) by auto

lemma last_show_nat: "is_digit (last (show_nat n))"
  using show_nat_facts [of n] by (simp add: list_all_iff)

lemma digit_chars: "\<not> is_digit (CHR '' '')" "\<not> is_digit (CHR ''w'')"
  by (simp_all add: is_digit_def to_digit_def)

lemma last_show_nat_not_w: "last (show_nat n) \<noteq> CHR ''w''"
  using last_show_nat [of n] digit_chars(2) by metis

lemma state_error_last:
  "last (state_error_to_string e) = CHR ''w'' \<longleftrightarrow> (\<exists>n. e = CounterOverflow n)"
  by (cases e) (auto simp: show_nat_facts last_show_nat_not_w)

text \<open>The message of a state error determines the error.\<close>

lemma state_error_inj: "state_error_to_string e = state_error_to_string f \<longleftrightarrow> e = f"
proof
  assume eq: "state_error_to_string e = state_error_to_string f"
  show "e = f"
  proof (cases "\<exists>n. e = CounterOverflow n")
    case True
    then obtain n m where "e = CounterOverflow n" "f = CounterOverflow m" using eq state_error_last by metis
    then show ?thesis using eq by simp
  next
    case False
    then have "\<nexists>m. f = CounterOverflow m" using eq state_error_last by metis
    with False eq show ?thesis
      by (cases e; cases f)
        (simp_all add: show_nat_append_eq show_nat_append_self digit_chars word_unat_eq_iff)
  qed
qed simp

end
