(* ===== verification/LionNames.thy ===== *)
theory LionNames
  imports LionText LionRights LionSecurity LionPolicy
begin

text \<open>
  Printing and parsing of the enumerations (\<open>Display\<close>, \<open>FromStr\<close> of \<open>Right\<close>, \<open>SecurityLevel\<close>,
  \<open>PolicyDecision\<close>), and the runtime classification types of \<open>types/runtime.rs\<close> with theirs. What a
  parser owes its printer is the locale \<open>text_format\<close>; every type of this theory interprets it.
\<close>

datatype parse_error = ParseError string

section \<open>Rights, levels and decisions\<close>

fun right_name :: "right \<Rightarrow> string" where
  "right_name Read = ''read''"
| "right_name Write = ''write''"
| "right_name Execute = ''execute''"
| "right_name Create = ''create''"
| "right_name Delete = ''delete''"
| "right_name Send = ''send''"
| "right_name Receive = ''receive''"
| "right_name Delegate = ''delegate''"
| "right_name Revoke = ''revoke''"
| "right_name Declassify = ''declassify''"

fun right_short_name :: "right \<Rightarrow> char" where
  "right_short_name Read = CHR ''r''"
| "right_short_name Write = CHR ''w''"
| "right_short_name Execute = CHR ''x''"
| "right_short_name Create = CHR ''c''"
| "right_short_name Delete = CHR ''d''"
| "right_short_name Send = CHR ''s''"
| "right_short_name Receive = CHR ''v''"
| "right_short_name Delegate = CHR ''g''"
| "right_short_name Revoke = CHR ''k''"
| "right_short_name Declassify = CHR ''y''"

definition right_from_str :: "string \<Rightarrow> parse_error + right" where
  "right_from_str s =
     (let t = to_lowercase s
      in if t = ''read'' \<or> t = ''r'' then Inr Read
         else if t = ''write'' \<or> t = ''w'' then Inr Write
         else if t = ''execute'' \<or> t = ''x'' then Inr Execute
         else if t = ''create'' \<or> t = ''c'' then Inr Create
         else if t = ''delete'' \<or> t = ''d'' then Inr Delete
         else if t = ''send'' \<or> t = ''s'' then Inr Send
         else if t = ''receive'' \<or> t = ''v'' then Inr Receive
         else if t = ''delegate'' \<or> t = ''g'' then Inr Delegate
         else if t = ''revoke'' \<or> t = ''k'' then Inr Revoke
         else if t = ''declassify'' \<or> t = ''y'' then Inr Declassify
         else Inl (ParseError s))"

fun level_name :: "security_level \<Rightarrow> string" where
  "level_name Public = ''public''"
| "level_name Internal = ''internal''"
| "level_name Confidential = ''confidential''"
| "level_name Secret = ''secret''"

definition level_from_str :: "string \<Rightarrow> parse_error + security_level" where
  "level_from_str s =
     (let t = to_lowercase s
      in if t = ''public'' \<or> t = ''0'' then Inr Public
         else if t = ''internal'' \<or> t = ''1'' then Inr Internal
         else if t = ''confidential'' \<or> t = ''2'' then Inr Confidential
         else if t = ''secret'' \<or> t = ''3'' then Inr Secret
         else Inl (ParseError s))"

fun decision_name :: "policy_decision \<Rightarrow> string" where
  "decision_name Permit = ''permit''"
| "decision_name Deny = ''deny''"
| "decision_name Indeterminate = ''indeterminate''"

definition decision_from_str :: "string \<Rightarrow> parse_error + policy_decision" where
  "decision_from_str s =
     (let t = to_lowercase (trim s)
      in if t = ''permit'' then Inr Permit
         else if t = ''deny'' then Inr Deny
         else if t = ''indeterminate'' then Inr Indeterminate
         else Inl (ParseError s))"

section \<open>Runtime classification types\<close>

datatype mem_region = MrKernel | MrPlugin plugin_id

fun mr_is_kernel :: "mem_region \<Rightarrow> bool" where
  "mr_is_kernel MrKernel = True"
| "mr_is_kernel (MrPlugin _) = False"

fun mr_is_plugin :: "mem_region \<Rightarrow> bool" where
  "mr_is_plugin MrKernel = False"
| "mr_is_plugin (MrPlugin _) = True"

fun mr_plugin_id :: "mem_region \<Rightarrow> plugin_id option" where
  "mr_plugin_id (MrPlugin pid) = Some pid"
| "mr_plugin_id MrKernel = None"

fun mr_to_string :: "mem_region \<Rightarrow> string" where
  "mr_to_string MrKernel = ''kernel''"
| "mr_to_string (MrPlugin i) = ''plugin:'' @ show_nat (unat i)"

definition mr_from_str :: "string \<Rightarrow> parse_error + mem_region" where
  "mr_from_str s =
     (let lower = to_lowercase (trim s)
      in if lower = ''kernel'' then Inr MrKernel
         else case strip_prefix ''plugin:'' lower of
                Some id_str \<Rightarrow>
                  (case parse_u128 id_str of
                     Some i \<Rightarrow> Inr (MrPlugin i)
                   | None \<Rightarrow> Inl (ParseError s))
              | None \<Rightarrow> Inl (ParseError s))"

datatype msg_state = Sent | Queued | Delivered | Dropped

fun msg_name :: "msg_state \<Rightarrow> string" where
  "msg_name Sent = ''sent''"
| "msg_name Queued = ''queued''"
| "msg_name Delivered = ''delivered''"
| "msg_name Dropped = ''dropped''"

definition msg_is_in_transit :: "msg_state \<Rightarrow> bool" where
  "msg_is_in_transit m \<longleftrightarrow> m = Sent \<or> m = Queued"

definition msg_is_delivered :: "msg_state \<Rightarrow> bool" where
  "msg_is_delivered m \<longleftrightarrow> m = Delivered"

definition msg_is_dropped :: "msg_state \<Rightarrow> bool" where
  "msg_is_dropped m \<longleftrightarrow> m = Dropped"

definition msg_is_terminal :: "msg_state \<Rightarrow> bool" where
  "msg_is_terminal m \<longleftrightarrow> m = Delivered \<or> m = Dropped"

definition msg_from_str :: "string \<Rightarrow> parse_error + msg_state" where
  "msg_from_str s =
     (let t = to_lowercase (trim s)
      in if t = ''sent'' then Inr Sent
         else if t = ''queued'' then Inr Queued
         else if t = ''delivered'' then Inr Delivered
         else if t = ''dropped'' then Inr Dropped
         else Inl (ParseError s))"

section \<open>The contract of a parser\<close>

text \<open>
  \<open>norm\<close> is what a parser does to its input before it compares (lower case, for some after
  trimming): the result depends on the input only through it, the error carries the input as it came.
\<close>

locale text_format =
  fixes print :: "'a \<Rightarrow> string" and parse :: "string \<Rightarrow> parse_error + 'a" and norm :: "string \<Rightarrow> string"
  assumes parse_print: "parse (print x) = Inr x"
    and parse_norm: "norm s = norm t \<Longrightarrow> parse s = Inr x \<Longrightarrow> parse t = Inr x"
    and parse_error: "parse s = Inl e \<Longrightarrow> e = ParseError s"
begin

lemma print_inj: "print x = print y \<Longrightarrow> x = y"
  by (metis parse_print sum.inject(2))

lemma parse_onto: "\<exists>s. parse s = Inr x"
  using parse_print by blast

lemma parse_variant: "norm s = norm (print x) \<Longrightarrow> parse s = Inr x"
  using parse_norm parse_print by metis

lemma reparse: "parse s = Inr x \<Longrightarrow> parse (print x) = parse s"
  by (simp add: parse_print)

end

interpretation right_text: text_format right_name right_from_str to_lowercase
proof
  show "right_from_str (right_name x) = Inr x" for x
    by (cases x) (simp_all add: right_from_str_def to_lowercase_def char_lower_def)
qed (auto simp: right_from_str_def Let_def split: if_splits)

interpretation level_text: text_format level_name level_from_str to_lowercase
proof
  show "level_from_str (level_name x) = Inr x" for x
    by (cases x) (simp_all add: level_from_str_def to_lowercase_def char_lower_def)
qed (auto simp: level_from_str_def Let_def split: if_splits)

interpretation decision_text: text_format decision_name decision_from_str "\<lambda>s. to_lowercase (trim s)"
proof
  show "decision_from_str (decision_name x) = Inr x" for x
    by (cases x) (simp_all add: decision_from_str_def trim_id is_whitespace_def to_lowercase_def char_lower_def)
qed (auto simp: decision_from_str_def Let_def split: if_splits)

interpretation msg_text: text_format msg_name msg_from_str "\<lambda>s. to_lowercase (trim s)"
proof
  show "msg_from_str (msg_name x) = Inr x" for x
    by (cases x) (simp_all add: msg_from_str_def trim_id is_whitespace_def to_lowercase_def char_lower_def)
qed (auto simp: msg_from_str_def Let_def split: if_splits)

lemma mr_from_str_Inr:
  "mr_from_str s = Inr m \<longleftrightarrow>
     (case m of
        MrKernel \<Rightarrow> to_lowercase (trim s) = ''kernel''
      | MrPlugin i \<Rightarrow> \<exists>ds. to_lowercase (trim s) = ''plugin:'' @ ds \<and> parse_u128 ds = Some i)"
  by (cases m) (auto simp: mr_from_str_def Let_def strip_prefix_iff strip_prefix_None split: option.splits if_splits)

interpretation region_text: text_format mr_to_string mr_from_str "\<lambda>s. to_lowercase (trim s)"
proof
  show "mr_from_str (mr_to_string x) = Inr x" for x
  proof (cases x)
    case MrKernel
    then show ?thesis by (simp add: mr_from_str_Inr trim_id is_whitespace_def to_lowercase_def char_lower_def)
  next
    case (MrPlugin i)
    have "trim (''plugin:'' @ show_nat (unat i)) = ''plugin:'' @ show_nat (unat i)"
      using show_nat_facts [of "unat i"] by (intro trim_id) (simp_all add: is_whitespace_def)
    moreover have "to_lowercase ''plugin:'' = ''plugin:''" by (simp add: to_lowercase_def char_lower_def)
    ultimately have "to_lowercase (trim (mr_to_string x)) = ''plugin:'' @ show_nat (unat i)"
      using MrPlugin by (simp add: to_lowercase_append del: append_Cons)
    then show ?thesis using parse_show_nat MrPlugin by (simp add: mr_from_str_Inr)
  qed
qed (auto simp: mr_from_str_def Let_def split: if_splits option.splits)

lemma names_trimmed:
  "trim (decision_name d) = decision_name d" "trim (msg_name m) = msg_name m"
  "trim (mr_to_string r) = mr_to_string r"
proof -
  show "trim (decision_name d) = decision_name d"
    by (cases d) (simp_all add: trim_id is_whitespace_def)
  show "trim (msg_name m) = msg_name m"
    by (cases m) (simp_all add: trim_id is_whitespace_def)
  show "trim (mr_to_string r) = mr_to_string r"
    using show_nat_facts by (cases r) (auto intro!: trim_id simp: is_whitespace_def)
qed

text \<open>Printing and parsing are inverse, and parsing tolerates what it says: a right is read back from its
  letter too, a level from its number, and decisions, message states and memory regions with any white
  space around them.\<close>

lemma right_letter: "right_from_str [right_short_name x] = Inr x"
  by (cases x) (simp_all add: right_from_str_def to_lowercase_def char_lower_def)

lemma level_number: "level_from_str (show_nat (unat (level_to_u8 l))) = Inr l"
  by (cases l) (simp_all add: level_from_str_def show_nat.simps to_lowercase_def char_lower_def char_of_eq_iff)

lemma padded_names:
  assumes "list_all is_whitespace a" and "list_all is_whitespace b"
  shows "decision_from_str (a @ decision_name d @ b) = Inr d" "msg_from_str (a @ msg_name m @ b) = Inr m"
    and "mr_from_str (a @ mr_to_string r @ b) = Inr r"
proof -
  show "decision_from_str (a @ decision_name d @ b) = Inr d"
    by (rule decision_text.parse_variant) (use assms in \<open>simp add: trim_pad names_trimmed\<close>)
  show "msg_from_str (a @ msg_name m @ b) = Inr m"
    by (rule msg_text.parse_variant) (use assms in \<open>simp add: trim_pad names_trimmed\<close>)
  show "mr_from_str (a @ mr_to_string r @ b) = Inr r"
    by (rule region_text.parse_variant) (use assms in \<open>simp add: trim_pad names_trimmed\<close>)
qed

text \<open>The parser of memory regions accepts exactly the strings that, trimmed and in lower case, are
  \<open>kernel\<close> or \<open>plugin:\<close> followed by an optional plus and at least one decimal digit whose value fits
  128 bits, and returns that value; everything else, overflow included, is refused with the input.\<close>

theorem region_parser_exact:
  "(mr_from_str s = Inr MrKernel \<longleftrightarrow> to_lowercase (trim s) = ''kernel'')
   \<and> (mr_from_str s = Inr (MrPlugin i) \<longleftrightarrow>
        (\<exists>ds. to_lowercase (trim s) = ''plugin:'' @ ds \<and> skip_plus ds \<noteq> [] \<and> list_all is_digit (skip_plus ds)
           \<and> dec_value 0 (skip_plus ds) < 2 ^ 128 \<and> unat i = dec_value 0 (skip_plus ds)))
   \<and> (\<forall>e. mr_from_str s = Inl e \<longrightarrow> e = ParseError s)"
  by (simp add: mr_from_str_Inr parse_u128_iff) (blast dest: region_text.parse_error)

lemma region_parser_exact_witness:
  "mr_from_str ''plugin:-1'' = Inl (ParseError ''plugin:-1'')"
proof -
  have "\<exists>e. mr_from_str ''plugin:-1'' = Inl e"
    by (simp add: mr_from_str_def trim_id is_whitespace_def to_lowercase_def char_lower_def strip_prefix_def
        parse_u128_def skip_plus_def to_digit_def)
  then show ?thesis using region_parser_exact [of "''plugin:-1''"] by blast
qed

end
