(* ===== verification/LionRightsIter.thy ===== *)
theory LionRightsIter
  imports LionRights LionNames
begin

text \<open>
  The iterator over a set of rights (\<open>RightsIter\<close>), the conversions to and from collections, the
  named sets, and the printed form of a set. A \<open>for\<close> loop over the iterator is \<open>iter_collect\<close>.
\<close>

record rights_iter =
  it_bits :: u16

definition rights_iter_of :: "rights \<Rightarrow> rights_iter" where
  "rights_iter_of r = \<lparr>it_bits = rights_bits r\<rparr>"

definition iter_next :: "rights_iter \<Rightarrow> right option \<times> rights_iter" where
  "iter_next it =
     (if it_bits it = 0 then (None, it)
      else let b = trailing_zeros (it_bits it);
               it' = it\<lparr>it_bits := it_bits it AND (it_bits it - 1)\<rparr>
           in (right_from_u8 (of_nat b), it'))"

definition count_ones :: "'a::len word \<Rightarrow> nat" where
  "count_ones w = length (filter (bit w) [0..<LENGTH('a)])"

definition iter_size_hint :: "rights_iter \<Rightarrow> nat \<times> nat option" where
  "iter_size_hint it = (let n = count_ones (it_bits it) in (n, Some n))"

function iter_collect :: "rights_iter \<Rightarrow> right list" where
  "iter_collect it =
     (case iter_next it of
        (None, _) \<Rightarrow> []
      | (Some x, it') \<Rightarrow> x # iter_collect it')"
  by pat_completeness auto
termination
  by (relation "measure (unat \<circ> it_bits)")
    (auto simp: iter_next_def Let_def clear_lowest_less split: if_splits)

declare iter_collect.simps [simp del]

fun from_iter_loop :: "right list \<Rightarrow> u16 \<Rightarrow> u16" where
  "from_iter_loop [] bits = bits"
| "from_iter_loop (x # xs) bits = from_iter_loop xs (bits OR right_as_mask x)"

definition rights_from_iter :: "right list \<Rightarrow> rights" where
  "rights_from_iter xs = \<lparr>rights_bits = from_iter_loop xs 0\<rparr>"

definition rights_is_superset_of :: "rights \<Rightarrow> rights \<Rightarrow> bool" where
  "rights_is_superset_of r s \<longleftrightarrow> rights_is_subset_of s r"

definition rights_contains_all :: "rights \<Rightarrow> rights \<Rightarrow> bool" where
  "rights_contains_all r s \<longleftrightarrow> rights_is_subset_of s r"

definition rights_read_only :: rights where
  "rights_read_only = rights_singleton Read"

definition rights_read_write :: rights where
  "rights_read_write = rights_from_slice [Read, Write]"

definition rights_read_write_execute :: rights where
  "rights_read_write_execute = rights_from_slice [Read, Write, Execute]"

text \<open>\<open>Display\<close> of a set: the loop carries whether it is at the first element.\<close>

fun display_loop :: "right list \<Rightarrow> bool \<Rightarrow> string" where
  "display_loop [] first = ''''"
| "display_loop (x # xs) first = (if first then '''' else '', '') @ right_name x @ display_loop xs False"

definition rights_to_string :: "rights \<Rightarrow> string" where
  "rights_to_string r = ''{'' @ display_loop (iter_collect (rights_iter_of r)) True @ ''}''"

section \<open>Iteration\<close>

lemma right_from_index: "i < 10 \<Longrightarrow> right_from_u8 (of_nat i) = right_at i \<and> right_at i \<noteq> None"
proof -
  assume "i < 10"
  then obtain x where x: "i = right_index x" using right_of_index by blast
  then have "of_nat i = right_to_u8 x" by (simp add: right_index_def)
  then show ?thesis using right_u8_roundtrip [of x] right_at_index [of x] x by simp
qed

lemma iter_collect_to_vec:
  "\<forall>i. bit w i \<longrightarrow> i < 10 \<Longrightarrow> iter_collect \<lparr>it_bits = w\<rparr> = to_vec_loop w"
proof (induction w rule: to_vec_loop.induct)
  case (1 w)
  show ?case
  proof (cases "w = 0")
    case True
    then show ?thesis by (simp add: iter_collect.simps iter_next_def to_vec_loop.simps)
  next
    case False
    have "trailing_zeros w < 10" using trailing_zeros_props(1) [OF False] 1 by blast
    then obtain x where x: "right_from_u8 (of_nat (trailing_zeros w)) = Some x"
      using right_from_index by (metis not_None_eq)
    have "\<forall>i. bit (w AND (w - 1)) i \<longrightarrow> i < 10" using 1 by (simp add: bit_and_iff)
    then have "iter_collect \<lparr>it_bits = w AND (w - 1)\<rparr> = to_vec_loop (w AND (w - 1))"
      using 1 False x by blast
    then show ?thesis
      using False x by (simp add: iter_collect.simps [of "\<lparr>it_bits = w\<rparr>"] iter_next_def to_vec_loop.simps [of w])
  qed
qed

lemma bit_from_iter_loop: "bit (from_iter_loop xs b) i \<longleftrightarrow> bit b i \<or> (\<exists>x \<in> set xs. i = right_index x)"
  by (induction xs arbitrary: b) (auto simp: bit_or_iff bit_as_mask)

lemma rights_from_iter_set: "rights_set (rights_from_iter xs) = set xs" "rights_wf (rights_from_iter xs)"
  using right_index_less by (auto simp: rights_from_iter_def rights_set_def contains_bit rights_wf_bits bit_from_iter_loop)

lemma iter_next_Some:
  assumes "rights_wf r" and "iter_next (rights_iter_of r) = (Some x, it)"
  shows "x \<in> rights_set r" and "\<forall>y \<in> rights_set r. right_index x \<le> right_index y"
    and "it = rights_iter_of (rights_without r x)"
proof -
  let ?w = "rights_bits r"
  have nz: "?w \<noteq> 0" and from8: "right_from_u8 (of_nat (trailing_zeros ?w)) = Some x"
    and it: "it = \<lparr>it_bits = ?w AND (?w - 1)\<rparr>"
    using assms(2) by (auto simp: iter_next_def rights_iter_of_def Let_def split: if_splits)
  note tz = trailing_zeros_props [OF nz]
  have "trailing_zeros ?w < 10" using tz(1) assms(1) by (simp add: rights_wf_bits)
  then obtain z where z: "right_index z = trailing_zeros ?w" using right_of_index by blast
  then have ix: "right_index x = trailing_zeros ?w"
    using from8 right_at_index [of z] by (simp add: right_at_def)
  show "x \<in> rights_set r" using tz(1) ix by (simp add: mem_rights_set)
  show "\<forall>y \<in> rights_set r. right_index x \<le> right_index y"
    using tz(2) ix by (auto simp: mem_rights_set not_less [symmetric])
  have "?w AND (?w - 1) = rights_bits (rights_without r x)"
  proof (rule bit_word_eqI)
    fix n
    assume "n < LENGTH(16)"
    then have "bit (rights_bits (rights_without r x)) n \<longleftrightarrow> bit ?w n \<and> n \<noteq> right_index x"
      by (simp add: rights_without_def bit_and_iff bit_not_u16 bit_as_mask)
    then show "bit (?w AND (?w - 1)) n \<longleftrightarrow> bit (rights_bits (rights_without r x)) n"
      by (simp only: bit_clear_lowest [OF nz] ix)
  qed
  then show "it = rights_iter_of (rights_without r x)" by (simp add: it rights_iter_of_def)
qed

lemma iter_next_None:
  assumes "rights_wf r"
  shows "fst (iter_next (rights_iter_of r)) = None \<longleftrightarrow> rights_set r = {}"
proof (cases "rights_bits r = 0")
  case True
  then show ?thesis by (simp add: iter_next_def rights_iter_of_def rights_set_def contains_bit)
next
  case False
  note tz = trailing_zeros_props(1) [OF False]
  then have "trailing_zeros (rights_bits r) < 10" using assms by (simp add: rights_wf_bits)
  then obtain x where "right_index x = trailing_zeros (rights_bits r)" using right_of_index by blast
  then show ?thesis
    using False tz right_at_index [of x] mem_rights_set [of x r]
    by (auto simp: iter_next_def rights_iter_of_def Let_def right_at_def)
qed

section \<open>The printed set\<close>

definition is_separator :: "char \<Rightarrow> bool" where
  "is_separator c \<longleftrightarrow> c = CHR '','' \<or> c = CHR ''}''"

lemma right_name_plain: "list_all (\<lambda>c. \<not> is_separator c) (right_name x)"
  by (cases x) (simp_all add: is_separator_def)

lemma name_prefix:
  assumes "right_name x @ u = right_name y @ v" and "u \<noteq> []" and "v \<noteq> []"
    and "is_separator (hd u)" and "is_separator (hd v)"
  shows "x = y \<and> u = v"
proof -
  have tw: "takeWhile (\<lambda>c. \<not> is_separator c) (right_name z @ w) = right_name z"
    if "w \<noteq> []" "is_separator (hd w)" for z w
    using right_name_plain [of z] that by (cases w) (simp_all add: takeWhile_append2 list_all_iff)
  have "right_name x = right_name y" using tw [OF assms(2,4), of x] tw [OF assms(3,5), of y] assms(1) by simp
  then show ?thesis using assms(1) right_text.print_inj by simp
qed

lemma display_tail_hd: "is_separator (hd (display_loop xs False @ ''}''))" "display_loop xs False @ ''}'' \<noteq> []"
  by (cases xs; simp add: is_separator_def)+

lemma display_tail_inj: "display_loop xs False @ ''}'' = display_loop ys False @ ''}'' \<Longrightarrow> xs = ys"
proof (induction xs arbitrary: ys)
  case Nil
  then show ?case by (cases ys) simp_all
next
  case (Cons x xs)
  then obtain y ys' where ys: "ys = y # ys'" by (cases ys) simp_all
  have "right_name x @ (display_loop xs False @ ''}'') = right_name y @ (display_loop ys' False @ ''}'')"
    using Cons.prems ys by simp
  then have "x = y \<and> display_loop xs False @ ''}'' = display_loop ys' False @ ''}''"
    by (rule name_prefix) (rule display_tail_hd)+
  then show ?case using Cons.IH ys by blast
qed

lemma right_name_hd: "right_name x \<noteq> [] \<and> \<not> is_separator (hd (right_name x))"
  by (cases x) (simp_all add: is_separator_def)

lemma display_inj: "display_loop xs True @ ''}'' = display_loop ys True @ ''}'' \<Longrightarrow> xs = ys"
proof (cases xs; cases ys)
  fix x xs' y ys'
  assume h: "display_loop xs True @ ''}'' = display_loop ys True @ ''}''" "xs = x # xs'" "ys = y # ys'"
  have "right_name x @ (display_loop xs' False @ ''}'') = right_name y @ (display_loop ys' False @ ''}'')"
    using h by simp
  then have "x = y \<and> display_loop xs' False @ ''}'' = display_loop ys' False @ ''}''"
    by (rule name_prefix) (rule display_tail_hd)+
  then show ?thesis using h display_tail_inj by blast
next
  fix x xs'
  assume h: "display_loop xs True @ ''}'' = display_loop ys True @ ''}''" "xs = x # xs'" "ys = []"
  then have "right_name x @ display_loop xs' False @ ''}'' = ''}''" by simp
  then show ?thesis using right_name_hd [of x] by (cases "right_name x") (simp_all add: is_separator_def)
next
  fix y ys'
  assume h: "display_loop xs True @ ''}'' = display_loop ys True @ ''}''" "xs = []" "ys = y # ys'"
  then have "right_name y @ display_loop ys' False @ ''}'' = ''}''" by simp
  then show ?thesis using right_name_hd [of y] by (cases "right_name y") (simp_all add: is_separator_def)
qed simp

lemma to_vec_length:
  assumes "rights_wf r"
  shows "rights_len r = length (rights_to_vec r)"
proof -
  have "distinct (rights_to_vec r)"
    using rights_to_vec_sorted [of r] by (metis distinct_map strict_sorted_iff)
  then show ?thesis using assms by (simp add: rights_len_card distinct_card [symmetric] rights_to_vec_set)
qed

lemma contains_from_slice: "rights_contains (rights_from_slice xs) x \<longleftrightarrow> x \<in> set xs"
  using rights_set_from_slice [of xs] by (auto simp: rights_set_def)

section \<open>Properties\<close>

text \<open>Iterating over a set of rights yields the rights of the set in the order of their
  numbers, as \<open>to_vec\<close> lists them; each call of \<open>next\<close> yields the smallest right left and leaves
  exactly the set without it, ends exactly at the empty set, and \<open>size_hint\<close> is exact; collecting the
  iterator rebuilds the set.\<close>

theorem rights_iteration:
  assumes "rights_wf r"
  shows "iter_collect (rights_iter_of r) = rights_to_vec r
    \<and> rights_from_iter (iter_collect (rights_iter_of r)) = r
    \<and> iter_size_hint (rights_iter_of r) = (length (rights_to_vec r), Some (length (rights_to_vec r)))
    \<and> (fst (iter_next (rights_iter_of r)) = None \<longleftrightarrow> rights_set r = {})
    \<and> (\<forall>x it. iter_next (rights_iter_of r) = (Some x, it) \<longrightarrow>
         x \<in> rights_set r \<and> (\<forall>y \<in> rights_set r. right_to_u8 x \<le> right_to_u8 y)
         \<and> it = rights_iter_of (rights_without r x))"
proof -
  have c: "iter_collect (rights_iter_of r) = rights_to_vec r"
    using assms iter_collect_to_vec by (simp add: rights_iter_of_def rights_to_vec_def rights_wf_bits)
  have "rights_set (rights_from_iter (rights_to_vec r)) = rights_set r"
    by (simp add: rights_from_iter_set rights_to_vec_set)
  then have "rights_from_iter (rights_to_vec r) = r"
    using rights_set_inject [OF rights_from_iter_set(2) assms] by blast
  moreover have "iter_size_hint (rights_iter_of r) = (length (rights_to_vec r), Some (length (rights_to_vec r)))"
    using to_vec_length [OF assms] by (simp add: iter_size_hint_def count_ones_def rights_iter_of_def rights_len_def Let_def)
  moreover note iter_next_None [OF assms]
  moreover have "x \<in> rights_set r \<and> (\<forall>y \<in> rights_set r. right_to_u8 x \<le> right_to_u8 y)
         \<and> it = rights_iter_of (rights_without r x)"
    if "iter_next (rights_iter_of r) = (Some x, it)" for x it
    using iter_next_Some [OF assms that] by (simp add: right_index_def word_le_nat_alt)
  ultimately show ?thesis using c by auto
qed

lemma rights_iteration_witness:
  "iter_collect (rights_iter_of rights_read_write) = [Read, Write]"
proof -
  have wf: "rights_wf rights_read_write" by (simp add: rights_read_write_def)
  then show ?thesis
    using rights_iteration [OF wf]
    by (simp add: rights_read_write_def rights_to_vec_eq right_ALL_def contains_from_slice)
qed

text \<open>The printed form of a set of rights determines the set.\<close>

theorem rights_display_injective:
  assumes "rights_wf r" and "rights_wf s"
  shows "rights_to_string r = rights_to_string s \<longleftrightarrow> r = s"
proof
  assume "rights_to_string r = rights_to_string s"
  then have "iter_collect (rights_iter_of r) = iter_collect (rights_iter_of s)"
    using display_inj by (simp add: rights_to_string_def)
  then have "set (rights_to_vec r) = set (rights_to_vec s)"
    using assms iter_collect_to_vec by (simp add: rights_iter_of_def rights_to_vec_def rights_wf_bits)
  then show "r = s" using rights_set_inject [OF assms] by (simp add: rights_to_vec_set)
qed simp

lemma rights_display_injective_witness:
  "rights_to_string rights_read_only \<noteq> rights_to_string rights_read_write"
proof -
  have "rights_set rights_read_only \<noteq> rights_set rights_read_write"
    by (simp add: rights_read_only_def rights_read_write_def)
  then have "rights_read_only \<noteq> rights_read_write" by auto
  then show ?thesis
    using rights_display_injective [of rights_read_only rights_read_write]
    by (simp add: rights_read_only_def rights_read_write_def)
qed

section \<open>Operators and conversions\<close>

text \<open>The operator traits of \<open>Rights\<close>, on values and on references, and its \<open>From\<close> and \<open>IntoIterator\<close>.
  The assigning operators write the bits of the left operand.\<close>

definition rights_default :: "rights" where
  "rights_default = rights_empty"

definition rights_to_bits :: "rights \<Rightarrow> u16" where
  "rights_to_bits r = rights_bits r"

definition rights_into_iter :: "rights \<Rightarrow> rights_iter" where
  "rights_into_iter r = rights_iter_of r"

definition rights_ref_into_iter :: "rights \<Rightarrow> rights_iter" where
  "rights_ref_into_iter r = rights_iter_of r"

definition rights_from_right :: "right \<Rightarrow> rights" where
  "rights_from_right x = rights_singleton x"

definition rights_bitand :: "rights \<Rightarrow> rights \<Rightarrow> rights" where
  "rights_bitand r s = rights_intersection r s"

definition rights_ref_bitand :: "rights \<Rightarrow> rights \<Rightarrow> rights" where
  "rights_ref_bitand r s = rights_intersection r s"

definition rights_bitor :: "rights \<Rightarrow> rights \<Rightarrow> rights" where
  "rights_bitor r s = rights_union r s"

definition rights_ref_bitor :: "rights \<Rightarrow> rights \<Rightarrow> rights" where
  "rights_ref_bitor r s = rights_union r s"

definition rights_sub :: "rights \<Rightarrow> rights \<Rightarrow> rights" where
  "rights_sub r s = rights_difference r s"

definition rights_ref_sub :: "rights \<Rightarrow> rights \<Rightarrow> rights" where
  "rights_ref_sub r s = rights_difference r s"

definition rights_bitand_assign :: "rights \<Rightarrow> rights \<Rightarrow> rights" where
  "rights_bitand_assign r s = r\<lparr>rights_bits := rights_bits r AND rights_bits s\<rparr>"

definition rights_bitor_assign :: "rights \<Rightarrow> rights \<Rightarrow> rights" where
  "rights_bitor_assign r s = r\<lparr>rights_bits := rights_bits r OR rights_bits s\<rparr>"

definition rights_not :: "rights \<Rightarrow> rights" where
  "rights_not r = rights_complement r"

definition rights_ref_not :: "rights \<Rightarrow> rights" where
  "rights_ref_not r = rights_complement r"

lemmas rights_operator_defs =
  rights_bitand_def rights_ref_bitand_def rights_bitor_def rights_ref_bitor_def rights_sub_def rights_ref_sub_def
  rights_bitand_assign_def rights_bitor_assign_def rights_not_def rights_ref_not_def

text \<open>Each operator is one operation on sets of rights, by value, by reference or in place, and keeps
  the bits outside the ten rights clear.\<close>

lemma rights_operators:
  "rights_bitand_assign r s = rights_bitand r s" "rights_bitor_assign r s = rights_bitor r s"
  "rights_ref_bitand r s = rights_bitand r s" "rights_ref_bitor r s = rights_bitor r s"
  "rights_ref_sub r s = rights_sub r s" "rights_ref_not r = rights_not r"
  by (simp_all add: rights_operator_defs rights_intersection_def rights_combine_def rights_union_def)

lemma rights_operator_sets:
  "rights_set (rights_bitand r s) = rights_set r \<inter> rights_set s"
  "rights_set (rights_bitor r s) = rights_set r \<union> rights_set s"
  "rights_set (rights_sub r s) = rights_set r - rights_set s"
  "rights_set (rights_not r) = - rights_set r"
  by (simp_all add: rights_operator_defs)

lemma rights_into_iter_items: "rights_wf r \<Longrightarrow> iter_collect (rights_into_iter r) = rights_to_vec r"
  by (simp add: rights_into_iter_def rights_iter_of_def rights_to_vec_def iter_collect_to_vec rights_wf_bits)

end
