(* ===== verification/LionSerde.thy ===== *)
theory LionSerde
  imports LionNames LionRightsIter
begin

text \<open>
  The hand-written \<open>Serialize\<close> and \<open>Deserialize\<close> implementations (feature \<open>serde\<close>) of \<open>Right\<close>,
  \<open>Rights\<close>, \<open>SecurityLevel\<close>, \<open>PolicyDecision\<close>, \<open>MsgState\<close> and \<open>MemRegion\<close>. The crate serde and the
  format are external: an implementation is a function of a \<open>serializer\<close> or a \<open>deserializer\<close>, the record of
  the external functions it calls, about which nothing is defined here. What a round trip needs of them
  is stated as named laws (\<open>string_law\<close>, \<open>u16_law\<close>, \<open>any_law\<close>) and assumed where it is used.
\<close>

section \<open>The external interface\<close>

text \<open>\<open>serialize_str\<close>, \<open>serialize_u16\<close>, \<open>serialize_struct\<close>, \<open>serialize_field\<close> (of an identifier) and \<open>end\<close>, for an
  output \<open>'o\<close>, a structure under construction \<open>'st\<close> and an error \<open>'e\<close>.\<close>

record ('o, 'st, 'e) serializer =
  sr_str :: "string \<Rightarrow> 'e + 'o"
  sr_u16 :: "u16 \<Rightarrow> 'e + 'o"
  sr_struct :: "string \<Rightarrow> nat \<Rightarrow> 'e + 'st"
  sr_field :: "'st \<Rightarrow> string \<Rightarrow> u128 \<Rightarrow> 'e + 'st"
  sr_end :: "'st \<Rightarrow> 'e + 'o"

text \<open>The methods a visitor overrides. \<open>visit_map\<close> consumes a map access; its result carries the access as it is
  left, so that a format can look at the entries that were not read.\<close>

record ('m, 'e, 'a) visitor =
  vi_expecting :: string
  vi_str :: "string \<Rightarrow> 'e + 'a"
  vi_map :: "'m \<Rightarrow> 'e + 'a \<times> 'm"

text \<open>\<open>String::deserialize\<close>, \<open>u16::deserialize\<close>, \<open>deserialize_any\<close>, \<open>next_key\<close> (as a string), \<open>next_value\<close> (as an
  identifier) and the constructors of the error, for an input \<open>'d\<close> and a map access \<open>'m\<close>.\<close>

record ('d, 'm, 'e) deserializer =
  de_string :: "'d \<Rightarrow> 'e + string"
  de_u16 :: "'d \<Rightarrow> 'e + u16"
  de_any :: "'d \<Rightarrow> ('m, 'e, mem_region) visitor \<Rightarrow> 'e + mem_region"
  ma_next_key :: "'m \<Rightarrow> 'e + string option \<times> 'm"
  ma_next_value :: "'m \<Rightarrow> 'e + u128 \<times> 'm"
  er_custom :: "string \<Rightarrow> 'e"
  er_missing_field :: "string \<Rightarrow> 'e"
  er_unknown_field :: "string \<Rightarrow> string list \<Rightarrow> 'e"

text \<open>What a format that can read its own output promises: the string and the number it wrote are read back;
  asked for anything, it hands a string it wrote to \<open>visit_str\<close>, and a structure of one field it wrote to
  \<open>visit_map\<close> as a map access with that one entry, and takes over the result of a visitor that has read it.\<close>

definition string_law :: "('o, 'st, 'e) serializer \<Rightarrow> ('o, 'm, 'f) deserializer \<Rightarrow> bool" where
  "string_law F D \<longleftrightarrow> (\<forall>s v. sr_str F s = Inr v \<longrightarrow> de_string D v = Inr s)"

definition u16_law :: "('o, 'st, 'e) serializer \<Rightarrow> ('o, 'm, 'f) deserializer \<Rightarrow> bool" where
  "u16_law F D \<longleftrightarrow> (\<forall>b v. sr_u16 F b = Inr v \<longrightarrow> de_u16 D v = Inr b)"

definition any_law :: "('o, 'st, 'e) serializer \<Rightarrow> ('o, 'm, 'f) deserializer \<Rightarrow> bool" where
  "any_law F D \<longleftrightarrow>
     (\<forall>s v vis. sr_str F s = Inr v \<longrightarrow> de_any D v vis = vi_str vis s)
     \<and> (\<forall>name k i st st' v. sr_struct F name 1 = Inr st \<and> sr_field F st k i = Inr st' \<and> sr_end F st' = Inr v \<longrightarrow>
          (\<exists>m m1 m2. ma_next_key D m = Inr (Some k, m1) \<and> ma_next_value D m1 = Inr (i, m2)
             \<and> (\<forall>vis r. vi_map vis m = Inr (r, m2) \<longrightarrow> de_any D v vis = Inr r)))"

section \<open>Messages of the parse errors\<close>

fun parse_error_input :: "parse_error \<Rightarrow> string" where
  "parse_error_input (ParseError s) = s"

definition quoted :: "string \<Rightarrow> string" where
  "quoted s = CHR 0x27 # s @ [CHR 0x27]"

definition parse_right_display :: "parse_error \<Rightarrow> string" where
  "parse_right_display e = ''invalid right: '' @ quoted (parse_error_input e)"

definition parse_level_display :: "parse_error \<Rightarrow> string" where
  "parse_level_display e = ''invalid security level: '' @ quoted (parse_error_input e)"

definition parse_decision_display :: "parse_error \<Rightarrow> string" where
  "parse_decision_display e = ''invalid policy decision: '' @ quoted (parse_error_input e)"

definition parse_msg_display :: "parse_error \<Rightarrow> string" where
  "parse_msg_display e = ''invalid message state: '' @ quoted (parse_error_input e)"

definition parse_region_display :: "parse_error \<Rightarrow> string" where
  "parse_region_display e =
     ''invalid mem region: '' @ quoted (parse_error_input e) @
     '' (expected \"kernel\" or \"plugin:ID\")''"

section \<open>The implementations\<close>

definition right_serialize :: "('o, 'st, 'e) serializer \<Rightarrow> right \<Rightarrow> 'e + 'o" where
  "right_serialize F x = sr_str F (right_name x)"

definition right_deserialize :: "('d, 'm, 'e) deserializer \<Rightarrow> 'd \<Rightarrow> 'e + right" where
  "right_deserialize D v =
     and_then (de_string D v) (\<lambda>s. map_err (\<lambda>e. er_custom D (parse_right_display e)) (right_from_str s))"

definition level_serialize :: "('o, 'st, 'e) serializer \<Rightarrow> security_level \<Rightarrow> 'e + 'o" where
  "level_serialize F x = sr_str F (level_name x)"

definition level_deserialize :: "('d, 'm, 'e) deserializer \<Rightarrow> 'd \<Rightarrow> 'e + security_level" where
  "level_deserialize D v =
     and_then (de_string D v) (\<lambda>s. map_err (\<lambda>e. er_custom D (parse_level_display e)) (level_from_str s))"

definition decision_serialize :: "('o, 'st, 'e) serializer \<Rightarrow> policy_decision \<Rightarrow> 'e + 'o" where
  "decision_serialize F x = sr_str F (decision_name x)"

definition decision_deserialize :: "('d, 'm, 'e) deserializer \<Rightarrow> 'd \<Rightarrow> 'e + policy_decision" where
  "decision_deserialize D v =
     and_then (de_string D v) (\<lambda>s. map_err (\<lambda>e. er_custom D (parse_decision_display e)) (decision_from_str s))"

definition msg_serialize :: "('o, 'st, 'e) serializer \<Rightarrow> msg_state \<Rightarrow> 'e + 'o" where
  "msg_serialize F x = sr_str F (msg_name x)"

definition msg_deserialize :: "('d, 'm, 'e) deserializer \<Rightarrow> 'd \<Rightarrow> 'e + msg_state" where
  "msg_deserialize D v =
     and_then (de_string D v) (\<lambda>s. map_err (\<lambda>e. er_custom D (parse_msg_display e)) (msg_from_str s))"

definition rights_serialize :: "('o, 'st, 'e) serializer \<Rightarrow> rights \<Rightarrow> 'e + 'o" where
  "rights_serialize F r = sr_u16 F (rights_to_bits r)"

definition rights_deserialize :: "('d, 'm, 'e) deserializer \<Rightarrow> 'd \<Rightarrow> 'e + rights" where
  "rights_deserialize D v = and_then (de_u16 D v) (\<lambda>bits. Inr (rights_from_bits bits))"

text \<open>A memory region is a string or a structure of one field. Its visitor compares the string as it is,
  and reads the first entry of a map.\<close>

definition mr_KERNEL :: mem_region where
  "mr_KERNEL = MrKernel"

definition mr_plugin :: "u128 \<Rightarrow> mem_region" where
  "mr_plugin i = MrPlugin i"

fun mr_serialize :: "('o, 'st, 'e) serializer \<Rightarrow> mem_region \<Rightarrow> 'e + 'o" where
  "mr_serialize F MrKernel = sr_str F ''kernel''"
| "mr_serialize F (MrPlugin i) =
     and_then (sr_struct F ''MemRegion'' 1) (\<lambda>s.
     and_then (sr_field F s ''plugin'' i) (\<lambda>s. sr_end F s))"

definition mr_expecting :: string where
  "mr_expecting = ''\"kernel\" or {\"plugin\": u128}''"

definition mr_visit_str :: "('d, 'm, 'e) deserializer \<Rightarrow> string \<Rightarrow> 'e + mem_region" where
  "mr_visit_str D v =
     (if v = ''kernel'' then Inr mr_KERNEL else Inl (er_custom D (''invalid mem region: '' @ v)))"

definition mr_visit_map :: "('d, 'm, 'e) deserializer \<Rightarrow> 'm \<Rightarrow> 'e + mem_region \<times> 'm" where
  "mr_visit_map D m =
     and_then (ma_next_key D m) (\<lambda>(next_key, m).
     and_then (ok_or next_key (er_missing_field D ''plugin'')) (\<lambda>key.
       if key = ''plugin'' then and_then (ma_next_value D m) (\<lambda>(i, m). Inr (mr_plugin i, m))
       else Inl (er_unknown_field D key [''plugin''])))"

definition mr_deserialize :: "('d, 'm, 'e) deserializer \<Rightarrow> 'd \<Rightarrow> 'e + mem_region" where
  "mr_deserialize D v =
     de_any D v \<lparr>vi_expecting = mr_expecting, vi_str = mr_visit_str D, vi_map = mr_visit_map D\<rparr>"

section \<open>The contract of an external form\<close>

text \<open>Under the laws of the format, what is written is read back; a type with a parser writes its printed
  name and reads through the parser, whose error becomes the message.\<close>

locale wire_format =
  fixes law :: "('o, 'st, 'e) serializer \<Rightarrow> ('o, 'm, 'f) deserializer \<Rightarrow> bool" and wf :: "'a \<Rightarrow> bool"
    and ser :: "('o, 'st, 'e) serializer \<Rightarrow> 'a \<Rightarrow> 'e + 'o" and de :: "('o, 'm, 'f) deserializer \<Rightarrow> 'o \<Rightarrow> 'f + 'a"
  assumes de_ser: "law F D \<Longrightarrow> wf x \<Longrightarrow> ser F x = Inr v \<Longrightarrow> de D v = Inr x"
begin

lemma ser_inj: "law F D \<Longrightarrow> wf x \<Longrightarrow> wf y \<Longrightarrow> ser F x = Inr v \<Longrightarrow> ser F y = Inr v \<Longrightarrow> x = y"
  using de_ser [of F D x v] de_ser [of F D y v] by simp

lemma reencode: "law F D \<Longrightarrow> wf x \<Longrightarrow> de D v = Inr x \<Longrightarrow> ser F x = Inr w \<Longrightarrow> de D w = de D v"
  by (simp add: de_ser)

end

locale named_wire = text_format print parse norm
  for print :: "'a \<Rightarrow> string" and parse :: "string \<Rightarrow> parse_error + 'a" and norm :: "string \<Rightarrow> string" +
  fixes ser :: "('o, 'st, 'e) serializer \<Rightarrow> 'a \<Rightarrow> 'e + 'o" and de :: "('o, 'm, 'f) deserializer \<Rightarrow> 'o \<Rightarrow> 'f + 'a"
    and display :: "parse_error \<Rightarrow> string"
  assumes ser_print: "ser F x = sr_str F (print x)"
    and de_parse: "de D v = and_then (de_string D v) (\<lambda>s. map_err (\<lambda>e. er_custom D (display e)) (parse s))"
begin

lemma de_Inr: "de D v = Inr x \<longleftrightarrow> (\<exists>s. de_string D v = Inr s \<and> parse s = Inr x)"
  by (simp add: de_parse and_then_Inr_iff map_err_Inr_iff)

lemma de_Inl:
  "de D v = Inl e \<longleftrightarrow> de_string D v = Inl e
     \<or> (\<exists>s. de_string D v = Inr s \<and> \<not> is_ok (parse s) \<and> e = er_custom D (display (ParseError s)))"
proof (cases "de_string D v")
  case (Inr s)
  then show ?thesis using parse_error [of s]
    by (cases "parse s") (auto simp: de_parse map_err_def is_ok_def)
qed (auto simp: de_parse and_then_def)

lemma de_variant:
  "norm s = norm t \<Longrightarrow> de_string D v = Inr s \<Longrightarrow> de_string D w = Inr t \<Longrightarrow> de D v = Inr x \<Longrightarrow> de D w = Inr x"
  using parse_norm [of s t x] by (simp add: de_Inr)

lemma named_de_ser: "string_law F D \<Longrightarrow> ser F x = Inr v \<Longrightarrow> de D v = Inr x"
  by (auto simp: de_Inr ser_print string_law_def parse_print)

end

sublocale named_wire < wire_format string_law "\<lambda>_. True" ser de
  by unfold_locales (simp add: named_de_ser)

interpretation right_wire: named_wire right_name right_from_str to_lowercase
  right_serialize right_deserialize parse_right_display
  by unfold_locales (simp_all add: right_serialize_def right_deserialize_def)

interpretation level_wire: named_wire level_name level_from_str to_lowercase
  level_serialize level_deserialize parse_level_display
  by unfold_locales (simp_all add: level_serialize_def level_deserialize_def)

interpretation decision_wire: named_wire decision_name decision_from_str "\<lambda>s. to_lowercase (trim s)"
  decision_serialize decision_deserialize parse_decision_display
  by unfold_locales (simp_all add: decision_serialize_def decision_deserialize_def)

interpretation msg_wire: named_wire msg_name msg_from_str "\<lambda>s. to_lowercase (trim s)"
  msg_serialize msg_deserialize parse_msg_display
  by unfold_locales (simp_all add: msg_serialize_def msg_deserialize_def)

lemma mr_visit_str_Inr: "mr_visit_str D s = Inr r \<longleftrightarrow> s = ''kernel'' \<and> r = MrKernel"
  by (auto simp: mr_visit_str_def mr_KERNEL_def)

lemma mr_visit_map_Inr:
  "mr_visit_map D m = Inr (r, m') \<longleftrightarrow>
     (\<exists>m1 i. ma_next_key D m = Inr (Some ''plugin'', m1) \<and> ma_next_value D m1 = Inr (i, m') \<and> r = MrPlugin i)"
  by (fastforce simp: mr_visit_map_def and_then_Inr_iff ok_or_Inr_iff mr_plugin_def split: prod.splits if_splits)

lemma mr_de_ser:
  assumes law: "any_law F D" and w: "mr_serialize F r = Inr v"
  shows "mr_deserialize D v = Inr r"
proof (cases r)
  case MrKernel
  then show ?thesis using assms by (simp add: any_law_def mr_deserialize_def mr_visit_str_Inr)
next
  case (MrPlugin i)
  let ?vis = "\<lparr>vi_expecting = mr_expecting, vi_str = mr_visit_str D, vi_map = mr_visit_map D\<rparr>"
  obtain st st' where "sr_struct F ''MemRegion'' 1 = Inr st" "sr_field F st ''plugin'' i = Inr st'" "sr_end F st' = Inr v"
    using w MrPlugin by (auto simp: and_then_Inr_iff)
  then obtain m m1 m2 where "ma_next_key D m = Inr (Some ''plugin'', m1)" "ma_next_value D m1 = Inr (i, m2)"
      and any: "\<And>vis r. vi_map vis m = Inr (r, m2) \<Longrightarrow> de_any D v vis = Inr r"
    using law unfolding any_law_def by blast
  then have "vi_map ?vis m = Inr (MrPlugin i, m2)" by (simp add: mr_visit_map_Inr)
  from any [OF this] show ?thesis using MrPlugin by (simp add: mr_deserialize_def)
qed

interpretation region_wire: wire_format any_law "\<lambda>_. True" mr_serialize mr_deserialize
  by unfold_locales (simp add: mr_de_ser)

lemma rights_deserialize_Inr:
  "rights_deserialize D v = Inr r \<longleftrightarrow> (\<exists>b. de_u16 D v = Inr b \<and> r = rights_from_bits b)"
  by (auto simp: rights_deserialize_def and_then_Inr_iff)

lemma rights_de_ser:
  assumes "u16_law F D" and "rights_wf r" and "rights_serialize F r = Inr v"
  shows "rights_deserialize D v = Inr r"
proof -
  have "rights_from_bits (rights_bits r) = r"
    using rights_set_inject [OF rights_wf_ops(5) assms(2)] by (auto simp: mem_rights_set set_eq_iff)
  then show ?thesis
    using assms(1,3) by (auto simp: rights_deserialize_Inr rights_serialize_def rights_to_bits_def u16_law_def)
qed

interpretation rights_wire: wire_format u16_law rights_wf rights_serialize rights_deserialize
  by unfold_locales (rule rights_de_ser)

lemma rights_bits_iff:
  "(\<exists>b. P b \<and> r = rights_from_bits b) \<longleftrightarrow>
     (\<exists>b. P b \<and> rights_wf r \<and> rights_set r = {x. bit b (right_index x)})"
  using rights_set_inject [of r "rights_from_bits _"] by auto

lemma named_errors:
  assumes "de_string G v = Inr s"
  shows "\<not> is_ok (right_from_str s) \<Longrightarrow>
      right_deserialize G v = Inl (er_custom G (''invalid right: '' @ quoted s))"
    and "\<not> is_ok (level_from_str s) \<Longrightarrow>
      level_deserialize G v = Inl (er_custom G (''invalid security level: '' @ quoted s))"
    and "\<not> is_ok (decision_from_str s) \<Longrightarrow>
      decision_deserialize G v = Inl (er_custom G (''invalid policy decision: '' @ quoted s))"
    and "\<not> is_ok (msg_from_str s) \<Longrightarrow>
      msg_deserialize G v = Inl (er_custom G (''invalid message state: '' @ quoted s))"
  using assms
  by (auto simp: right_wire.de_Inl level_wire.de_Inl decision_wire.de_Inl msg_wire.de_Inl parse_right_display_def
      parse_level_display_def parse_decision_display_def parse_msg_display_def)

section \<open>Property\<close>

text \<open>C34: with a format that reads back what it wrote (strings, 16-bit numbers, and, for memory regions, what
  it is asked for without a type), every value that is serialized is deserialized to itself. With any
  format at all, what carries a name is read from a string, and exactly through the parser of the type,
  so every spelling it accepts is accepted (the letter of a right, the number of a level, white space
  around a decision or a message state), and a string it refuses gives the custom error with its message;
  rights are read from any 16-bit number, whose undefined bits are dropped; the visitor of a memory
  region takes the exact string \<open>kernel\<close> or a map whose first key is \<open>plugin\<close>, unlike its parser,
  and leaves the rest of the map unread.\<close>

theorem wire_round_trips:
  fixes F :: "('o, 'st, 'e) serializer" and D :: "('o, 'm, 'f) deserializer"
    and G :: "('d, 'n, 'g) deserializer"
  assumes "string_law F D" and "u16_law F D" and "any_law F D"
  shows "(\<forall>x v. right_serialize F x = Inr v \<longrightarrow> right_deserialize D v = Inr x)
   \<and> (\<forall>l v. level_serialize F l = Inr v \<longrightarrow> level_deserialize D v = Inr l)
   \<and> (\<forall>d v. decision_serialize F d = Inr v \<longrightarrow> decision_deserialize D v = Inr d)
   \<and> (\<forall>m v. msg_serialize F m = Inr v \<longrightarrow> msg_deserialize D v = Inr m)
   \<and> (\<forall>r v. rights_wf r \<and> rights_serialize F r = Inr v \<longrightarrow> rights_deserialize D v = Inr r)
   \<and> (\<forall>r v. mr_serialize F r = Inr v \<longrightarrow> mr_deserialize D v = Inr r)
   \<and> (\<forall>v x. right_deserialize G v = Inr x \<longleftrightarrow> (\<exists>s. de_string G v = Inr s \<and> right_from_str s = Inr x))
   \<and> (\<forall>v l. level_deserialize G v = Inr l \<longleftrightarrow> (\<exists>s. de_string G v = Inr s \<and> level_from_str s = Inr l))
   \<and> (\<forall>v d. decision_deserialize G v = Inr d \<longleftrightarrow> (\<exists>s. de_string G v = Inr s \<and> decision_from_str s = Inr d))
   \<and> (\<forall>v m. msg_deserialize G v = Inr m \<longleftrightarrow> (\<exists>s. de_string G v = Inr s \<and> msg_from_str s = Inr m))
   \<and> (\<forall>v s. de_string G v = Inr s \<longrightarrow>
        (\<not> is_ok (right_from_str s) \<longrightarrow>
           right_deserialize G v = Inl (er_custom G (''invalid right: '' @ quoted s)))
      \<and> (\<not> is_ok (level_from_str s) \<longrightarrow>
           level_deserialize G v = Inl (er_custom G (''invalid security level: '' @ quoted s)))
      \<and> (\<not> is_ok (decision_from_str s) \<longrightarrow>
           decision_deserialize G v = Inl (er_custom G (''invalid policy decision: '' @ quoted s)))
      \<and> (\<not> is_ok (msg_from_str s) \<longrightarrow>
           msg_deserialize G v = Inl (er_custom G (''invalid message state: '' @ quoted s))))
   \<and> (\<forall>v x. de_string G v = Inr [right_short_name x] \<longrightarrow> right_deserialize G v = Inr x)
   \<and> (\<forall>v l. de_string G v = Inr (show_nat (unat (level_to_u8 l))) \<longrightarrow> level_deserialize G v = Inr l)
   \<and> (\<forall>a b v d m. list_all is_whitespace a \<and> list_all is_whitespace b \<longrightarrow>
        (de_string G v = Inr (a @ decision_name d @ b) \<longrightarrow> decision_deserialize G v = Inr d)
      \<and> (de_string G v = Inr (a @ msg_name m @ b) \<longrightarrow> msg_deserialize G v = Inr m))
   \<and> (\<forall>v r. rights_deserialize G v = Inr r \<longleftrightarrow>
        (\<exists>bits. de_u16 G v = Inr bits \<and> rights_wf r \<and> rights_set r = {x. bit bits (right_index x)}))
   \<and> (\<forall>s r. mr_visit_str G s = Inr r \<longleftrightarrow> s = ''kernel'' \<and> r = MrKernel)
   \<and> (\<forall>m r m'. mr_visit_map G m = Inr (r, m') \<longleftrightarrow>
        (\<exists>m1 i. ma_next_key G m = Inr (Some ''plugin'', m1) \<and> ma_next_value G m1 = Inr (i, m') \<and> r = MrPlugin i))"
proof (intro conjI allI impI)
  show "right_deserialize G v = Inr x" if "de_string G v = Inr [right_short_name x]" for v x
    using that by (simp add: right_wire.de_Inr right_letter)
  show "level_deserialize G v = Inr l" if "de_string G v = Inr (show_nat (unat (level_to_u8 l)))" for v l
    using that by (simp add: level_wire.de_Inr level_number)
  show "decision_deserialize G v = Inr d"
    if "list_all is_whitespace a \<and> list_all is_whitespace b" "de_string G v = Inr (a @ decision_name d @ b)" for a b v d
    using padded_names(1) that by (simp add: decision_wire.de_Inr)
  show "msg_deserialize G v = Inr m"
    if "list_all is_whitespace a \<and> list_all is_whitespace b" "de_string G v = Inr (a @ msg_name m @ b)" for a b v m
    using padded_names(2) that by (simp add: msg_wire.de_Inr)
  show "rights_deserialize D v = Inr r" if "rights_wf r \<and> rights_serialize F r = Inr v" for r v
    using that rights_wire.de_ser [OF assms(2)] by blast
  show "rights_deserialize G v = Inr r \<longleftrightarrow>
      (\<exists>bits. de_u16 G v = Inr bits \<and> rights_wf r \<and> rights_set r = {x. bit bits (right_index x)})" for v r
    by (simp only: rights_deserialize_Inr rights_bits_iff)
qed (simp_all add: named_errors right_wire.named_de_ser [OF assms(1)] level_wire.named_de_ser [OF assms(1)]
    decision_wire.named_de_ser [OF assms(1)] msg_wire.named_de_ser [OF assms(1)] mr_de_ser [OF assms(3)]
    right_wire.de_Inr level_wire.de_Inr decision_wire.de_Inr msg_wire.de_Inr mr_visit_str_Inr mr_visit_map_Inr)

section \<open>A format that meets the laws\<close>

text \<open>A tree format that refuses a map of which an entry was not read.\<close>

datatype tree = TStr string | TNum nat | TMap "(string \<times> u128) list"

type_synonym tree_access = "(string \<times> u128) list \<times> u128 option"

definition tree_writer :: "(tree, (string \<times> u128) list, unit) serializer" where
  "tree_writer = \<lparr>sr_str = \<lambda>s. Inr (TStr s), sr_u16 = \<lambda>b. Inr (TNum (unat b)), sr_struct = \<lambda>name n. Inr [],
     sr_field = \<lambda>kvs k i. Inr (kvs @ [(k, i)]), sr_end = \<lambda>kvs. Inr (TMap kvs)\<rparr>"

definition tree_string :: "tree \<Rightarrow> string + string" where
  "tree_string v = (case v of TStr s \<Rightarrow> Inr s | _ \<Rightarrow> Inl ''expected a string'')"

definition tree_u16 :: "tree \<Rightarrow> string + u16" where
  "tree_u16 v = (case v of TNum n \<Rightarrow> if n < 2 ^ 16 then Inr (of_nat n) else Inl ''too large'' | _ \<Rightarrow> Inl ''expected a number'')"

definition tree_any :: "tree \<Rightarrow> (tree_access, string, mem_region) visitor \<Rightarrow> string + mem_region" where
  "tree_any v vis =
     (case v of
        TStr s \<Rightarrow> vi_str vis s
      | TNum n \<Rightarrow> Inl (vi_expecting vis)
      | TMap kvs \<Rightarrow> and_then (vi_map vis (kvs, None))
          (\<lambda>(r, rest). if rest = ([], None) then Inr r else Inl ''trailing entries''))"

fun tree_next_key :: "tree_access \<Rightarrow> string + string option \<times> tree_access" where
  "tree_next_key ([], p) = Inr (None, ([], p))"
| "tree_next_key ((k, i) # kvs, p) = Inr (Some k, (kvs, Some i))"

fun tree_next_value :: "tree_access \<Rightarrow> string + u128 \<times> tree_access" where
  "tree_next_value (kvs, None) = Inl ''no key was read''"
| "tree_next_value (kvs, Some i) = Inr (i, (kvs, None))"

definition tree_reader :: "(tree, tree_access, string) deserializer" where
  "tree_reader = \<lparr>de_string = tree_string, de_u16 = tree_u16, de_any = tree_any, ma_next_key = tree_next_key,
     ma_next_value = tree_next_value, er_custom = id, er_missing_field = \<lambda>f. ''missing field '' @ f,
     er_unknown_field = \<lambda>f known. ''unknown field '' @ f\<rparr>"

lemma tree_laws:
  "string_law tree_writer tree_reader" "u16_law tree_writer tree_reader" "any_law tree_writer tree_reader"
proof -
  show "string_law tree_writer tree_reader"
    by (simp add: string_law_def tree_writer_def tree_reader_def tree_string_def)
  show "u16_law tree_writer tree_reader"
  proof (unfold u16_law_def, intro allI impI)
    fix b v assume "sr_u16 tree_writer b = Inr v"
    then show "de_u16 tree_reader v = Inr b"
      using unsigned_less [of b] by (auto simp: tree_writer_def tree_reader_def tree_u16_def)
  qed
  have "\<exists>m m1 m2. tree_next_key m = Inr (Some k, m1) \<and> tree_next_value m1 = Inr (i, m2)
      \<and> (\<forall>vis r. vi_map vis m = Inr (r, m2) \<longrightarrow> tree_any (TMap [(k, i)]) vis = Inr r)" for k i
    by (rule exI [of _ "([(k, i)], None)"]) (simp add: tree_any_def)
  then show "any_law tree_writer tree_reader"
    by (auto simp: any_law_def tree_writer_def tree_reader_def tree_any_def)
qed

lemma wire_round_trips_witness:
  "rights_deserialize tree_reader (TNum (unat (rights_to_bits rights_all))) = Inr rights_all
   \<and> mr_deserialize tree_reader (TMap [(''plugin'', 7)]) = Inr (MrPlugin 7)"
proof -
  have "rights_serialize tree_writer rights_all = Inr (TNum (unat (rights_to_bits rights_all)))"
    "mr_serialize tree_writer (MrPlugin 7) = Inr (TMap [(''plugin'', 7)])" "rights_wf rights_all"
    by (simp_all add: rights_serialize_def tree_writer_def)
  note w = this and trips = wire_round_trips [OF tree_laws, of tree_reader]
  have "rights_deserialize tree_reader v = Inr rights_all" if "rights_serialize tree_writer rights_all = Inr v" for v
    using trips [THEN conjunct2, THEN conjunct2, THEN conjunct2, THEN conjunct2, THEN conjunct1] w(3) that by simp
  moreover have "mr_deserialize tree_reader v = Inr (MrPlugin 7)" if "mr_serialize tree_writer (MrPlugin 7) = Inr v" for v
    using trips [THEN conjunct2, THEN conjunct2, THEN conjunct2, THEN conjunct2, THEN conjunct2, THEN conjunct1] that
    by simp
  ultimately show ?thesis using w(1,2) by simp
qed

end
