(* ===== verification/LionThread.thy ===== *)
theory LionThread
  imports LionStep
begin

text \<open>
  The types of threads and of the scheduler (\<open>state/thread.rs\<close>), which no operation of the program reads
  or writes yet, and what the program does when it is asked for a thread operation: every one is refused.
\<close>

section \<open>Threads\<close>

datatype thread_state = ThInactive | ThRunning | ThReady | ThBlocked | ThRestart | ThIdle

datatype ipc_block_reason =
  SendBlocked u64 | RecvBlocked u64 | ReplyBlocked | NotificationBlocked u64 | CallBlocked u64

datatype fault_type =
  FtVmFault u64 bool
| FtCapFault u64
| FtUnknownSyscall u64
| FtUserException u64 u64
| FtDebugException
| FtNullFault

record registers =
  rg_gpr :: "u64 list"
  rg_pc :: u64
  rg_sp :: u64
  rg_flags :: u64

record tcb =
  tc_id :: u64
  tc_thread_state :: thread_state
  tc_priority :: u64
  tc_mcp :: u64
  tc_timeslice :: u64
  tc_domain :: u64
  tc_bound_cspace :: "u64 option"
  tc_bound_vspace :: "u64 option"
  tc_ipc_buffer :: "u64 option"
  tc_reply_slot :: "u64 option"
  tc_fault_endpoint :: "u64 option"
  tc_blocked :: "ipc_block_reason option"
  tc_fault :: "fault_type option"
  tc_registers :: registers
  tc_security_level :: security_level

section \<open>The scheduler\<close>

record domain_schedule_entry =
  ds_domain :: u64
  ds_duration :: u64

datatype scheduler_action = ResumeCurrentThread | ChooseNewThread | SwitchToThread u64

datatype kernel_entry_reason = EnSyscall | EnInterrupt | EnVmFault | EnException

record ready_queue_entry =
  rq_domain :: u64
  rq_priority :: u64
  rq_thread_id :: u64

record release_queue_entry =
  rl_thread_id :: u64
  rl_wake_time :: u64

record idle_thread_entry =
  id_domain :: u64
  id_idle_thread_id :: u64

record scheduler_state =
  sc_current_thread :: "u64 option"
  sc_current_domain :: u64
  sc_domain_ticks_left :: u64
  sc_domain_schedule :: "domain_schedule_entry list"
  sc_domain_schedule_idx :: u64
  sc_ready_queues :: "ready_queue_entry list"
  sc_release_queue :: "release_queue_entry list"
  sc_scheduler_action :: scheduler_action
  sc_idle_threads :: "idle_thread_entry list"
  sc_preemption_pending :: bool
  sc_kernel_entry_reason :: "kernel_entry_reason option"

record thread_table_entry =
  tt_thread_id :: u64
  tt_tcb :: tcb

record thread_table =
  tt_entries :: "thread_table_entry list"

section \<open>Thread operations are refused\<close>

lemma thread_functions_refused:
  assumes "fn_is_thread_operation f"
  shows "\<exists>n. function_execute f s hc r = Inl (HostCallPreconditionFailed (HcNotImplemented n))"
    and "\<exists>n. function_execute_mut f s hc r = Inl (HostCallPreconditionFailed (HcNotImplemented n))"
  using assms
  by (cases f; simp add: fn_is_thread_operation_def function_execute_def function_execute_mut_def not_implemented_def)+

lemma thread_switch_refused:
  "step_execute (StKernelInternal (ThreadSwitch t u)) s = step_execute_mut (StKernelInternal (ThreadSwitch t u)) s"
  "\<nexists>s'. step_execute (StKernelInternal (ThreadSwitch t u)) s = Inr s'"
  by (simp_all add: execute_thread_switch_def execute_thread_switch_mut_def)

end
