(* ===== verification/LionQuotas.thy ===== *)
theory LionQuotas
  imports LionGaps
begin

text \<open>
  What the quotas of a plugin (\<open>state/plugin.rs\<close>) bound. The memory quota bounds everything a plugin is
  ever granted, since no operation gives memory back; the capability quota is consulted by no operation.
\<close>

definition granted :: "plugin_id \<Rightarrow> step \<Rightarrow> nat" where
  "granted pid st =
     (case st of
        StHostCall hc w r \<Rightarrow>
          if hc_caller hc = pid \<and> hc_function hc = FnKernelAlloc then unat (arg_or_zero hc) else 0
      | _ \<Rightarrow> 0)"

definition same_account :: "plugin_state \<Rightarrow> plugin_state \<Rightarrow> nat \<Rightarrow> bool" where
  "same_account p q n \<longleftrightarrow> unat (pg_memory_used q) = unat (pg_memory_used p) + n
     \<and> pg_memory_quota q = pg_memory_quota p \<and> pg_cap_quota q = pg_cap_quota p
     \<and> pg_ipc_queue_limit q = pg_ipc_queue_limit p \<and> pg_held_caps q = pg_held_caps p"

lemma account_step:
  assumes "exec_on d st s = Inr s'" and "get_plugin s pid = Some p"
  shows "\<exists>q. get_plugin s' pid = Some q \<and> same_account p q (granted pid st)"
proof (cases st)
  case (StHostCall hc w r)
  then have e: "plugin_effect (StHostCall hc w r) s s'" using exec_on_plugin_effect [OF assms(1)] by simp
  show ?thesis
  proof (cases "hc_function hc = FnKernelAlloc \<or> hc_function hc = FnDeclassify")
    case True
    then show ?thesis using e assms(2) StHostCall
      by (auto simp: plugin_effect_def same_account_def granted_def add_memory_used_def set_level_def alloc_used_exact(1))
  next
    case False
    then have "get_plugin s' = get_plugin s"
      using e by (cases "hc_function hc") (simp_all add: plugin_effect_def)
    then show ?thesis using assms(2) False StHostCall by (simp add: same_account_def granted_def)
  qed
qed (use exec_on_plugin_effect [OF assms(1)] assms(2) in
    \<open>simp_all add: plugin_effect_def same_account_def granted_def\<close>)

lemma account_run:
  assumes "run_all (exec_on d) sts s = Inr s'" and "get_plugin s pid = Some p"
  shows "\<exists>q. get_plugin s' pid = Some q \<and> same_account p q (\<Sum>st \<leftarrow> sts. granted pid st)"
  using assms
proof (induction sts arbitrary: s p)
  case (Cons st sts)
  obtain m where m: "exec_on d st s = Inr m" "run_all (exec_on d) sts m = Inr s'"
    using Cons.prems(1) by (auto split: sum.splits)
  obtain q where q: "get_plugin m pid = Some q" "same_account p q (granted pid st)"
    using account_step [OF m(1) Cons.prems(2)] by blast
  from Cons.IH [OF m(2) q(1)] q(2) show ?case by (auto simp: same_account_def)
qed (simp add: same_account_def)

lemma delegation_grants:
  assumes "state_wf s" and "get_plugin s pid = Some p" and "get_cap s (cp_id c) = None"
  shows "\<exists>t. apply_cap_delegate_mut s c pid = Inr t \<and> plugin_holds t pid (cp_id c)"
  using assms state_wf_parts(5) [OF assms(1,2)]
  by (simp add: apply_cap_delegate_mut_eq apply_cap_delegate_eq delegate_to_def plugin_view table_simps holds_cap_grant)

text \<open>C25: the accounts. Along every run, on either path, the memory recorded for a plugin grows by exactly
  what its allocation calls ask for and by nothing else: whatever is freed in between comes back to no
  quota, so the quota bounds the total over the plugin's life, and an amount that once exceeds what is
  left exceeds it for ever. The capability quota bounds nothing: in the state the run leaves, delegating
  a new capability to the plugin succeeds however many it holds.\<close>

theorem quota_accounting:
  assumes "state_wf s" and "run_all (exec_on d) sts s = Inr s'" and "get_plugin s pid = Some p"
  shows "\<exists>q. get_plugin s' pid = Some q
    \<and> unat (pg_memory_used q) = unat (pg_memory_used p) + (\<Sum>st \<leftarrow> sts. granted pid st)
    \<and> unat (pg_memory_used p) + (\<Sum>st \<leftarrow> sts. granted pid st) \<le> unat (pg_memory_quota p)
    \<and> (\<forall>n. \<not> can_alloc_memory p n \<longrightarrow> \<not> can_alloc_memory q n)
    \<and> pg_held_caps q = pg_held_caps p \<and> pg_cap_quota q = pg_cap_quota p
    \<and> (\<forall>c. get_cap s' (cp_id c) = None \<longrightarrow>
        (\<exists>t. apply_cap_delegate_mut s' c pid = Inr t \<and> plugin_holds t pid (cp_id c)))"
proof -
  have w: "state_wf s'" by (rule run_on_wf [OF assms(1,2)])
  obtain q where q: "get_plugin s' pid = Some q" and a: "same_account p q (\<Sum>st \<leftarrow> sts. granted pid st)"
    using account_run [OF assms(2,3)] by blast
  have "unat (pg_memory_used q) \<le> unat (pg_memory_quota q)"
    using state_wf_parts(5) [OF w q] by (simp add: plugin_wf_def word_le_nat_alt)
  moreover have "\<forall>n. \<not> can_alloc_memory p n \<longrightarrow> \<not> can_alloc_memory q n"
    using a by (auto simp: can_alloc_memory_iff same_account_def)
  ultimately show ?thesis using q a delegation_grants [OF w q] by (auto simp: same_account_def)
qed

lemma quota_accounting_witness:
  "\<exists>s' q. run_all (exec_on InPlace) [demo_step] demo_state = Inr s' \<and> get_plugin s' 1 = Some q
    \<and> unat (pg_memory_used q) = 5"
proof -
  have g: "granted 1 demo_step = 5"
    by (simp add: granted_def demo_step_def demo_alloc_call_def arg_or_zero_def first_arg_def)
  have r: "run_all (exec_on InPlace) [demo_step] demo_state
      = Inr (modify_plugin (apply_alloc demo_state 1 5) 1 (add_memory_used 5))"
    using demo_step_runs [of InPlace] by simp
  show ?thesis using quota_accounting [OF demo_state_wf r demo_plugin] r
    by (auto simp: g grant_cap_mut_def plugin_empty_def)
qed

end
