(* ===== verification/LionAnchor.thy ===== *)
theory LionAnchor
  imports LionKernelState
begin

text \<open>
  The extraction anchors (\<open>extract_anchor.rs\<close>): functions that call the operations a code extractor should
  reach. \<open>export_types\<close> there only names types and has no body, so it has no counterpart.
\<close>

definition export_rights_functions :: "rights \<Rightarrow> right \<Rightarrow> rights \<Rightarrow> bool \<times> bool \<times> bool \<times> rights" where
  "export_rights_functions r x s =
     (let is_empty = rights_is_empty r;
          has = rights_contains r x;
          is_subset = rights_is_subset_of r s;
          combined = rights_combine r s
      in (is_empty, has, is_subset, combined))"

definition export_right_functions :: "right \<Rightarrow> u8 \<times> right option" where
  "export_right_functions x = (let n = right_to_u8 x; y = right_from_u8 n in (n, y))"

definition export_security_level_functions :: "security_level \<Rightarrow> u8" where
  "export_security_level_functions l = level_to_u8 l"

definition export_capability_functions :: "capability \<Rightarrow> right \<Rightarrow> cap_payload \<times> bool" where
  "export_capability_functions c x =
     (let payload = capability_payload c; has_right = cap_has_right c x in (payload, has_right))"

definition export_hash_functions :: "hash32 \<Rightarrow> bool" where
  "export_hash_functions h = hash_is_zero h"

definition export_key_functions :: "key \<Rightarrow> bool" where
  "export_key_functions k = key_is_empty k"

definition export_kernel_dispatch_functions ::
  "kernel_core \<Rightarrow> kernel_request \<Rightarrow> (kernel_error + kernel_core) option" where
  "export_kernel_dispatch_functions c rq = kernel_dispatch c rq"

lemma exported_right: "snd (export_right_functions x) = Some x"
  by (simp add: export_right_functions_def right_u8_roundtrip)

lemma exported_rights:
  assumes "rights_wf r"
  shows "export_rights_functions r x s = (e, h, b, c) \<longleftrightarrow>
    e = (rights_set r = {}) \<and> h = (x \<in> rights_set r) \<and> b = (rights_set r \<subseteq> rights_set s) \<and> c = rights_combine r s"
  using assms by (auto simp: export_rights_functions_def Let_def rights_subset_iff rights_is_empty_iff rights_set_def)

end
