(* ===== verification/LionAuthGaps.thy ===== *)
theory LionAuthGaps
  imports LionGaps
begin

text \<open>
  What the actions derived from host calls (\<open>HostCall::required_action\<close>, \<open>step/host_call.rs\<close>) leave
  unchecked: no host call asks for the write right, so the integrity check never applies to one, and
  revocation is authorized against the resource whose address is the capability's identifier.
\<close>

definition derived_rights :: "host_function \<Rightarrow> right option" where
  "derived_rights f = (case f of FnCapCall \<Rightarrow> Some Read | FnKernelAlloc \<Rightarrow> Some Create | FnMemFree \<Rightarrow> Some Delete
     | FnCapRevoke \<Rightarrow> Some Revoke | FnDeclassify \<Rightarrow> Some right.Declassify | FnCapSend \<Rightarrow> Some Send | _ \<Rightarrow> None)"

lemma required_action_rights:
  "required_action hc = Inr a \<Longrightarrow> \<exists>x. derived_rights (hc_function hc) = Some x \<and> ac_rights a = rights_singleton x
     \<and> x \<notin> {Write, Execute, Receive, Delegate}"
  by (frule required_action_Inr) (auto simp: derived_rights_def split: host_function.splits)

lemma required_action_biba:
  assumes "required_action hc = Inr a"
  shows "biba_write_ok s a"
proof -
  obtain x where x: "ac_rights a = rights_singleton x" "x \<noteq> Write" using required_action_rights [OF assms] by auto
  have "\<not> rights_contains (ac_rights a) Write" unfolding x(1) contains_singleton using x(2) .
  then show ?thesis by (simp add: biba_write_ok_iff)
qed

lemma required_action_target:
  assumes "required_action hc = Inr a"
  shows "unat (ac_target a) < 2 ^ 64"
proof -
  have "(\<exists>x :: u64. ac_target a = ucast x) \<or> ac_target a = 0"
    using required_action_Inr [OF assms] by (cases "hc_function hc") auto
  moreover have "unat x < 2 ^ 64" for x :: u64 using unsigned_less [of x] by simp
  ultimately show ?thesis by (auto simp: unat_ucast_wide)
qed

text \<open>Results that are not an authorization error.\<close>

definition no_authz :: "step_error + 'a \<Rightarrow> bool" where
  "no_authz r \<longleftrightarrow> (\<forall>e. r \<noteq> Inl (AuthorizationFailed e))"

lemma no_authz_Inr [simp]: "no_authz (Inr x)" by (simp add: no_authz_def)

lemma no_authz_Inl [simp]: "no_authz (Inl e) \<longleftrightarrow> (\<forall>a. e \<noteq> AuthorizationFailed a)" by (simp add: no_authz_def)

lemma no_authz_and_then [intro]:
  "no_authz r \<Longrightarrow> (\<And>x. r = Inr x \<Longrightarrow> no_authz (f x)) \<Longrightarrow> no_authz (and_then r f)"
  by (cases r) (simp_all add: no_authz_def)

lemma no_authz_ok_or [simp]: "no_authz (ok_or x e) \<longleftrightarrow> x \<noteq> None \<or> (\<forall>a. e \<noteq> AuthorizationFailed a)"
  by (cases x) (simp_all add: ok_or_def)

lemma no_authz_map_err: "(\<And>e a. f e \<noteq> AuthorizationFailed a) \<Longrightarrow> no_authz (map_err f r)"
  by (cases r) (simp_all add: map_err_def)

lemma no_authz_required: "no_authz (required_action hc)"
proof -
  have "no_authz (map_policy_err r)" for r
    by (cases r) (simp_all add: map_policy_err_def map_err_def)
  then show ?thesis
    by (cases "hc_function hc") (auto simp: required_action_def intro!: no_authz_and_then)
qed

lemma find_map_not: "(\<And>x. f x \<noteq> Some e) \<Longrightarrow> find_map f xs \<noteq> Some e"
  by (induction xs) (auto split: option.split)

lemma oob_not_authz:
  "hc_find_oob_read hc p \<noteq> Some (AuthorizationFailed a)" "hc_find_oob_write hc p \<noteq> Some (AuthorizationFailed a)"
  unfolding hc_find_oob_read_def hc_find_oob_write_def
  by (rule find_map_not; simp split: prod.split)+

lemma no_authz_preconditions: "no_authz (hc_check_preconditions hc s)"
  unfolding hc_check_preconditions_def
  by (rule no_authz_and_then) (auto simp: oob_not_authz split: option.split)

lemma no_authz_send: "no_authz (send_loop s hc ms)"
  by (induction ms) (auto intro!: no_authz_and_then)

lemma no_authz_functions:
  "no_authz (hc_cap_call s hc r)" "no_authz (hc_cap_send s hc r)" "no_authz (hc_kernel_alloc s hc)"
  "no_authz (hc_mem_free s hc)" "no_authz (hc_mem_free_mut s hc)" "no_authz (hc_cap_revoke s hc)"
  "no_authz (hc_cap_revoke_mut s hc)" "no_authz (hc_declassify s hc)"
  by (auto simp: hc_cap_call_def hc_cap_send_def hc_kernel_alloc_def hc_mem_free_def hc_mem_free_mut_def
      hc_cap_revoke_def hc_cap_revoke_mut_def hc_declassify_def declassify_level_def Let_def
      intro!: no_authz_and_then no_authz_map_err no_authz_send split: option.split)

lemma no_authz_execute:
  "no_authz (function_execute f s hc r)" "no_authz (function_execute_mut f s hc r)"
  using no_authz_functions
  by (cases f; simp add: function_execute_def function_execute_mut_def not_implemented_def hc_mut_eqs
      hc_kernel_alloc_mut_eq)+

section \<open>Properties\<close>

text \<open>C37: integrity is never enforced on a host call. The action derived from a host call asks for a single
  right, which is never Write, Execute, Receive or Delegate, and for a target below \<open>2 ^ 64\<close>; so the Biba
  check holds for it in every state, and no host call is ever refused for a violation of integrity, on
  either path and whatever witness it carries.\<close>

theorem integrity_never_enforced:
  shows "(\<forall>a. required_action hc = Inr a \<longrightarrow>
        (\<exists>x. ac_rights a = rights_singleton x \<and> x \<notin> {Write, Execute, Receive, Delegate})
        \<and> unat (ac_target a) < 2 ^ 64 \<and> (\<forall>s. biba_write_ok s a))
    \<and> exec_on d (StHostCall hc auth r) s \<noteq> Inl (AuthorizationFailed (BibaViolation l l'))"
proof
  show "\<forall>a. required_action hc = Inr a \<longrightarrow>
        (\<exists>x. ac_rights a = rights_singleton x \<and> x \<notin> {Write, Execute, Receive, Delegate})
        \<and> unat (ac_target a) < 2 ^ 64 \<and> (\<forall>s. biba_write_ok s a)"
    using required_action_rights required_action_target required_action_biba by blast
  have biba: "auth_validate auth s \<noteq> Inl (BibaViolation l l')" if "required_action hc = Inr (au_action auth)"
    using required_action_biba [OF that, of s]
    by (auto simp: auth_validate_def check_capability_def check_policy_def check_validity_def check_liveness_def
        check_confinement_def check_biba_def Let_def and_then_def ok_or_def split: sum.splits option.splits if_splits)
  show "exec_on d (StHostCall hc auth r) s \<noteq> Inl (AuthorizationFailed (BibaViolation l l'))"
  proof (cases "required_action hc")
    case (Inl e)
    then show ?thesis
      using no_authz_required [of hc]
      by (cases d) (auto simp: execute_host_call_def execute_host_call_mut_def no_authz_def)
  next
    case (Inr a)
    have "no_authz (and_then (hc_check_preconditions hc s) (\<lambda>_. function_execute (hc_function hc) s hc r))"
        "no_authz (and_then (hc_check_preconditions hc s) (\<lambda>_. function_execute_mut (hc_function hc) s hc r))"
      using no_authz_preconditions no_authz_execute by blast+
    then show ?thesis
      using Inr biba
      by (cases d; cases "auth_validate auth s")
        (auto simp: execute_host_call_def execute_host_call_mut_def no_authz_def)
  qed
qed

lemma integrity_never_enforced_witness:
  "required_action demo_alloc_call = Inr demo_alloc_action \<and> biba_write_ok demo_state demo_alloc_action"
proof -
  have ra: "required_action demo_alloc_call = Inr demo_alloc_action"
    by (simp add: required_action_def demo_alloc_call_def map_policy_err_def action_new_def demo_alloc_action_def)
  then show ?thesis using integrity_never_enforced [of demo_alloc_call] by blast
qed

text \<open>C38: the CapRevoke host call is authorized for the wrong object. It needs a capability with the revoke
  right on the resource whose address is the number \<open>k\<close>, and that address live, and then revokes the
  capability whose identifier is \<open>k\<close>, with its descendants on the in-place path: any capability of any
  plugin on any target. Without a live address \<open>k\<close> nobody can revoke capability \<open>k\<close> by a host call.\<close>

theorem host_revoke_confusion:
  assumes "state_wf s" and "hc_function hc = FnCapRevoke" and "first_arg hc = Some k"
    and "get_cap s (ucast k) = Some victim"
  shows "(required_action hc = Inr (au_action auth) \<and> mediated s auth \<and> is_ok (hc_check_preconditions hc s) \<longrightarrow>
      (\<exists>s'. exec_on InPlace (StHostCall hc auth r) s = Inr s'
         \<and> (\<forall>j. (ucast k, j) \<in> (child_rel (ks_revocation (st_kernel s)))\<^sup>* \<longrightarrow> \<not> cap_is_valid s' j))
      \<and> (\<exists>s'. exec_on Pure (StHostCall hc auth r) s = Inr s' \<and> \<not> cap_is_valid s' (ucast k)))
    \<and> (\<not> is_live (st_ghost s) k \<longrightarrow> (\<exists>e. exec_on d (StHostCall hc auth r) s = Inl e))"
proof (intro conjI impI)
  let ?r = "ks_revocation (st_kernel s)"
  assume a: "required_action hc = Inr (au_action auth) \<and> mediated s auth \<and> is_ok (hc_check_preconditions hc s)"
  then have subj: "ac_subject (au_action auth) = hc_caller hc" using required_action_Inr by blast
  have "exec_on InPlace (StHostCall hc auth r) s = Inr (with_revocation s (revoke_transitive_fast ?r (ucast k)))"
    using a subj assms
    by (simp add: execute_host_call_mut_Inr function_execute_mut_def hc_cap_revoke_mut_Inr apply_cap_revoke_mut_eq)
  moreover have "\<not> cap_is_valid (with_revocation s (revoke_transitive_fast ?r (ucast k))) j"
    if "(ucast k, j) \<in> (child_rel ?r)\<^sup>*" for j
    using that fast.revoke_valid [OF state_wf_parts(2) [OF assms(1)]] by (simp add: cap_is_valid_def)
  ultimately show "\<exists>s'. exec_on InPlace (StHostCall hc auth r) s = Inr s'
      \<and> (\<forall>j. (ucast k, j) \<in> (child_rel ?r)\<^sup>* \<longrightarrow> \<not> cap_is_valid s' j)"
    by blast
  have "exec_on Pure (StHostCall hc auth r) s = Inr (apply_cap_revoke s (ucast k))"
    using a subj assms by (simp add: execute_host_call_Inr function_execute_def hc_cap_revoke_Inr)
  moreover have "\<not> cap_is_valid (apply_cap_revoke s (ucast k)) (ucast k)"
    by (auto simp: cap_is_valid_def apply_cap_revoke_def rev_is_valid_get revoke_transitive_marked marked_get
        in_revoke_set_def cap_revoke_def)
  ultimately show "\<exists>s'. exec_on Pure (StHostCall hc auth r) s = Inr s' \<and> \<not> cap_is_valid s' (ucast k)" by blast
next
  assume dead: "\<not> is_live (st_ghost s) k"
  show "\<exists>e. exec_on d (StHostCall hc auth r) s = Inl e"
  proof (cases "exec_on d (StHostCall hc auth r) s")
    case (Inr s')
    then have m: "required_action hc = Inr (au_action auth)" "mediated s auth" using exec_on_host_call by blast+
    have "ac_target (au_action auth) = ucast k" using required_action_Inr [OF m(1)] assms(2,3) by auto
    moreover have "ucast (ucast k :: u128) = k" by (rule bit_word_eqI) (simp add: bit_simps)
    ultimately show ?thesis using m(2) dead by (simp add: mediated_def)
  qed simp
qed

text \<open>Capability 0 belongs to plugin 2 and targets resource 7; plugin 1 has a capability on resource 0.\<close>

definition demo_victim :: capability where
  "demo_victim = demo_root\<lparr>cp_holder := 2, cp_target := 7\<rparr>"

definition demo_revoker :: capability where
  "demo_revoker = demo_root\<lparr>cp_id := 1\<rparr>"

definition demo_two :: lion_state where
  "demo_two = delegate_to (delegate_to (apply_alloc demo_base 1 8) demo_victim 2) demo_revoker 1"

definition demo_revoke_call :: host_call where
  "demo_revoke_call = \<lparr>hc_caller = 1, hc_function = FnCapRevoke, hc_args = [0], hc_reads = [], hc_writes = []\<rparr>"

definition demo_revoke_auth :: authorized where
  "demo_revoke_auth = \<lparr>au_cap = demo_revoker, au_action =
     \<lparr>ac_subject = 1, ac_target = 0, ac_rights = rights_singleton Revoke, ac_kind = ''cap_revoke''\<rparr>,
     au_ctx = demo_ctx\<rparr>"

lemma demo_two_facts:
  "state_wf demo_two" "get_cap demo_two 0 = Some demo_victim" "get_cap demo_two 1 = Some demo_revoker"
  "get_plugin demo_two 1 = Some (grant_cap_mut (plugin_empty Secret 64) 1)"
  "is_live (st_ghost demo_two) 0" "ks_policy (st_kernel demo_two) = policy_permit_all"
proof -
  let ?a = "apply_alloc demo_base 1 8"
  let ?b = "delegate_to ?a demo_victim 2"
  have wa: "state_wf ?a" using demo_base_wf by (rule state_wf_alloc)
  have wb: "state_wf ?b" by (rule delegate_to_wf [OF wa]) (simp add: demo_base_cap)
  have id: "cp_id demo_victim = 0" "cp_id demo_revoker = 1" by (simp_all add: demo_victim_def demo_revoker_def demo_root_def)
  have cb: "get_cap ?b j = (if j = 0 then Some demo_victim else None)" for j
    using demo_base_cap state_wf_parts(2) [OF wa] by (simp add: delegate_to_def get_cap_def inserted_get rev_wf_caps id)
  show "state_wf demo_two" unfolding demo_two_def by (rule delegate_to_wf [OF wb]) (simp add: cb id)
  have ct: "get_cap demo_two j = (if j = 1 then Some demo_revoker else get_cap ?b j)" for j
    using cb state_wf_parts(2) [OF wb]
    by (simp add: demo_two_def delegate_to_def [of _ demo_revoker] get_cap_def inserted_get rev_wf_caps id)
  show "get_cap demo_two 0 = Some demo_victim" "get_cap demo_two 1 = Some demo_revoker" by (simp_all add: ct cb)
  have "get_plugin demo_base 1 = Some (plugin_empty Secret 64)" by (simp add: get_tb demo_base_def table_eval)
  then show "get_plugin demo_two 1 = Some (grant_cap_mut (plugin_empty Secret 64) 1)"
    by (simp add: demo_two_def delegate_to_def table_simps id)
  show "is_live (st_ghost demo_two) 0" "ks_policy (st_kernel demo_two) = policy_permit_all"
    by (simp_all add: demo_two_def delegate_to_def apply_alloc_eq demo_base_def state_empty_def meta_alloc_def
        meta_empty_def meta_resource_count_def is_live_def is_freed_def table_eval)
qed

lemma host_revoke_confusion_witness:
  "cap_is_valid demo_two 0 \<and> cp_holder demo_victim \<noteq> hc_caller demo_revoke_call \<and>
   (\<exists>s'. exec_on InPlace (StHostCall demo_revoke_call demo_revoke_auth demo_result) demo_two = Inr s'
      \<and> \<not> cap_is_valid s' 0)"
proof -
  note f = demo_two_facts
  have ra: "required_action demo_revoke_call = Inr (au_action demo_revoke_auth)"
    by (simp add: required_action_def demo_revoke_call_def demo_revoke_auth_def first_arg_def map_policy_err_def
        action_new_def)
  have "plugin_holds demo_two 1 1" using f(4) by (simp add: plugin_view holds_cap_grant)
  moreover have "cap_is_valid demo_two 1"
    using f(3) by (simp add: cap_is_valid_def rev_is_valid_get get_cap_def demo_revoker_def demo_root_def)
  ultimately have m: "mediated demo_two demo_revoke_auth"
    using f(5,6) contains_singleton [of Revoke Write]
    by (simp add: mediated_def demo_revoke_auth_def demo_revoker_def demo_root_def policy_eval_def
        policy_permit_all_def biba_write_ok_iff rights_subset_iff)
  have pre: "is_ok (hc_check_preconditions demo_revoke_call demo_two)"
    using f(4) by (simp add: is_ok_iff hc_check_preconditions_ok demo_revoke_call_def)
  have fn: "hc_function demo_revoke_call = FnCapRevoke" "first_arg demo_revoke_call = Some 0"
    by (simp_all add: demo_revoke_call_def first_arg_def)
  have c: "get_cap demo_two (ucast (0 :: u64)) = Some demo_victim" using f(2) by simp
  obtain s' where s': "exec_on InPlace (StHostCall demo_revoke_call demo_revoke_auth demo_result) demo_two = Inr s'"
      "\<forall>j. (ucast (0 :: u64), j) \<in> (child_rel (ks_revocation (st_kernel demo_two)))\<^sup>* \<longrightarrow> \<not> cap_is_valid s' j"
    using host_revoke_confusion [OF f(1) fn c, of demo_revoke_auth demo_result Pure] ra m pre by blast
  have "\<not> cap_is_valid s' 0" using s'(2) [rule_format, of 0] by simp
  moreover have "cap_is_valid demo_two 0"
    using f(2) by (simp add: cap_is_valid_def rev_is_valid_get get_cap_def demo_victim_def demo_root_def)
  moreover have "cp_holder demo_victim \<noteq> hc_caller demo_revoke_call"
    by (simp add: demo_victim_def demo_revoke_call_def)
  ultimately show ?thesis using s'(1) by blast
qed

end
