(* ===== verification/LionCoreSpec.thy ===== *)
theory LionCoreSpec
  imports LionKernelState
begin

text \<open>
  An abstract specification of the extractable kernel core of \<open>state/kernel.rs\<close>, and the proof that
  \<open>kernel_dispatch\<close> refines it: maps and sets for the sorted tables and the children index, natural
  numbers for the clock and the key epoch, the reflexive transitive closure for the breadth-first walk.
\<close>

section \<open>The specification\<close>

text \<open>What the core promises: a finite history of grants as a map, no tables, no index and no machine
  integers. Revocation is stated over the delegation relation of the map itself.\<close>

record core_spec =
  cs_caps :: "cap_id \<rightharpoonup> capability"
  cs_holds :: "plugin_id \<Rightarrow> cap_id set"
  cs_plugin_level :: "plugin_id \<Rightarrow> security_level"
  cs_resource_level :: "resource_id \<Rightarrow> security_level"
  cs_time :: nat
  cs_epoch :: nat
  cs_key :: key
  cs_grace_key :: "key option"

definition core_spec_initial :: "key \<Rightarrow> core_spec" where
  "core_spec_initial k =
     \<lparr>cs_caps = (\<lambda>_. None), cs_holds = (\<lambda>_. {}), cs_plugin_level = (\<lambda>_. Public),
      cs_resource_level = (\<lambda>_. Public), cs_time = 0, cs_epoch = 0, cs_key = k, cs_grace_key = None\<rparr>"

text \<open>The delegation edges of a table, and revocation of everything below an identifier.\<close>

definition delegation_rel :: "(cap_id \<rightharpoonup> capability) \<Rightarrow> (cap_id \<times> cap_id) set" where
  "delegation_rel m = {(p, k). \<exists>c. m k = Some c \<and> cp_parent c = Some p}"

definition revoke_below :: "(cap_id \<rightharpoonup> capability) \<Rightarrow> cap_id \<Rightarrow> (cap_id \<rightharpoonup> capability)" where
  "revoke_below m i =
     (\<lambda>k. map_option (\<lambda>c. if (i, k) \<in> (delegation_rel m)\<^sup>* then cap_revoke c else c) (m k))"

fun core_spec_step :: "kernel_request \<Rightarrow> core_spec \<Rightarrow> kernel_error option + core_spec" where
  "core_spec_step (RqCapDelegate cap p) s =
     (if cs_caps s (cp_id cap) \<noteq> None then Inl (Some (CapIdCollision (cp_id cap)))
      else Inr (s\<lparr>cs_caps := (cs_caps s)(cp_id cap \<mapsto> cap),
                  cs_holds := (cs_holds s)(p := insert (cp_id cap) (cs_holds s p))\<rparr>))"
| "core_spec_step (RqCapRevoke i) s =
     (if cs_caps s i = None then Inl (Some (CapNotFound i))
      else Inr (s\<lparr>cs_caps := revoke_below (cs_caps s) i\<rparr>))"
| "core_spec_step (RqSetPluginLevel p l) s = Inr (s\<lparr>cs_plugin_level := (cs_plugin_level s)(p := l)\<rparr>)"
| "core_spec_step (RqSetResourceLevel r l) s = Inr (s\<lparr>cs_resource_level := (cs_resource_level s)(r := l)\<rparr>)"
| "core_spec_step RqTick s =
     (if cs_time s + 1 < 2 ^ 64 then Inr (s\<lparr>cs_time := cs_time s + 1\<rparr>)
      else Inl (Some (KernelCounterOverflow ''time'')))"
| "core_spec_step (RqRotateKey k) s =
     (if cs_epoch s + 1 < 2 ^ 64
      then Inr (s\<lparr>cs_epoch := cs_epoch s + 1, cs_key := k, cs_grace_key := Some (cs_key s)\<rparr>)
      else Inl None)"

text \<open>A capability's seal is accepted when its epoch is the current one, a later one or the one before
  during a grace period, and it is the seal of one of the live keys.\<close>

definition core_spec_accepts :: "hmac_fun \<Rightarrow> core_spec \<Rightarrow> capability \<Rightarrow> bool" where
  "core_spec_accepts hmac s c \<longleftrightarrow>
     (if cs_grace_key s = None then cs_epoch s \<le> unat (cp_epoch c) else cs_epoch s \<le> unat (cp_epoch c) + 1)
     \<and> (\<exists>k. (k = cs_key s \<or> Some k = cs_grace_key s)
          \<and> seal_payload hmac k (capability_payload c) = Some (cp_signature c))"

text \<open>The specification's state, read off through the core's own queries.\<close>

definition core_abs :: "kernel_core \<Rightarrow> core_spec" where
  "core_abs c =
     \<lparr>cs_caps = rev_get (kc_revocation c), cs_holds = (\<lambda>p. {i. core_plugin_holds c p i}),
      cs_plugin_level = core_plugin_level c, cs_resource_level = core_resource_level c,
      cs_time = unat (kc_now c), cs_epoch = unat (ky_epoch (kc_key_state c)),
      cs_key = ky_current (kc_key_state c), cs_grace_key = ky_previous (kc_key_state c)\<rparr>"

section \<open>The simulation\<close>

lemma core_abs_empty: "core_abs (core_empty k) = core_spec_initial k"
  by (simp add: core_abs_def core_spec_initial_def core_empty_def fun_eq_iff core_plugin_holds_get
      core_plugin_level_def core_resource_level_def get_plugin_meta_tb get_resource_meta_tb
      key_state_initial_def plugin_meta_empty_def resource_meta_empty_def pm_holds_cap_iff)

lemma delegation_rel_get: "delegation_rel (rev_get r) = child_rel r"
  by (simp add: delegation_rel_def child_rel_def)

lemma core_abs_caps [simp]:
  "cs_caps (core_abs c) = rev_get (kc_revocation c)"
  "i \<in> cs_holds (core_abs c) p \<longleftrightarrow> core_plugin_holds c p i"
  by (simp_all add: core_abs_def)

lemma square_delegate:
  assumes w: "core_wf c" and n: "\<not> rev_contains (kc_revocation c) (cp_id cap)"
  shows "core_abs (delegated c cap p) = (core_abs c)\<lparr>cs_caps := (cs_caps (core_abs c))(cp_id cap \<mapsto> cap),
    cs_holds := (cs_holds (core_abs c))(p := insert (cp_id cap) (cs_holds (core_abs c) p))\<rparr>"
proof -
  have f: "kc_key_state (delegated c cap p) = kc_key_state c" "kc_now (delegated c cap p) = kc_now c"
    "kc_resource_metas (delegated c cap p) = kc_resource_metas c"
    by (simp_all add: delegated_def Let_def)
  then have r: "core_resource_level (delegated c cap p) = core_resource_level c"
    by (simp add: fun_eq_iff core_resource_level_def get_resource_meta_tb)
  show ?thesis
    using dispatch_effects [OF w, of cap p] n f r by (auto simp: core_abs_def fun_eq_iff)
qed

lemma square_rotate:
  "core_spec_step (RqRotateKey k) (core_abs c) = map_sum id core_abs (core_exec (RqRotateKey k) c)"
proof (cases "key_rotate (kc_key_state c) k")
  case None
  then show ?thesis
    by (simp add: core_exec_def dispatch_rotate_key_def core_abs_def key_rotate_def
        checked_add_def Let_def split: if_splits)
next
  case (Some s)
  then have "core_exec (RqRotateKey k) c = Inr (c\<lparr>kc_key_state := s\<rparr>)"
    by (simp add: core_exec_def dispatch_rotate_key_def)
  then show ?thesis using key_rotate_epoch [OF Some] Some
    by (auto simp: core_abs_def key_rotate_Some fun_eq_iff core_plugin_holds_get
      core_plugin_level_def core_resource_level_def get_plugin_meta_tb get_resource_meta_tb)
qed

lemma core_square:
  assumes w: "core_wf c"
  shows "core_spec_step rq (core_abs c) = map_sum id core_abs (core_exec rq c)"
proof (cases rq)
  case (RqCapDelegate cap p)
  then show ?thesis using square_delegate [OF w, of cap p]
    by (simp add: core_exec_def dispatch_cap_delegate_eq rev_contains_get core_abs_caps)
next
  case (RqCapRevoke i)
  have "rev_wf (kc_revocation c)" using w by (simp add: core_wf_def)
  then have "core_abs (c\<lparr>kc_revocation := revoke_transitive_fast (kc_revocation c) i\<rparr>) =
      (core_abs c)\<lparr>cs_caps := revoke_below (cs_caps (core_abs c)) i\<rparr>"
    by (simp add: core_abs_def fun_eq_iff revoke_below_def delegation_rel_get fast.revoke_get
        core_plugin_holds_get core_plugin_level_def core_resource_level_def get_plugin_meta_tb
        get_resource_meta_tb)
  then show ?thesis using RqCapRevoke
    by (simp add: core_exec_def dispatch_cap_revoke_eq [OF w] rev_contains_get core_abs_caps)
next
  case (RqSetPluginLevel p l)
  then show ?thesis
    using set_plugin_meta_get [OF w, of "(get_plugin_meta c p)\<lparr>pm_level := l\<rparr>" p]
      get_plugin_meta_sorted [OF w, of p]
    by (simp add: core_exec_def dispatch_set_plugin_level_def core_abs_def fun_eq_iff
        core_plugin_level_def core_plugin_holds_get pm_holds_cap_def core_resource_level_def
        get_resource_meta_tb)
next
  case (RqSetResourceLevel r l)
  then show ?thesis
    using set_resource_meta_get [OF w, of r "(get_resource_meta c r)\<lparr>rm_level := l\<rparr>"]
    by (simp add: core_exec_def dispatch_set_resource_level_def core_abs_def fun_eq_iff
        core_plugin_level_def core_plugin_holds_get core_resource_level_def get_plugin_meta_tb)
next
  case RqTick
  then show ?thesis using unat_add_no_overflow [of "kc_now c" 1] word_max_iff [of "kc_now c"]
    by (auto simp: core_exec_def dispatch_tick_eq core_abs_def fun_eq_iff core_plugin_holds_get
        core_plugin_level_def core_resource_level_def get_plugin_meta_tb get_resource_meta_tb)
next
  case (RqRotateKey k)
  then show ?thesis using square_rotate [of k c] by simp
qed

interpretation core_refines: functional_refinement core_exec core_wf core_spec_step id core_abs
  by unfold_locales (rule core_square)

lemma seal_accepted:
  "verify_seal hmac k p t = (if serialize_payload p = None then None else Some (seal_payload hmac k p = Some t))"
  by (cases t) (auto simp: verify_seal_def seal_payload_def split: option.splits)

lemma core_verify_spec:
  assumes w: "core_wf c"
  shows "core_verify_cap_seal hmac c cap = Some True \<longleftrightarrow> core_spec_accepts hmac (core_abs c) cap"
proof -
  have "key_wf (kc_key_state c)" using w by (simp add: core_wf_def)
  then show ?thesis
    by (auto simp: core_verify_cap_seal_def verify_with_epoch_def epoch_valid_wf key_verify_seal_def
        core_spec_accepts_def core_abs_def seal_accepted seal_payload_def
        split: option.splits if_splits bool.splits)
qed

section \<open>Property\<close>

text \<open>C8: the extractable core implements its specification: from a well-formed core every sequence of requests
  gets the same answer, the same refusal or panic included, and ends in corresponding states; the empty
  core is the initial one, and the core's validity, possession and seal queries read the specification.\<close>

theorem core_refines_spec:
  assumes "core_wf c"
  shows "run_all core_spec_step rqs (core_abs c) = map_sum id core_abs (run_all core_exec rqs c)
    \<and> core_abs (core_empty k) = core_spec_initial k
    \<and> (core_cap_is_valid c i \<longleftrightarrow> (\<exists>cap. cs_caps (core_abs c) i = Some cap \<and> cp_valid cap))
    \<and> (core_plugin_holds c p i \<longleftrightarrow> i \<in> cs_holds (core_abs c) p)
    \<and> (core_verify_cap_seal hmac c cap = Some True \<longleftrightarrow> core_spec_accepts hmac (core_abs c) cap)"
  using core_refines.run_square [OF assms, of rqs] core_verify_spec [OF assms]
  by (simp add: core_abs_empty core_cap_is_valid_def rev_is_valid_get)

lemma core_refines_spec_witness:
  "\<exists>c. run_all core_exec [RqTick, RqCapDelegate (demo_cap 4 None) 9, RqCapRevoke 4] (core_empty key_empty) = Inr c
    \<and> core_plugin_holds c 9 4 \<and> \<not> core_cap_is_valid c 4"
proof -
  let ?rqs = "[RqTick, RqCapDelegate (demo_cap 4 None) 9, RqCapRevoke 4]"
  have square: "map_sum id core_abs (run_all core_exec ?rqs (core_empty key_empty)) =
      run_all core_spec_step ?rqs (core_spec_initial key_empty)"
    using core_refines_spec [OF core_wf_empty, of ?rqs key_empty key_empty] by (simp only: core_abs_empty)
  let ?m = "(\<lambda>_. None)(4 \<mapsto> demo_cap 4 None) :: cap_id \<rightharpoonup> capability"
  have run: "run_all core_spec_step ?rqs (core_spec_initial key_empty) =
      Inr ((core_spec_initial key_empty)\<lparr>cs_time := 1, cs_caps := revoke_below ?m 4, cs_holds := (\<lambda>_. {})(9 := {4})\<rparr>)"
    by (simp add: core_spec_initial_def demo_cap_sel)
  obtain c where c: "run_all core_exec ?rqs (core_empty key_empty) = Inr c"
    and a: "core_abs c = (core_spec_initial key_empty)\<lparr>cs_time := 1, cs_caps := revoke_below ?m 4,
      cs_holds := (\<lambda>_. {})(9 := {4})\<rparr>"
    using square unfolding run by (rule map_sum_Inr)
  have "core_wf c" using core.run_inv [OF core_wf_empty c] .
  from core_refines_spec [OF this, of "[]" key_empty 4 9] a c
  show ?thesis by (auto simp: revoke_below_def)
qed
end
