(* ===== verification/LionSystemSpec.thy ===== *)
theory LionSystemSpec
  imports LionAuthGaps LionCoreSpec
begin

text \<open>
  An abstract specification of the whole system, and the proof that both executions of \<open>step.rs\<close> (the
  pure \<open>step_execute\<close> and the in-place \<open>step_execute_mut\<close>: plugin computation, host calls, kernel
  operations, frees and revocations) refine it. The specification has maps and sets for the sorted tables, natural numbers
  for the clock, the sizes and the quotas, the owner of each live address for the ghost history, the
  delegation relation for the indexed walk, and one guard for the three-stage authorization of a host
  call. A refusal is a single value: which error the code reports is the subject of the error lemmas of
  the components.
\<close>

section \<open>The specification\<close>

text \<open>A plugin is its level, its memory, the capabilities it holds and its account; an actor is its two
  queues; the system adds what is shared.\<close>

record agent =
  ag_level :: security_level
  ag_memory :: "mem_addr \<Rightarrow> u8"
  ag_bounds :: nat
  ag_holds :: "cap_id set"
  ag_used :: nat
  ag_quota :: nat

record box =
  bx_pending :: "message list"
  bx_mail :: "message list"
  bx_room :: nat
  bx_waits :: "actor_id option"

record sys_spec =
  sy_agents :: "plugin_id \<rightharpoonup> agent"
  sy_boxes :: "actor_id \<rightharpoonup> box"
  sy_classes :: "resource_id \<rightharpoonup> security_level"
  sy_flows :: "workflow_id \<rightharpoonup> workflow_status"
  sy_caps :: "cap_id \<rightharpoonup> capability"
  sy_policy :: policy_state
  sy_time :: nat
  sy_known :: "mem_addr set"
  sy_owner :: "mem_addr \<rightharpoonup> plugin_id"
  sy_dead :: "mem_addr set"

text \<open>What a host call must satisfy: what its function demands of it, the capability it presents, the
  policy, the liveness of the target and the bounds of its regions.\<close>

definition sy_valid :: "sys_spec \<Rightarrow> cap_id \<Rightarrow> bool" where
  "sy_valid s k \<longleftrightarrow> (\<exists>c. sy_caps s k = Some c \<and> cp_valid c)"

definition within_bounds :: "agent \<Rightarrow> (mem_addr \<times> mem_size) list \<Rightarrow> bool" where
  "within_bounds g rs \<longleftrightarrow> (\<forall>(a, n) \<in> set rs. unat a + unat n \<le> ag_bounds g)"

definition demand :: "host_call \<Rightarrow> (resource_id \<times> right \<times> string) option" where
  "demand hc =
     (case hc_function hc of
        FnCapCall \<Rightarrow> map_option (\<lambda>a. (ucast a, Read, ''cap_call'')) (first_arg hc)
      | FnCapSend \<Rightarrow> Some (0, Send, ''cap_send'')
      | FnKernelAlloc \<Rightarrow> Some (0, Create, ''kernel_alloc'')
      | FnMemFree \<Rightarrow> map_option (\<lambda>a. (ucast a, Delete, ''mem_free'')) (first_arg hc)
      | FnCapRevoke \<Rightarrow> map_option (\<lambda>a. (ucast a, Revoke, ''cap_revoke'')) (first_arg hc)
      | FnDeclassify \<Rightarrow> Some (0, right.Declassify, ''declassify'')
      | _ \<Rightarrow> None)"

definition admitted :: "sys_spec \<Rightarrow> host_call \<Rightarrow> authorized \<Rightarrow> bool" where
  "admitted s hc w \<longleftrightarrow> (\<exists>r x kind g.
     demand hc = Some (r, x, kind) \<and> sy_agents s (hc_caller hc) = Some g
     \<and> au_action w = \<lparr>ac_subject = hc_caller hc, ac_target = r, ac_rights = rights_singleton x, ac_kind = kind\<rparr>
     \<and> cp_holder (au_cap w) = hc_caller hc \<and> cp_target (au_cap w) = r \<and> rights_contains (cp_rights (au_cap w)) x
     \<and> cp_id (au_cap w) \<in> ag_holds g \<and> sy_valid s (cp_id (au_cap w))
     \<and> (\<forall>p. cp_parent (au_cap w) = Some p \<longrightarrow> sy_valid s p)
     \<and> policy_eval (sy_policy s) (au_action w) (au_ctx w) = Permit \<and> sy_owner s (ucast r) \<noteq> None
     \<and> within_bounds g (hc_reads hc) \<and> within_bounds g (hc_writes hc))"

text \<open>An address is released once nothing valid refers to it; a grant of memory takes the number of
  known addresses as the new address, which stays dead if it was ever freed. The two paths differ here:
  the pure one releases whatever is not dead, an address that was never granted included, the in-place one
  only a live address.\<close>

definition releasable :: "path \<Rightarrow> sys_spec \<Rightarrow> mem_addr \<Rightarrow> bool" where
  "releasable d s a \<longleftrightarrow> (case d of Pure \<Rightarrow> a \<notin> sy_dead s | InPlace \<Rightarrow> sy_owner s a \<noteq> None)
     \<and> (\<forall>k c. sy_caps s k = Some c \<and> cp_valid c \<longrightarrow> cp_target c \<noteq> ucast a)"

definition release :: "mem_addr \<Rightarrow> sys_spec \<Rightarrow> sys_spec" where
  "release a s = s\<lparr>sy_owner := (sy_owner s)(a := None), sy_dead := insert a (sy_dead s)\<rparr>"

definition know_address :: "plugin_id \<Rightarrow> sys_spec \<Rightarrow> sys_spec" where
  "know_address p s =
     (let a = of_nat (card (sy_known s))
      in s\<lparr>sy_known := insert a (sy_known s),
           sy_owner := (sy_owner s)(a := if a \<in> sy_dead s then None else Some p)\<rparr>)"

definition with_agent :: "plugin_id \<Rightarrow> (agent \<Rightarrow> agent) \<Rightarrow> sys_spec \<Rightarrow> sys_spec" where
  "with_agent p f s = s\<lparr>sy_agents := (sy_agents s)(p := map_option f (sy_agents s p))\<rparr>"

definition grant_memory :: "plugin_id \<Rightarrow> nat \<Rightarrow> sys_spec \<Rightarrow> sys_spec" where
  "grant_memory p n s = with_agent p (\<lambda>g. g\<lparr>ag_used := ag_used g + n\<rparr>) (know_address p s)"

text \<open>They differ on revocation too: the in-place path revokes everything delegated from the capability, the
  pure one what is at most as many delegations away as its own identifier says.\<close>

definition revoke_within :: "(cap_id \<rightharpoonup> capability) \<Rightarrow> cap_id \<Rightarrow> (cap_id \<rightharpoonup> capability)" where
  "revoke_within m i =
     (\<lambda>k. map_option (\<lambda>c. if \<exists>n. n \<le> unat k \<and> (i, k) \<in> delegation_rel m ^^ n then cap_revoke c else c) (m k))"

definition withdraw :: "path \<Rightarrow> cap_id \<Rightarrow> sys_spec \<Rightarrow> sys_spec" where
  "withdraw d i s = s\<lparr>sy_caps := (case d of Pure \<Rightarrow> revoke_within | InPlace \<Rightarrow> revoke_below) (sy_caps s) i\<rparr>"

text \<open>Updates of one actor and of one level.\<close>

definition with_box :: "actor_id \<Rightarrow> (box \<Rightarrow> box) \<Rightarrow> sys_spec \<Rightarrow> sys_spec" where
  "with_box a f s = s\<lparr>sy_boxes := (sy_boxes s)(a := map_option f (sy_boxes s a))\<rparr>"

definition numbered_level :: "u64 \<Rightarrow> security_level option" where
  "numbered_level v = (if v < 4 then Some ([Public, Internal, Confidential, Secret] ! unat v) else None)"

definition lower_level :: "plugin_id \<Rightarrow> security_level \<Rightarrow> sys_spec \<Rightarrow> sys_spec" where
  "lower_level p l s = with_agent p (\<lambda>g. g\<lparr>ag_level := l\<rparr>) s"

definition only_if :: "bool \<Rightarrow> 'a \<Rightarrow> unit + 'a" where
  "only_if b x = (if b then Inr x else Inl ())"

text \<open>What each host function does once admitted, and the steps of the system.\<close>

definition call_effect :: "path \<Rightarrow> host_call \<Rightarrow> host_result \<Rightarrow> sys_spec \<Rightarrow> unit + sys_spec" where
  "call_effect d hc res s =
     (case hc_function hc of
        FnCapCall \<Rightarrow> Inr s
      | FnCapSend \<Rightarrow>
          only_if (hr_new_msgs res \<noteq> [] \<and> (\<forall>m \<in> set (hr_new_msgs res). mg_src m = hc_caller hc
            \<and> (\<exists>b. sy_boxes s (mg_dst m) = Some b \<and> length (bx_mail b) < bx_room b))) s
      | FnKernelAlloc \<Rightarrow>
          only_if (\<exists>g. sy_agents s (hc_caller hc) = Some g \<and> ag_used g + unat (arg_or_zero hc) \<le> ag_quota g)
            (grant_memory (hc_caller hc) (unat (arg_or_zero hc)) s)
      | FnMemFree \<Rightarrow>
          (case first_arg hc of None \<Rightarrow> Inl () | Some a \<Rightarrow> only_if (releasable d s a) (release a s))
      | FnCapRevoke \<Rightarrow>
          (case first_arg hc of None \<Rightarrow> Inl ()
           | Some k \<Rightarrow> only_if (sy_caps s (ucast k) \<noteq> None) (withdraw d (ucast k) s))
      | FnDeclassify \<Rightarrow>
          (case numbered_level (arg_or_zero hc) of None \<Rightarrow> Inl ()
           | Some l \<Rightarrow> only_if (\<exists>g. sy_agents s (hc_caller hc) = Some g \<and> l \<le> ag_level g)
               (lower_level (hc_caller hc) l s))
      | _ \<Rightarrow> Inl ())"

fun sys_spec_step :: "path \<Rightarrow> step \<Rightarrow> sys_spec \<Rightarrow> unit + sys_spec" where
  "sys_spec_step d (StPluginInternal p pi) s =
     only_if ((\<exists>g. sy_agents s p = Some g \<and> within_bounds g (pi_reads pi)
         \<and> (\<forall>(a, n) \<in> set (pi_writes pi). unat a + max 1 (unat n) \<le> ag_bounds g))
       \<and> (\<forall>b. sy_boxes s p = Some b \<longrightarrow> bx_waits b = None \<and> (pi_consume_mailbox pi \<longrightarrow> bx_mail b \<noteq> [])))
     (if pi_consume_mailbox pi then with_box p (\<lambda>b. b\<lparr>bx_mail := tl (bx_mail b)\<rparr>) s else s)"
| "sys_spec_step d (StHostCall hc w res) s = (if admitted s hc w then call_effect d hc res s else Inl ())"
| "sys_spec_step d (StKernelInternal (RouteOne a)) s =
     only_if (\<exists>b. sy_boxes s a = Some b \<and> bx_pending b \<noteq> [] \<and> length (bx_mail b) < bx_room b)
       (with_box a (\<lambda>b. b\<lparr>bx_pending := tl (bx_pending b), bx_mail := bx_mail b @ [hd (bx_pending b)]\<rparr>) s)"
| "sys_spec_step d (StKernelInternal (WorkflowTick w)) s = only_if (sy_flows s w = Some Running) s"
| "sys_spec_step d (StKernelInternal TimeTick) s =
     only_if (sy_time s + 1 < 2 ^ 64) (s\<lparr>sy_time := sy_time s + 1\<rparr>)"
| "sys_spec_step d (StKernelInternal (UnblockSend a)) s =
     only_if (sy_boxes s a \<noteq> None) (with_box a (\<lambda>b. b\<lparr>bx_waits := None\<rparr>) s)"
| "sys_spec_step d (StKernelInternal (ThreadSwitch t u)) s = Inl ()"
| "sys_spec_step d (StMemFree p a) s = only_if (releasable d s a) (release a s)"
| "sys_spec_step d (StCapRevoke p k) s =
     only_if (sy_caps s k \<noteq> None) (withdraw d k s)"

section \<open>The abstraction\<close>

definition agent_of :: "plugin_state \<Rightarrow> agent" where
  "agent_of p =
     \<lparr>ag_level = pg_level p, ag_memory = mem_read (pg_memory p), ag_bounds = unat (lm_bounds (pg_memory p)),
      ag_holds = {k. holds_cap p k}, ag_used = unat (pg_memory_used p), ag_quota = unat (pg_memory_quota p)\<rparr>"

definition box_of :: "actor_runtime \<Rightarrow> box" where
  "box_of a =
     \<lparr>bx_pending = ar_pending a, bx_mail = ar_mailbox a, bx_room = ar_capacity a, bx_waits = ar_blocked_on a\<rparr>"

definition live_owner :: "meta_state \<Rightarrow> mem_addr \<Rightarrow> plugin_id option" where
  "live_owner g a = (if is_live g a then Option.bind (meta_status g a) rs_owner else None)"

definition sys_abs :: "lion_state \<Rightarrow> sys_spec" where
  "sys_abs s =
     \<lparr>sy_agents = (\<lambda>p. map_option agent_of (get_plugin s p)),
      sy_boxes = (\<lambda>a. map_option box_of (get_actor s a)),
      sy_classes = resource_level s,
      sy_flows = (\<lambda>w. map_option wi_status (get_workflow s w)),
      sy_caps = get_cap s, sy_policy = ks_policy (st_kernel s), sy_time = unat (state_time s),
      sy_known = {a. meta_status (st_ghost s) a \<noteq> None},
      sy_owner = live_owner (st_ghost s), sy_dead = {a. is_freed (st_ghost s) a}\<rparr>"

lemma sys_abs_sel [simp]:
  "sy_agents (sys_abs s) p = map_option agent_of (get_plugin s p)"
  "sy_boxes (sys_abs s) a = map_option box_of (get_actor s a)"
  "sy_flows (sys_abs s) w = map_option wi_status (get_workflow s w)"
  "sy_caps (sys_abs s) = get_cap s" "sy_policy (sys_abs s) = ks_policy (st_kernel s)"
  "sy_time (sys_abs s) = unat (state_time s)"
  "sy_owner (sys_abs s) = live_owner (st_ghost s)" "sy_dead (sys_abs s) = {a. is_freed (st_ghost s) a}"
  "sy_known (sys_abs s) = {a. meta_status (st_ghost s) a \<noteq> None}"
  "sy_classes (sys_abs s) = resource_level s"
  by (simp_all add: sys_abs_def)

lemma agent_sel [simp]:
  "ag_level (agent_of p) = pg_level p" "ag_bounds (agent_of p) = unat (lm_bounds (pg_memory p))"
  "k \<in> ag_holds (agent_of p) \<longleftrightarrow> holds_cap p k"
  "ag_used (agent_of p) = unat (pg_memory_used p)" "ag_quota (agent_of p) = unat (pg_memory_quota p)"
  "bx_pending (box_of a) = ar_pending a" "bx_mail (box_of a) = ar_mailbox a" "bx_room (box_of a) = ar_capacity a"
  "bx_waits (box_of a) = ar_blocked_on a"
  by (simp_all add: agent_of_def box_of_def)

text \<open>The owner of an address is known exactly while it is live.\<close>

lemma live_owner_iff: "live_owner g a \<noteq> None \<longleftrightarrow> is_live g a"
  by (auto simp: live_owner_def is_live_def meta_status_def rs_owner_def split: option.splits resource_status.splits)

lemma live_owner_None [simp]: "live_owner g a = None \<longleftrightarrow> \<not> is_live g a"
  using live_owner_iff [of g a] by blast

lemma live_owner_eq:
  "live_owner g a = (case meta_status g a of Some (Allocated p) \<Rightarrow> if is_freed g a then None else Some p | _ \<Rightarrow> None)"
  by (auto simp: live_owner_def is_live_def meta_status_def rs_owner_def split: option.splits resource_status.splits)

lemma sy_valid_abs: "sy_valid (sys_abs s) k \<longleftrightarrow> cap_is_valid s k"
  by (simp add: sy_valid_def cap_is_valid_def rev_is_valid_get get_cap_def)

lemma within_bounds_abs:
  "within_bounds (agent_of p) rs \<longleftrightarrow> (\<forall>(a, n) \<in> set rs. addr_in_bounds (pg_memory p) a n)"
  by (simp add: within_bounds_def addr_in_bounds_iff)


section \<open>Guards\<close>

text \<open>The guards of the code on a state are those of the specification on its abstraction.\<close>

lemma required_action_demand:
  "required_action hc = Inr a \<longleftrightarrow> (\<exists>r x kind. demand hc = Some (r, x, kind)
     \<and> a = \<lparr>ac_subject = hc_caller hc, ac_target = r, ac_rights = rights_singleton x, ac_kind = kind\<rparr>)"
  by (cases "hc_function hc"; cases "first_arg hc")
    (auto simp: demand_def required_action_def map_policy_err_def action_new_def)

lemma singleton_subset: "rights_is_subset_of (rights_singleton x) r \<longleftrightarrow> rights_contains r x"
  by (simp add: rights_subset_iff) (simp add: rights_set_def)

lemma preconditions_abs:
  "is_ok (hc_check_preconditions hc s) \<longleftrightarrow> (\<exists>p. get_plugin s (hc_caller hc) = Some p
     \<and> within_bounds (agent_of p) (hc_reads hc) \<and> within_bounds (agent_of p) (hc_writes hc))"
  by (simp add: is_ok_iff hc_check_preconditions_ok within_bounds_abs)

lemma admitted_abs:
  "admitted (sys_abs s) hc w \<longleftrightarrow> required_action hc = Inr (au_action w) \<and> ac_subject (au_action w) = hc_caller hc
     \<and> mediated s w \<and> is_ok (hc_check_preconditions hc s)"
proof (cases "required_action hc = Inr (au_action w)")
  case True
  then obtain r x kind where d: "demand hc = Some (r, x, kind)" and a: "au_action w =
      \<lparr>ac_subject = hc_caller hc, ac_target = r, ac_rights = rights_singleton x, ac_kind = kind\<rparr>"
    by (auto simp: required_action_demand)
  have b: "biba_write_ok s (au_action w)" by (rule required_action_biba [OF True])
  show ?thesis
  proof (cases "get_plugin s (hc_caller hc)")
    case None
    then show ?thesis by (auto simp: admitted_def preconditions_abs)
  next
    case (Some p)
    then show ?thesis using True d a b
      by (auto simp: admitted_def mediated_def preconditions_abs sy_valid_abs singleton_subset
          plugin_view simp del: not_None_eq)
  qed
next
  case False
  then show ?thesis by (auto simp: admitted_def required_action_demand)
qed

section \<open>Effects\<close>

text \<open>An update of one actor, plugin, ghost history or revocation table is the corresponding update of
  the specification state.\<close>

lemma with_box_abs:
  assumes "\<And>x. get_actor s a = Some x \<Longrightarrow> box_of (f x) = g (box_of x)"
  shows "sys_abs (modify_actor s a f) = with_box a g (sys_abs s)"
  using assms
  by (cases "get_actor s a")
    (auto simp: sys_abs_def with_box_def fun_eq_iff table_simps get_cap_def state_time_def plugin_view)

lemma with_agent_abs:
  assumes "\<And>x. get_plugin s p = Some x \<Longrightarrow> agent_of (f x) = g (agent_of x)"
  shows "sys_abs (modify_plugin s p f) = with_agent p g (sys_abs s)"
  using assms
  by (cases "get_plugin s p")
    (auto simp: sys_abs_def with_agent_def fun_eq_iff table_simps get_cap_def state_time_def plugin_view)

lemma ghost_abs:
  "sys_abs (s\<lparr>st_ghost := g\<rparr>) = (sys_abs s)\<lparr>sy_known := {a. meta_status g a \<noteq> None},
    sy_owner := live_owner g, sy_dead := {a. is_freed g a}\<rparr>"
  by (simp add: sys_abs_def fun_eq_iff get_cap_def state_time_def plugin_view)

lemma revocation_abs:
  assumes "state_wf s"
  shows "sys_abs (with_revocation s (revoke_transitive_fast (ks_revocation (st_kernel s)) k)) =
    withdraw InPlace k (sys_abs s)"
    and "sys_abs (apply_cap_revoke s k) = withdraw Pure k (sys_abs s)"
proof -
  have "get_cap (with_revocation s (revoke_transitive_fast (ks_revocation (st_kernel s)) k)) = revoke_below (get_cap s) k"
    using state_wf_parts(2) [OF assms]
    by (simp add: get_cap_def fun_eq_iff revoke_below_def delegation_rel_def child_rel_def fast.revoke_get)
  then show "sys_abs (with_revocation s (revoke_transitive_fast (ks_revocation (st_kernel s)) k)) =
    withdraw InPlace k (sys_abs s)"
    by (simp add: withdraw_def sys_abs_def fun_eq_iff state_time_def plugin_view get_tb)
  have "get_cap (apply_cap_revoke s k) = revoke_within (get_cap s) k"
    by (simp add: apply_cap_revoke_def get_cap_def fun_eq_iff revoke_within_def delegation_rel_def child_rel_def
        revoke_transitive_marked marked_get in_revoke_set_bounded)
  then show "sys_abs (apply_cap_revoke s k) = withdraw Pure k (sys_abs s)"
    by (simp add: withdraw_def apply_cap_revoke_def sys_abs_def fun_eq_iff state_time_def plugin_view get_tb)
qed

lemma targeting_abs:
  assumes "state_wf s"
  shows "any_valid_targeting (ks_revocation (st_kernel s)) t \<longleftrightarrow>
    (\<exists>k c. sy_caps (sys_abs s) k = Some c \<and> cp_valid c \<and> cp_target c = t)"
  using state_wf_parts(2) [OF assms]
  by (auto simp: any_valid_targeting_def list_ex_iff get_cap_def rev_get_mem)

lemma released_abs:
  assumes "\<And>b. is_freed g b \<longleftrightarrow> b = a \<or> is_freed (st_ghost s) b"
    and "\<And>b. b \<noteq> a \<Longrightarrow> meta_status g b = meta_status (st_ghost s) b"
    and "meta_status g a = None \<longleftrightarrow> meta_status (st_ghost s) a = None"
  shows "sys_abs (s\<lparr>st_ghost := g\<rparr>) = release a (sys_abs s)"
proof -
  have "live_owner g b = (if b = a then None else live_owner (st_ghost s) b)" for b
    using assms(1,2) [of b] by (auto simp: live_owner_eq split: option.split resource_status.split)
  moreover have "meta_status g b = None \<longleftrightarrow> meta_status (st_ghost s) b = None" for b
    using assms(2) [of b] assms(3) by (cases "b = a") simp_all
  ultimately have o': "live_owner g = (live_owner (st_ghost s))(a := None)"
    and k: "{b. meta_status g b \<noteq> None} = sy_known (sys_abs s)"
    and f': "{b. is_freed g b} = insert a (sy_dead (sys_abs s))"
    using assms(1) by (auto simp: fun_eq_iff)
  show ?thesis unfolding ghost_abs release_def o' k f' by simp
qed

lemma release_abs:
  assumes "state_wf s"
  shows "map_sum (\<lambda>_. ()) sys_abs (apply_free_mut s a) =
      only_if (releasable InPlace (sys_abs s) a) (release a (sys_abs s))"
    and "\<not> is_freed (st_ghost s) a \<Longrightarrow>
      map_sum (\<lambda>_. ()) sys_abs (apply_free s a) = only_if (releasable Pure (sys_abs s) a) (release a (sys_abs s))"
proof -
  let ?g = "st_ghost s"
  have g: "meta_wf ?g" by (rule state_wf_parts(3) [OF assms])
  have rel: "releasable InPlace (sys_abs s) a \<longleftrightarrow>
      is_live ?g a \<and> \<not> any_valid_targeting (ks_revocation (st_kernel s)) (ucast a)"
    by (auto simp: releasable_def targeting_abs [OF assms] simp del: not_None_eq)
  show "map_sum (\<lambda>_. ()) sys_abs (apply_free_mut s a) =
      only_if (releasable InPlace (sys_abs s) a) (release a (sys_abs s))"
  proof (cases "releasable InPlace (sys_abs s) a")
    case True
    then have "is_live ?g a" by (simp add: rel)
    then obtain g' where g': "meta_free_mut ?g a = Inr g'" by (auto simp: meta_free_mut_Inr)
    then have f: "apply_free_mut s a = Inr (s\<lparr>st_ghost := g'\<rparr>)"
      using True by (simp add: rel apply_free_mut_Inr)
    have "ms_resources g' = tb_modify (ms_resources ?g) a (\<lambda>_. Freed)"
      using g' by (simp add: meta_free_mut_Inr)
    then have "sys_abs (s\<lparr>st_ghost := g'\<rparr>) = release a (sys_abs s)"
      by (intro released_abs is_freed_free_mut [OF g g']) (simp_all add: meta_status_def tb_modify_get)
    then show ?thesis using True f by (simp add: only_if_def)
  next
    case False
    then have "apply_free_mut s a \<noteq> Inr s'" for s' by (auto simp: rel apply_free_mut_Inr meta_free_mut_Inr)
    then obtain e where "apply_free_mut s a = Inl e" by (cases "apply_free_mut s a") blast+
    then show ?thesis using False by (simp add: only_if_def)
  qed
  have "sys_abs (s\<lparr>st_ghost := meta_free ?g a\<rparr>) = release a (sys_abs s)"
    by (intro released_abs is_freed_free [OF g]) (simp_all add: meta_status_def meta_free_def)
  moreover have "apply_free s a = (if any_valid_targeting (ks_revocation (st_kernel s)) (ucast a)
      then Inl (DanglingCapability a) else Inr (s\<lparr>st_ghost := meta_free ?g a\<rparr>))"
    by (cases s) (simp add: apply_free_def)
  ultimately show "\<not> is_freed ?g a \<Longrightarrow>
      map_sum (\<lambda>_. ()) sys_abs (apply_free s a) = only_if (releasable Pure (sys_abs s) a) (release a (sys_abs s))"
    using targeting_abs [OF assms, of "ucast a"] by (auto simp: only_if_def releasable_def)
qed

lemma alloc_abs:
  assumes "state_wf s"
  shows "meta_resource_count (st_ghost s) = card (sy_known (sys_abs s))"
    and "sys_abs (apply_alloc s p n) = know_address p (sys_abs s)"
proof -
  let ?g = "st_ghost s"
  let ?a = "of_nat (meta_resource_count ?g) :: mem_addr"
  have srt: "sorted_table (ms_resources ?g)" using state_wf_parts(3) [OF assms] by (simp add: meta_wf_def)
  have "{a. meta_status ?g a \<noteq> None} = set (map fst (ms_resources ?g))"
    using srt by (auto simp: meta_status_def tb_get_None_iff)
  then show card: "meta_resource_count ?g = card (sy_known (sys_abs s))"
    using distinct_card [OF sorted_table_distinct [OF srt]] by (simp add: meta_resource_count_def)
  have st: "meta_status (meta_alloc ?g ?a p) b = (if b = ?a then Some (Allocated p) else meta_status ?g b)" for b
    by (simp add: meta_status_def meta_alloc_def tb_upsert_get [OF srt])
  have "live_owner (meta_alloc ?g ?a p) b =
      (if b = ?a then if is_freed ?g ?a then None else Some p else live_owner ?g b)" for b
    by (simp add: live_owner_eq st split: option.split resource_status.split)
  moreover have "{b. meta_status (meta_alloc ?g ?a p) b \<noteq> None} = insert ?a {b. meta_status ?g b \<noteq> None}"
    using st by auto
  ultimately have o': "live_owner (meta_alloc ?g ?a p) = (live_owner ?g)(?a := if is_freed ?g ?a then None else Some p)"
    and k: "{b. meta_status (meta_alloc ?g ?a p) b \<noteq> None} = insert ?a (sy_known (sys_abs s))"
    by (auto simp: fun_eq_iff)
  have d: "{b. is_freed (meta_alloc ?g ?a p) b} = sy_dead (sys_abs s)" by simp
  show "sys_abs (apply_alloc s p n) = know_address p (sys_abs s)"
    unfolding apply_alloc_eq ghost_abs o' k d know_address_def Let_def card [symmetric] by simp
qed

lemma grant_abs:
  assumes "state_wf s" and "get_plugin s p = Some q" and "can_alloc_memory q n"
  shows "sys_abs (modify_plugin (apply_alloc s p n) p (add_memory_used n)) = grant_memory p (unat n) (sys_abs s)"
proof -
  have "agent_of (add_memory_used n q) = (agent_of q)\<lparr>ag_used := ag_used (agent_of q) + unat n\<rparr>"
    using alloc_used_exact(1) [OF assms(3)] by (simp add: agent_of_def add_memory_used_def fun_eq_iff holds_cap_def)
  then have "sys_abs (modify_plugin (apply_alloc s p n) p (add_memory_used n)) =
      with_agent p (\<lambda>g. g\<lparr>ag_used := ag_used g + unat n\<rparr>) (sys_abs (apply_alloc s p n))"
    using assms(2) by (intro with_agent_abs) simp
  then show ?thesis by (simp add: grant_memory_def alloc_abs [OF assms(1)] del: sys_abs_sel)
qed

lemma can_alloc_abs: "can_alloc_memory q n \<longleftrightarrow> ag_used (agent_of q) + unat n \<le> ag_quota (agent_of q)"
  by (simp add: can_alloc_memory_iff)

section \<open>The simulation\<close>

text \<open>Each operation of the code, refusals included, is the one of the specification.\<close>

lemma only_if_eq: "(b \<Longrightarrow> map_sum (\<lambda>_. ()) f r = Inr y) \<Longrightarrow> (\<not> b \<Longrightarrow> \<exists>e. r = Inl e) \<Longrightarrow>
   map_sum (\<lambda>_. ()) f r = only_if b y"
  by (cases b) (auto simp: only_if_def)

lemma quiet_map_err [simp]: "map_sum (\<lambda>_. ()) f (map_err g r) = map_sum (\<lambda>_. ()) f r"
  by (cases r) (simp_all add: map_err_def)

lemma consume_abs:
  "sys_abs (consume_from s p) = with_box p (\<lambda>b. b\<lparr>bx_mail := tl (bx_mail b)\<rparr>) (sys_abs s)"
proof (cases "get_actor s p")
  case None
  then show ?thesis by (simp add: consume_from_def with_box_def fun_upd_idem)
next
  case (Some a)
  have "box_of (snd (consume_mut a)) = (box_of a)\<lparr>bx_mail := tl (bx_mail (box_of a))\<rparr>" for a
    by (simp add: consume_mut_def box_of_def split: list.split)
  then show ?thesis using Some by (simp add: consume_from_def with_box_abs)
qed

lemma internal_square:
  "map_sum (\<lambda>_. ()) sys_abs (execute_plugin_internal s p d) = sys_spec_step path (StPluginInternal p d) (sys_abs s)"
proof (cases "get_plugin s p")
  case None
  then show ?thesis by (simp add: execute_plugin_internal_def only_if_def)
next
  case (Some g)
  let ?G = "(\<forall>a. get_actor s p = Some a \<longrightarrow> \<not> is_blocked a \<and> (pi_consume_mailbox d \<longrightarrow> can_receive a))
    \<and> (\<forall>(a, n) \<in> set (pi_reads d). addr_in_bounds (pg_memory g) a n)
    \<and> (\<forall>(a, n) \<in> set (pi_writes d). addr_in_bounds (pg_memory g) a n)"
  let ?W = "\<forall>(a, n) \<in> set (pi_writes d). addr_in_bounds (pg_memory g) a 1"
  have pre: "is_ok (pi_check_preconditions d s p) \<longleftrightarrow> ?G"
    using Some by (simp add: is_ok_iff pi_check_preconditions_ok)
  have wr: "is_ok (write_check_loop g (pi_writes d)) \<longleftrightarrow> ?W" by (simp add: is_ok_iff write_check_loop_ok)
  have spec: "sys_spec_step path (StPluginInternal p d) (sys_abs s) = only_if (?G \<and> ?W)
      (if pi_consume_mailbox d then with_box p (\<lambda>b. b\<lparr>bx_mail := tl (bx_mail b)\<rparr>) (sys_abs s) else sys_abs s)"
  proof -
    have "(?G \<and> ?W) \<longleftrightarrow> ((\<exists>g. sy_agents (sys_abs s) p = Some g \<and> within_bounds g (pi_reads d)
         \<and> (\<forall>(a, n) \<in> set (pi_writes d). unat a + max 1 (unat n) \<le> ag_bounds g))
       \<and> (\<forall>b. sy_boxes (sys_abs s) p = Some b \<longrightarrow> bx_waits b = None \<and> (pi_consume_mailbox d \<longrightarrow> bx_mail b \<noteq> [])))"
      using Some
      by (fastforce simp: within_bounds_abs addr_in_bounds_iff is_blocked_def can_receive_def max_def
          split: if_splits)
    then show ?thesis by simp
  qed
  show ?thesis unfolding spec
  proof (rule only_if_eq)
    assume "?G \<and> ?W"
    then have "execute_plugin_internal s p d = Inr (if pi_consume_mailbox d then consume_from s p else s)"
      using pre wr Some by (auto simp: execute_plugin_internal_def is_ok_iff)
    then show "map_sum (\<lambda>_. ()) sys_abs (execute_plugin_internal s p d) = Inr (if pi_consume_mailbox d
        then with_box p (\<lambda>b. b\<lparr>bx_mail := tl (bx_mail b)\<rparr>) (sys_abs s) else sys_abs s)"
      by (simp add: consume_abs)
  next
    assume "\<not> (?G \<and> ?W)"
    then have "\<not> (is_ok (pi_check_preconditions d s p) \<and> is_ok (write_check_loop g (pi_writes d)))"
      unfolding pre wr .
    then show "\<exists>e. execute_plugin_internal s p d = Inl e"
      using Some by (cases "pi_check_preconditions d s p"; cases "write_check_loop g (pi_writes d)")
        (auto simp: execute_plugin_internal_def)
  qed
qed

lemma tick_abs:
  "map_sum (\<lambda>_. ()) sys_abs (state_tick s) =
    only_if (sy_time (sys_abs s) + 1 < 2 ^ 64) ((sys_abs s)\<lparr>sy_time := sy_time (sys_abs s) + 1\<rparr>)"
proof (cases "state_time s = - 1")
  case True
  then have "\<nexists>s'. state_tick s = Inr s'" by (simp add: state_tick_Inr)
  then obtain e where "state_tick s = Inl e" by (cases "state_tick s") blast+
  then show ?thesis using True by (simp add: only_if_def unat_max_word)
next
  case False
  then have lt: "unat (state_time s) + 1 < 2 ^ 64" using word_max_iff [of "state_time s"] by simp
  then have "unat (state_time s + 1) = unat (state_time s) + 1"
    using unat_add_no_overflow [of "state_time s" 1] by simp
  then have "sys_abs (s\<lparr>st_kernel := (st_kernel s)\<lparr>ks_now := ks_now (st_kernel s) + 1\<rparr>\<rparr>) =
      (sys_abs s)\<lparr>sy_time := sy_time (sys_abs s) + 1\<rparr>"
    by (simp add: sys_abs_def fun_eq_iff get_cap_def state_time_def plugin_view)
  moreover have "state_tick s = Inr (s\<lparr>st_kernel := (st_kernel s)\<lparr>ks_now := ks_now (st_kernel s) + 1\<rparr>\<rparr>)"
    using False by (simp add: state_tick_Inr)
  ultimately show ?thesis using lt by (simp add: only_if_def)
qed

lemma kernel_op_square:
  "map_sum (\<lambda>_. ()) sys_abs (kernel_op_execute op s) = sys_spec_step d (StKernelInternal op) (sys_abs s)"
proof (cases op)
  case (RouteOne a)
  show ?thesis
  proof (cases "get_actor s a")
    case None
    then show ?thesis using RouteOne by (simp add: execute_route_one_def only_if_def)
  next
    case (Some x)
    have "box_of (deliver y) = (box_of y)\<lparr>bx_pending := tl (bx_pending (box_of y)),
        bx_mail := bx_mail (box_of y) @ [hd (bx_pending (box_of y))]\<rparr>"
      if "ar_pending y \<noteq> []" "length (ar_mailbox y) < ar_capacity y" for y
      using that by (auto simp: deliver_def box_of_def split: list.split)
    then have "sys_abs (modify_actor s a deliver) = with_box a (\<lambda>b. b\<lparr>bx_pending := tl (bx_pending b),
        bx_mail := bx_mail b @ [hd (bx_pending b)]\<rparr>) (sys_abs s)"
      if "ar_pending x \<noteq> []" "length (ar_mailbox x) < ar_capacity x"
      using that Some by (intro with_box_abs) simp
    then show ?thesis using RouteOne Some
      by (simp add: execute_route_one_def only_if_def deliver_mut_snd not_le)
  qed
next
  case (WorkflowTick w)
  then show ?thesis
    by (cases "get_workflow s w") (simp_all add: execute_workflow_tick_def only_if_def status_is_running_def)
next
  case TimeTick
  then show ?thesis using tick_abs [of s] by (simp add: execute_time_tick_def)
next
  case (UnblockSend a)
  have "sys_abs (modify_actor s a unblock) = with_box a (\<lambda>b. b\<lparr>bx_waits := None\<rparr>) (sys_abs s)"
    by (rule with_box_abs) (simp add: unblock_def box_of_def)
  then show ?thesis using UnblockSend
    by (cases "get_actor s a") (simp_all add: execute_unblock_send_def only_if_def)
qed (simp add: execute_thread_switch_def)

lemma alloc_square:
  assumes "state_wf s"
  shows "map_sum (\<lambda>_. ()) sys_abs (hc_kernel_alloc s hc) =
    only_if (\<exists>g. sy_agents (sys_abs s) (hc_caller hc) = Some g \<and> ag_used g + unat (arg_or_zero hc) \<le> ag_quota g)
      (grant_memory (hc_caller hc) (unat (arg_or_zero hc)) (sys_abs s))"
proof (cases "\<exists>p. get_plugin s (hc_caller hc) = Some p \<and> can_alloc_memory p (arg_or_zero hc)")
  case True
  then obtain p where p: "get_plugin s (hc_caller hc) = Some p" "can_alloc_memory p (arg_or_zero hc)" by blast
  from grant_abs [OF assms p] p show ?thesis
    by (simp add: hc_kernel_alloc_def arg_or_zero_def [symmetric] only_if_def can_alloc_abs Let_def)
next
  case False
  then have "\<nexists>s'. hc_kernel_alloc s hc = Inr s'" by (auto simp: hc_kernel_alloc_Inr)
  then obtain e where "hc_kernel_alloc s hc = Inl e" by (cases "hc_kernel_alloc s hc") blast+
  then show ?thesis using False by (auto simp: only_if_def can_alloc_abs)
qed

lemma revoke_square:
  assumes "state_wf s"
  shows "map_sum (\<lambda>_. ()) sys_abs (apply_cap_revoke_mut s k) =
    only_if (sy_caps (sys_abs s) k \<noteq> None) (withdraw InPlace k (sys_abs s))"
  using revocation_abs(1) [OF assms, of k] by (simp add: apply_cap_revoke_mut_eq [OF assms] only_if_def)

lemma declassify_level_eq:
  "declassify_level v = (case numbered_level v of Some l \<Rightarrow> Inr l
     | None \<Rightarrow> Inl (HostCallPreconditionFailed (InvalidSecurityLevel v)))"
proof (cases "v < 4")
  case True
  then have "unat v < 4" by (simp add: word_less_nat_alt)
  then have "unat v = 0 \<or> unat v = 1 \<or> unat v = 2 \<or> unat v = 3" by linarith
  then have "v = 0 \<or> v = 1 \<or> v = 2 \<or> v = 3" by (auto simp: word_unat_eq_iff)
  then show ?thesis by (auto simp: declassify_level_def numbered_level_def)
next
  case False
  then show ?thesis by (auto simp: declassify_level_def numbered_level_def)
qed

lemma declassify_square:
  "map_sum (\<lambda>_. ()) sys_abs (hc_declassify s hc) =
     (case numbered_level (arg_or_zero hc) of None \<Rightarrow> Inl ()
      | Some l \<Rightarrow> only_if (\<exists>g. sy_agents (sys_abs s) (hc_caller hc) = Some g \<and> l \<le> ag_level g)
          (lower_level (hc_caller hc) l (sys_abs s)))"
proof -
  have "sys_abs (modify_plugin s (hc_caller hc) (set_level l)) = lower_level (hc_caller hc) l (sys_abs s)" for l
    unfolding lower_level_def by (rule with_agent_abs) (simp add: agent_of_def set_level_def holds_cap_def)
  then show ?thesis
    by (cases "get_plugin s (hc_caller hc)"; cases "numbered_level (arg_or_zero hc)")
      (auto simp add: hc_declassify_def arg_or_zero_def [symmetric] declassify_level_eq only_if_def not_less not_le Let_def)
qed

lemma send_square:
  "map_sum (\<lambda>_. ()) sys_abs (hc_cap_send s hc r) =
     only_if (hr_new_msgs r \<noteq> [] \<and> (\<forall>m \<in> set (hr_new_msgs r). mg_src m = hc_caller hc
        \<and> (\<exists>b. sy_boxes (sys_abs s) (mg_dst m) = Some b \<and> length (bx_mail b) < bx_room b))) (sys_abs s)"
proof -
  have "is_ok (send_loop s hc (hr_new_msgs r)) \<longleftrightarrow> (\<forall>m \<in> set (hr_new_msgs r). mg_src m = hc_caller hc
        \<and> (\<exists>b. sy_boxes (sys_abs s) (mg_dst m) = Some b \<and> length (bx_mail b) < bx_room b))"
    by (fastforce simp: is_ok_iff send_loop_ok)
  then show ?thesis
    unfolding hc_cap_send_def
    by (cases "send_loop s hc (hr_new_msgs r)") (simp_all add: only_if_def)
qed

lemma cap_call_square:
  assumes "state_wf s" and "admitted (sys_abs s) hc w"
  shows "hc_cap_call s hc r = Inr s"
proof -
  obtain p where p: "get_plugin s (hc_caller hc) = Some p" "holds_cap p (cp_id (au_cap w))"
    "cap_is_valid s (cp_id (au_cap w))"
    using assms(2) by (auto simp: admitted_def sy_valid_abs)
  then have "cp_id (au_cap w) \<in> set (pg_held_caps p)" using holds_cap_iff state_wf_parts(5) [OF assms(1)] by blast
  then have "list_ex (rev_is_valid (ks_revocation (st_kernel s))) (pg_held_caps p)"
    using p(3) by (auto simp: list_ex_iff cap_is_valid_def)
  then show ?thesis using p(1) by (simp add: hc_cap_call_def)
qed

text \<open>The operations of the two paths, by path.\<close>

definition function_on :: "path \<Rightarrow> host_function \<Rightarrow> lion_state \<Rightarrow> host_call \<Rightarrow> host_result \<Rightarrow> step_error + lion_state" where
  "function_on d = (case d of Pure \<Rightarrow> function_execute | InPlace \<Rightarrow> function_execute_mut)"

lemma execute_host_call_on:
  "exec_on d (StHostCall hc w r) s = Inr s' \<longleftrightarrow> required_action hc = Inr (au_action w)
     \<and> ac_subject (au_action w) = hc_caller hc \<and> mediated s w \<and> is_ok (hc_check_preconditions hc s)
     \<and> function_on d (hc_function hc) s hc r = Inr s'"
  by (cases d) (auto simp: function_on_def execute_host_call_Inr execute_host_call_mut_Inr)

text \<open>What an address must satisfy to be freed is checked before the ghost history is touched.\<close>

lemma mem_free_square:
  assumes "state_wf s"
  shows "map_sum (\<lambda>_. ()) sys_abs (exec_on d (StMemFree p a) s) =
      only_if (releasable d (sys_abs s) a) (release a (sys_abs s))"
    and "hc_function hc = FnMemFree \<Longrightarrow> map_sum (\<lambda>_. ()) sys_abs (function_on d (hc_function hc) s hc r) =
    (case first_arg hc of None \<Rightarrow> Inl () | Some a \<Rightarrow> only_if (releasable d (sys_abs s) a) (release a (sys_abs s)))"
proof -
  have live: "is_live g a \<Longrightarrow> \<not> is_freed g a" for g a
    by (auto simp: is_live_def split: option.splits resource_status.splits)
  have dead: "\<not> releasable d (sys_abs s) a" if "is_freed (st_ghost s) a \<or> find_valid_targeting s a \<noteq> None" for a
    using that live targeting_abs [OF assms, of "ucast a"]
    by (cases d) (auto simp: find_valid_targeting_None releasable_def)
  show "map_sum (\<lambda>_. ()) sys_abs (exec_on d (StMemFree p a) s) =
      only_if (releasable d (sys_abs s) a) (release a (sys_abs s))"
    using dead [of a] release_abs [OF assms, of a]
    by (cases d) (auto simp: execute_mem_free_mut_def execute_mem_free_def only_if_def split: option.split)
  show "map_sum (\<lambda>_. ()) sys_abs (function_on d (hc_function hc) s hc r) =
    (case first_arg hc of None \<Rightarrow> Inl () | Some a \<Rightarrow> only_if (releasable d (sys_abs s) a) (release a (sys_abs s)))"
    if "hc_function hc = FnMemFree"
  proof (cases "first_arg hc")
    case None
    then show ?thesis using that by (cases d)
      (simp_all add: function_on_def function_execute_def function_execute_mut_def hc_mem_free_mut_def hc_mem_free_def)
  next
    case (Some a)
    then show ?thesis using dead [of a] release_abs [OF assms, of a] that
      by (cases d) (auto simp: function_on_def function_execute_def function_execute_mut_def hc_mem_free_mut_def
          hc_mem_free_def only_if_def split: option.split)
  qed
qed

lemma cap_revoke_square:
  assumes "state_wf s"
  shows "map_sum (\<lambda>_. ()) sys_abs (exec_on d (StCapRevoke p k) s) =
      only_if (sy_caps (sys_abs s) k \<noteq> None) (withdraw d k (sys_abs s))"
    and "hc_function hc = FnCapRevoke \<Longrightarrow> map_sum (\<lambda>_. ()) sys_abs (function_on d (hc_function hc) s hc r) =
    (case first_arg hc of None \<Rightarrow> Inl ()
     | Some k \<Rightarrow> only_if (sy_caps (sys_abs s) (ucast k) \<noteq> None) (withdraw d (ucast k) (sys_abs s)))"
  using revoke_square [OF assms] revocation_abs(2) [OF assms]
  by (cases d; auto simp: function_on_def function_execute_def function_execute_mut_def execute_cap_revoke_mut_def
      execute_cap_revoke_def hc_cap_revoke_mut_def hc_cap_revoke_def get_cap_def only_if_def split: option.split)+

lemma call_square:
  assumes "state_wf s" and "admitted (sys_abs s) hc w"
  shows "map_sum (\<lambda>_. ()) sys_abs (function_on d (hc_function hc) s hc r) = call_effect d hc r (sys_abs s)"
proof (cases "hc_function hc = FnMemFree \<or> hc_function hc = FnCapRevoke")
  case True
  then show ?thesis using mem_free_square(2) [OF assms(1), of hc] cap_revoke_square(2) [OF assms(1), of hc]
    by (auto simp: call_effect_def simp del: sys_abs_sel)
next
  case False
  then have f: "function_on d (hc_function hc) s hc r = function_execute (hc_function hc) s hc r"
    by (cases d; cases "hc_function hc")
      (simp_all add: function_on_def function_execute_mut_def function_execute_def hc_mut_eqs hc_kernel_alloc_mut_eq)
  show ?thesis
    using False cap_call_square [OF assms, of r] send_square [of s hc r] alloc_square [OF assms(1), of hc]
      declassify_square [of s hc]
    unfolding f by (cases "hc_function hc") (simp_all add: function_execute_def call_effect_def not_implemented_def
        del: sys_abs_sel)
qed

lemma host_call_square:
  assumes "state_wf s"
  shows "map_sum (\<lambda>_. ()) sys_abs (exec_on d (StHostCall hc w r) s) = sys_spec_step d (StHostCall hc w r) (sys_abs s)"
proof (cases "admitted (sys_abs s) hc w")
  case True
  then have a: "required_action hc = Inr (au_action w)" "ac_subject (au_action w) = hc_caller hc" "mediated s w"
    "is_ok (hc_check_preconditions hc s)" by (simp_all add: admitted_abs)
  then have "auth_validate w s = Inr ()" "hc_check_preconditions hc s = Inr ()"
    by (auto simp: auth_validate_ok is_ok_iff)
  then have "exec_on d (StHostCall hc w r) s = function_on d (hc_function hc) s hc r"
    using a by (cases d) (simp_all add: function_on_def execute_host_call_mut_def execute_host_call_def map_err_def)
  then show ?thesis using True call_square [OF assms True] by simp
next
  case False
  then have "\<nexists>s'. exec_on d (StHostCall hc w r) s = Inr s'"
    by (auto simp: admitted_abs execute_host_call_on)
  then obtain e where "exec_on d (StHostCall hc w r) s = Inl e" by (cases "exec_on d (StHostCall hc w r) s") blast+
  then show ?thesis using False by simp
qed

lemma sys_square:
  assumes "state_wf s"
  shows "sys_spec_step d st (sys_abs s) = map_sum (\<lambda>_. ()) sys_abs (exec_on d st s)"
proof (cases st)
  case (StHostCall hc w r)
  then show ?thesis using host_call_square [OF assms] by simp
next
  case (StMemFree p a)
  then show ?thesis using mem_free_square(1) [OF assms, of d p a] by simp
next
  case (StCapRevoke p k)
  then show ?thesis using cap_revoke_square(1) [OF assms, of d p k] by simp
next
  case (StPluginInternal p pi)
  then have "exec_on d st s = execute_plugin_internal s p pi" by (cases d) (simp_all add: plugin_internal_mut_eq)
  then show ?thesis using StPluginInternal internal_square [of s p pi d] by simp
next
  case (StKernelInternal op)
  then have "exec_on d st s = kernel_op_execute op s" by (cases d) (simp_all add: kernel_op_mut_eq)
  then show ?thesis using StKernelInternal kernel_op_square [of op s d] by simp
qed

interpretation system_refines: functional_refinement "exec_on d" state_wf "sys_spec_step d" "\<lambda>_. ()" sys_abs
  for d :: path
proof unfold_locales
  show "state_wf s'" if "state_wf s" "exec_on d st s = Inr s'" for s st s'
    using run_on_wf [OF that(1), of d "[st]"] that(2) by simp
qed (rule sys_square)

section \<open>Property\<close>

text \<open>C5: both execution paths implement the specification of the whole system: from a well-formed
  state every run of steps is accepted exactly when the specification of that path accepts it and ends in
  the corresponding state (the paths differ in which addresses may be freed and how deep a revocation
  reaches); and levels, held capabilities, validity, liveness and freed addresses are read off the
  specification state.\<close>

theorem system_refines_spec:
  assumes "state_wf s"
  shows "run_all (sys_spec_step d) sts (sys_abs s) = map_sum (\<lambda>_. ()) sys_abs (run_all (exec_on d) sts s)
    \<and> plugin_level s p = map_option ag_level (sy_agents (sys_abs s) p)
    \<and> (plugin_holds s p k \<longleftrightarrow> (\<exists>g. sy_agents (sys_abs s) p = Some g \<and> k \<in> ag_holds g))
    \<and> (cap_is_valid s k \<longleftrightarrow> sy_valid (sys_abs s) k)
    \<and> (is_live (st_ghost s) a \<longleftrightarrow> sy_owner (sys_abs s) a \<noteq> None)
    \<and> (is_freed (st_ghost s) a \<longleftrightarrow> a \<in> sy_dead (sys_abs s))"
  using system_refines.run_square [OF assms, of d sts]
  by (auto simp: plugin_view sy_valid_abs option.map_comp comp_def split: option.splits)

lemma system_refines_spec_witness:
  "\<forall>d. run_all (sys_spec_step d) [demo_step] (sys_abs demo_state) =
     Inr (sys_abs (modify_plugin (apply_alloc demo_state 1 5) 1 (add_memory_used 5)))
   \<and> plugin_level demo_state 1 = Some Secret"
  using system_refines_spec [OF demo_state_wf, of _ "[demo_step]"] demo_step_runs
  by (simp add: plugin_view demo_plugin grant_cap_mut_def plugin_empty_def del: sys_abs_sel)

end
