(* ===== verification/LionKernelSafety.thy ===== *)
theory LionKernelSafety
  imports LionKernelApi
begin

text \<open>
  What holds of every kernel a client can reach. An invariant is shown preserved by the transitions
  \<open>api_trans\<close> of the calls and lifted to \<open>kernel_reach\<close> in the locale \<open>kernel_invariant\<close>, under a
  discipline on the calls; the interpretations give the invariants of this theory.
\<close>

locale kernel_invariant =
  fixes hmac :: hmac_fun and allowed :: "kernel_call \<Rightarrow> bool" and inv :: "lion_state \<Rightarrow> bool"
  assumes inv_new: "inv state_empty"
    and inv_trans: "inv s \<Longrightarrow> allowed c \<Longrightarrow> api_trans hmac s c s' \<Longrightarrow> inv s'"
begin

lemma reach_inv: "kernel_reach hmac allowed k \<Longrightarrow> inv (kn_state k)"
proof (induction rule: kernel_reach.induct)
  case reach_new
  then show ?case by (simp add: kernel_new_def inv_new)
next
  case (reach_call k c k')
  then show ?case by (blast intro: inv_trans perform_trans)
qed

end

section \<open>Well-formedness and the locked configuration\<close>

text \<open>No call changes policy or keys, and none creates an actor, a resource or a workflow.\<close>

definition locked :: "lion_state \<Rightarrow> bool" where
  "locked s \<longleftrightarrow> state_wf s \<and> ks_policy (st_kernel s) = policy_deny_all
     \<and> ks_key_state (st_kernel s) = key_state_empty
     \<and> st_actors s = [] \<and> st_resources s = [] \<and> st_workflows s = []"

lemma tb_modify_Nil [simp]: "tb_modify [] k f = []"
  by (simp add: tb_modify_def split: option.split)

lemma lion_trans_actors: "lion_trans s s' \<Longrightarrow> st_actors s = [] \<Longrightarrow> st_actors s' = []"
  by (induction rule: lion_trans.induct)
    (auto simp: state_tick_Inr apply_free_Inr apply_free_mut_Inr modify_actor_def tb_modify_Nil)

lemma lion_trans_locked: "lion_trans s s' \<Longrightarrow> locked s \<Longrightarrow> locked s'"
  using lion_trans_progress [of s s'] lion_trans_wf [of s s'] lion_trans_actors [of s s']
  by (simp add: locked_def state_progress_def)

inductive_simps api_calls:
  "api_trans hmac s (CallRegister i l n) s'"
  "api_trans hmac s (CallInsertRaw cap t) s'"
  "api_trans hmac s (CallDelegate p t r) s'"
  "api_trans hmac s (CallAlloc a n) s'"

text \<open>Every other call makes a transition of the step system.\<close>

definition kernel_only :: "kernel_call \<Rightarrow> bool" where
  "kernel_only c \<longleftrightarrow> (case c of CallRegister _ _ _ \<Rightarrow> True | CallInsertRaw _ _ \<Rightarrow> True
     | CallDelegate _ _ _ \<Rightarrow> True | CallAlloc _ _ \<Rightarrow> True | _ \<Rightarrow> False)"

lemma kernel_only_simps [simp]:
  "kernel_only (CallRegister i l n)" "kernel_only (CallInsertRaw cap t)"
  "kernel_only (CallDelegate p t r)" "kernel_only (CallAlloc a n)"
  by (simp_all add: kernel_only_def)

lemma api_trans_lion:
  assumes "api_trans hmac s c s'" and "state_wf s" and "\<not> kernel_only c"
  shows "lion_trans s s'"
  using assms
proof (cases rule: api_trans.cases)
  case (at_revoke i)
  obtain cap where "get_cap s i = Some cap"
    using at_revoke(2) assms(2) by (auto simp: apply_cap_revoke_mut_eq split: if_splits)
  then show ?thesis by (rule apply_cap_revoke_mut_trans [OF assms(2) _ at_revoke(2)])
qed (auto intro: tr_same tr_tick tr_free_mut step_execute_trans step_execute_mut_trans)

lemma state_wf_register:
  assumes "state_wf s" and "insert_plugin s i (plugin_empty l n) = Inr s'"
  shows "state_wf s'"
proof -
  note p = state_wf_parts [OF assms(1)]
  have g: "get_plugin s' = (get_plugin s)(i \<mapsto> plugin_empty l n)" and t: "tables_wf s'"
    using plugins.insert_all [OF p(1), of "[(i, plugin_empty l n)]" s'] assms(2) by auto
  have e: "s' = s\<lparr>st_plugins := st_plugins s'\<rparr>"
    using assms(2) by (auto simp: insert_eqs split: if_splits)
  have f: "get_actor s' = get_actor s" "get_workflow s' = get_workflow s" "st_kernel s' = st_kernel s"
    "st_ghost s' = st_ghost s"
    by (subst e, simp add: get_tb fun_eq_iff)+
  show ?thesis using assms(1) t by (simp add: state_wf_def g f)
qed

lemma api_trans_wf: "api_trans hmac s c s' \<Longrightarrow> state_wf s \<Longrightarrow> state_wf s'"
proof (cases "kernel_only c")
  case True
  assume "api_trans hmac s c s'" "state_wf s"
  with True show ?thesis
    by (cases c) (auto simp: api_calls kernel_only_def child_of_def intro: state_wf_register delegate_to_wf
        state_wf_bumped state_wf_alloc)
qed (auto intro: lion_trans_wf api_trans_lion)

lemma delegate_to_locked:
  "locked s \<Longrightarrow> get_cap s (cp_id cap) = None \<Longrightarrow> locked (delegate_to s cap t)"
  using delegate_to_wf [of s cap t] by (simp add: locked_def) (simp add: delegate_to_def with_revocation_def)

lemma bumped_locked: "locked s \<Longrightarrow> locked (bumped s)"
  by (simp add: locked_def state_wf_bumped)

lemma api_trans_locked: "api_trans hmac s c s' \<Longrightarrow> locked s \<Longrightarrow> locked s'"
proof (cases "kernel_only c")
  case True
  assume "api_trans hmac s c s'" "locked s"
  moreover from this have "state_wf s'" by (simp add: locked_def api_trans_wf)
  ultimately show ?thesis
    using True
    by (cases c) (auto simp: api_calls child_of_def intro: delegate_to_locked bumped_locked,
      auto simp: locked_def insert_eqs kernel_only_def split: if_splits)
next
  case False
  assume t: "api_trans hmac s c s'" and l: "locked s"
  show ?thesis by (rule lion_trans_locked [OF api_trans_lion [OF t _ False] l]) (use l in \<open>simp add: locked_def\<close>)
qed

lemma locked_new: "locked state_empty"
  by (simp add: locked_def) (simp add: state_empty_def kernel_state_default_def)

interpretation locked: kernel_invariant hmac allowed locked
  for hmac :: hmac_fun and allowed :: "kernel_call \<Rightarrow> bool"
  by unfold_locales (auto intro: api_trans_locked locked_new)

section \<open>Capabilities of reachable kernels\<close>

abbreviation derives :: "lion_state \<Rightarrow> (cap_id \<times> cap_id) set" where
  "derives s \<equiv> child_rel (ks_revocation (st_kernel s))"

lemma derives_iff: "(p, i) \<in> derives s \<longleftrightarrow> (\<exists>c. get_cap s i = Some c \<and> cp_parent c = Some p)"
  by (simp add: child_rel_def get_cap_def)

lemma get_cap_delegate_to:
  "state_wf s \<Longrightarrow> get_cap s (cp_id cap) = None \<Longrightarrow> get_cap (delegate_to s cap t) = (get_cap s)(cp_id cap \<mapsto> cap)"
  using state_wf_parts(2) [of s] by (simp add: fun_eq_iff get_cap_def delegate_to_def inserted_get rev_wf_caps)

lemma lion_trans_caps:
  assumes "lion_trans s s'" and "state_wf s"
  shows "rel_option cap_progress (get_cap s i) (get_cap s' i)"
  using lion_trans_progress [OF assms] by (simp add: state_progress_def)

lemma lion_trans_capE:
  assumes "lion_trans s s'" and "state_wf s" and "get_cap s' i = Some c'"
  obtains c where "get_cap s i = Some c" and "c' = c \<or> c' = cap_revoke c"
  using lion_trans_caps [OF assms(1,2), of i] assms(3)
  by (cases "get_cap s i") (auto simp: cap_progress_def)

lemma lion_trans_capD:
  assumes "lion_trans s s'" and "state_wf s" and "get_cap s i = Some c"
  obtains c' where "get_cap s' i = Some c'" and "c' = c \<or> c' = cap_revoke c"
  using lion_trans_caps [OF assms(1,2), of i] assms(3)
  by (cases "get_cap s' i") (auto simp: cap_progress_def)

lemma capability_payload_revoke [simp]: "capability_payload (cap_revoke c) = capability_payload c"
  by (simp add: capability_payload_def)

lemma verify_cap_seal_revoke [simp]: "verify_cap_seal hmac ks (cap_revoke c) = verify_cap_seal hmac ks c"
  by (simp add: verify_cap_seal_def)

lemma verify_cap_seal_keys:
  "ks_key_state ks' = ks_key_state ks \<Longrightarrow> verify_cap_seal hmac ks' c = verify_cap_seal hmac ks c"
  by (simp add: verify_cap_seal_def)

lemma lion_trans_parent:
  "lion_trans s s' \<Longrightarrow> state_wf s \<Longrightarrow> map_option cp_parent (get_cap s' i) = map_option cp_parent (get_cap s i)"
  using lion_trans_caps [of s s' i]
  by (cases "get_cap s i"; cases "get_cap s' i") (auto simp: cap_progress_def)

lemma derives_map: "(p, i) \<in> derives s \<longleftrightarrow> map_option cp_parent (get_cap s i) = Some (Some p)"
  by (simp add: derives_iff)

lemma lion_trans_derives: "lion_trans s s' \<Longrightarrow> state_wf s \<Longrightarrow> derives s' = derives s"
  by (auto simp: derives_map lion_trans_parent)

lemma lion_trans_keys:
  "lion_trans s s' \<Longrightarrow> state_wf s \<Longrightarrow> ks_key_state (st_kernel s') = ks_key_state (st_kernel s)"
  using lion_trans_progress [of s s'] by (simp add: state_progress_def)

text \<open>A capability with a parent lies within it and carries a seal of the kernel; each has a root.\<close>

definition within :: "capability \<Rightarrow> capability \<Rightarrow> bool" where
  "within c d \<longleftrightarrow> rights_is_subset_of (cp_rights c) (cp_rights d) \<and> cp_target c = cp_target d"

definition confined :: "hmac_fun \<Rightarrow> lion_state \<Rightarrow> bool" where
  "confined hmac s \<longleftrightarrow> state_wf s
     \<and> (\<forall>p i c. get_cap s i = Some c \<and> cp_parent c = Some p \<longrightarrow>
          (\<exists>d. get_cap s p = Some d \<and> within c d) \<and> verify_cap_seal hmac (st_kernel s) c = Some True)
     \<and> (\<forall>i c. get_cap s i = Some c \<longrightarrow>
          (\<exists>r root. (r, i) \<in> (derives s)\<^sup>* \<and> get_cap s r = Some root \<and> cp_parent root = None))"

lemma subset_refl_trans:
  "rights_is_subset_of r r"
  "rights_is_subset_of r s \<Longrightarrow> rights_is_subset_of s t \<Longrightarrow> rights_is_subset_of r t"
  "rights_is_subset_of (rights_intersection r s) s"
  by (auto simp: rights_is_subset_of_def rights_intersection_def rights_combine_def word_zero_iff bit_and_iff bit_not_u16)

lemma within_refl [simp]: "within c c"
  by (simp add: within_def subset_refl_trans)

lemma within_trans: "within c d \<Longrightarrow> within d e \<Longrightarrow> within c e"
  by (auto simp: within_def intro: subset_refl_trans)

lemma within_revoke [simp]: "within (cap_revoke c) d = within c d" "within c (cap_revoke d) = within c d"
  by (simp_all add: within_def)

lemma confinedD:
  assumes "confined hmac s"
  shows "state_wf s"
    and "get_cap s i = Some c \<Longrightarrow> cp_parent c = Some p \<Longrightarrow> \<exists>d. get_cap s p = Some d \<and> within c d"
    and "get_cap s i = Some c \<Longrightarrow> cp_parent c = Some p \<Longrightarrow> verify_cap_seal hmac (st_kernel s) c = Some True"
    and "get_cap s i = Some c \<Longrightarrow> \<exists>r root. (r, i) \<in> (derives s)\<^sup>* \<and> get_cap s r = Some root \<and> cp_parent root = None"
  using assms unfolding confined_def by blast+

lemma confinedI:
  assumes "state_wf s"
    and "\<And>p i c. get_cap s i = Some c \<Longrightarrow> cp_parent c = Some p \<Longrightarrow>
      (\<exists>d. get_cap s p = Some d \<and> within c d) \<and> verify_cap_seal hmac (st_kernel s) c = Some True"
    and "\<And>i c. get_cap s i = Some c \<Longrightarrow> \<exists>r root. (r, i) \<in> (derives s)\<^sup>* \<and> get_cap s r = Some root \<and> cp_parent root = None"
  shows "confined hmac s"
  using assms unfolding confined_def by blast

lemma confined_lion:
  assumes c: "confined hmac s" and t: "lion_trans s s'"
  shows "confined hmac s'"
proof (rule confinedI)
  note w = confinedD(1) [OF c]
  show "state_wf s'" by (rule lion_trans_wf [OF t w])
  fix i e
  assume e: "get_cap s' i = Some e"
  obtain d where d: "get_cap s i = Some d" and ed: "e = d \<or> e = cap_revoke d"
    by (rule lion_trans_capE [OF t w e])
  obtain r root where r: "(r, i) \<in> (derives s)\<^sup>*" "get_cap s r = Some root" "cp_parent root = None"
    using confinedD(4) [OF c d] by blast
  obtain root' where "get_cap s' r = Some root'" "root' = root \<or> root' = cap_revoke root"
    by (rule lion_trans_capD [OF t w r(2)])
  then show "\<exists>r root. (r, i) \<in> (derives s')\<^sup>* \<and> get_cap s' r = Some root \<and> cp_parent root = None"
    using r unfolding lion_trans_derives [OF t w] by auto
  fix p
  assume "cp_parent e = Some p"
  then have p: "cp_parent d = Some p" using ed by auto
  obtain f where f: "get_cap s p = Some f" "within d f" using confinedD(2) [OF c d p] by blast
  obtain f' where "get_cap s' p = Some f'" "f' = f \<or> f' = cap_revoke f"
    by (rule lion_trans_capD [OF t w f(1)])
  moreover have "verify_cap_seal hmac (st_kernel s') d = Some True"
    using confinedD(3) [OF c d p] verify_cap_seal_keys [OF lion_trans_keys [OF t w]] by simp
  ultimately show "(\<exists>d. get_cap s' p = Some d \<and> within e d) \<and> verify_cap_seal hmac (st_kernel s') e = Some True"
    using ed f(2) by auto
qed

lemma rooted_insert:
  assumes "state_wf s" and n: "get_cap s (cp_id cap) = None"
    and rooted: "\<And>j d. get_cap s j = Some d \<Longrightarrow>
      \<exists>r root. (r, j) \<in> (derives s)\<^sup>* \<and> get_cap s r = Some root \<and> cp_parent root = None"
    and par: "\<And>p. cp_parent cap = Some p \<Longrightarrow> get_cap s p \<noteq> None"
    and e: "get_cap (delegate_to s cap t) i = Some e"
  shows "\<exists>r root. (r, i) \<in> (derives (delegate_to s cap t))\<^sup>* \<and> get_cap (delegate_to s cap t) r = Some root
    \<and> cp_parent root = None"
proof -
  let ?s = "delegate_to s cap t"
  note g = get_cap_delegate_to [OF assms(1,2), of t]
  have sub: "(derives s)\<^sup>* \<subseteq> (derives ?s)\<^sup>*"
    by (rule rtrancl_mono) (use n in \<open>auto simp: derives_iff g\<close>)
  have keep: "get_cap ?s p = Some d" if "get_cap s p = Some d" for p d using that n g by auto
  have root: "\<exists>r root. (r, j) \<in> (derives ?s)\<^sup>* \<and> get_cap ?s r = Some root \<and> cp_parent root = None"
    if "get_cap s j = Some d" for j d
    using rooted [OF that] sub keep by blast
  show ?thesis
  proof (cases "i = cp_id cap")
    case True
    then have ec: "e = cap" using e g by simp
    show ?thesis
    proof (cases "cp_parent cap")
      case None
      then show ?thesis using e ec by blast
    next
      case (Some p)
      then obtain d where "get_cap s p = Some d" using par by blast
      moreover have "(p, i) \<in> derives ?s" using e ec Some by (simp add: derives_iff)
      ultimately show ?thesis using root by (meson rtrancl_into_rtrancl)
    qed
  next
    case False
    then show ?thesis using e g root by simp
  qed
qed

lemma confined_insert:
  assumes c: "confined hmac s" and n: "get_cap s (cp_id cap) = None"
    and par: "\<And>p. cp_parent cap = Some p \<Longrightarrow> (\<exists>d. get_cap s p = Some d \<and> within cap d)
      \<and> verify_cap_seal hmac (st_kernel s) cap = Some True"
  shows "confined hmac (delegate_to s cap t)"
proof (rule confinedI)
  let ?s = "delegate_to s cap t"
  note w = confinedD(1) [OF c]
  show "state_wf ?s" by (rule delegate_to_wf [OF w n])
  note g = get_cap_delegate_to [OF w n, of t]
  have k: "ks_key_state (st_kernel ?s) = ks_key_state (st_kernel s)"
    by (simp add: delegate_to_def with_revocation_eq)
  have keep: "get_cap ?s p = Some d" if "get_cap s p = Some d" for p d using that n g by auto
  fix i e
  assume e: "get_cap ?s i = Some e"
  show "\<exists>r root. (r, i) \<in> (derives ?s)\<^sup>* \<and> get_cap ?s r = Some root \<and> cp_parent root = None"
    by (rule rooted_insert [OF w n confinedD(4) [OF c] _ e]) (use par in blast)+
  show "(\<exists>d. get_cap ?s p = Some d \<and> within e d) \<and> verify_cap_seal hmac (st_kernel ?s) e = Some True"
    if p: "cp_parent e = Some p" for p
  proof -
    have "(\<exists>d. get_cap s p = Some d \<and> within e d) \<and> verify_cap_seal hmac (st_kernel s) e = Some True"
    proof (cases "i = cp_id cap")
      case True
      then have "e = cap" using e g by simp
      then show ?thesis using par p by simp
    next
      case False
      then have "get_cap s i = Some e" using e g by simp
      then show ?thesis using confinedD(2,3) [OF c] p by blast
    qed
    then show ?thesis using keep verify_cap_seal_keys [OF k] by fastforce
  qed
qed

lemma confined_same_caps:
  assumes "confined hmac s" and "state_wf s'" and "get_cap s' = get_cap s"
    and "ks_key_state (st_kernel s') = ks_key_state (st_kernel s)"
  shows "confined hmac s'"
proof -
  have d: "derives s' = derives s" using assms(3) by (auto simp: derives_map)
  show ?thesis
    using assms(1,2) unfolding confined_def assms(3) verify_cap_seal_keys [OF assms(4)] d
    by (elim conjE) (intro conjI; assumption)
qed

lemma child_seal_verifies:
  assumes "child_seal hmac s p parent t r = Some sig"
    and "ks_key_state ks = ks_key_state (st_kernel s)"
  shows "verify_cap_seal hmac ks (child_of s p parent t r sig) = Some True"
proof -
  have "verify_seal hmac (ky_current (ks_key_state ks)) (capability_payload (child_of s p parent t r sig)) sig = Some True"
    using assms by (auto simp: child_seal_def seal_payload_def verify_seal_def capability_payload_def child_of_def
        split: option.splits)
  then show ?thesis
    using assms(2) by (simp add: verify_cap_seal_def verify_with_epoch_def key_verify_seal_def child_of_def epoch_valid_def Let_def)
qed

lemma within_child: "within (child_of s p parent t r sig) parent"
  by (simp add: within_def child_of_def subset_refl_trans)

definition roots_only :: "kernel_call \<Rightarrow> bool" where
  "roots_only c \<longleftrightarrow> (case c of CallInsertRaw cap _ \<Rightarrow> cp_parent cap = None | _ \<Rightarrow> True)"

lemma roots_only_raw [simp]: "roots_only (CallInsertRaw cap t) \<longleftrightarrow> cp_parent cap = None"
  by (simp add: roots_only_def)

lemma confined_register:
  assumes "confined hmac s" and "insert_plugin s i (plugin_empty l n) = Inr s'"
  shows "confined hmac s'"
proof (rule confined_same_caps [OF assms(1)])
  show "state_wf s'" by (rule state_wf_register [OF confinedD(1) [OF assms(1)] assms(2)])
qed (use assms(2) in \<open>auto simp: insert_eqs get_cap_def fun_eq_iff split: if_splits\<close>)

lemma confined_alloc: "confined hmac s \<Longrightarrow> confined hmac (apply_alloc s a n)"
  by (rule confined_same_caps) (auto dest: confinedD(1) intro: state_wf_alloc simp: get_cap_def fun_eq_iff)

lemma confined_bumped: "confined hmac s \<Longrightarrow> confined hmac (bumped s)"
  by (rule confined_same_caps) (auto dest: confinedD(1) intro: state_wf_bumped)

lemma confined_mint:
  assumes c: "confined hmac s" and p: "get_cap s p = Some parent"
    and seal: "child_seal hmac s p parent t r = Some sig"
    and n: "get_cap s (ks_next_cap_id (st_kernel s)) = None"
  shows "confined hmac (delegate_to (bumped s) (child_of s p parent t r sig) t)"
proof (rule confined_insert [OF confined_bumped [OF c]])
  show "get_cap (bumped s) (cp_id (child_of s p parent t r sig)) = None" using n by (simp add: child_of_def)
  fix q
  assume "cp_parent (child_of s p parent t r sig) = Some q"
  then have "q = p" by (simp add: child_of_def)
  then show "(\<exists>d. get_cap (bumped s) q = Some d \<and> within (child_of s p parent t r sig) d)
      \<and> verify_cap_seal hmac (st_kernel (bumped s)) (child_of s p parent t r sig) = Some True"
    using p within_child child_seal_verifies [OF seal] by auto
qed

lemma api_trans_confined:
  assumes "confined hmac s" and "roots_only c" and "api_trans hmac s c s'"
  shows "confined hmac s'"
proof (cases "kernel_only c")
  case True
  with assms show ?thesis
    by (cases c) (auto simp: api_calls kernel_only_def intro: confined_register confined_alloc confined_bumped
        confined_mint confined_insert)
next
  case False
  show ?thesis by (rule confined_lion [OF assms(1) api_trans_lion [OF assms(3) confinedD(1) [OF assms(1)] False]])
qed

lemma get_cap_new [simp]: "get_cap state_empty i = None"
  by (simp add: get_cap_def state_empty_def kernel_state_default_def)

lemma confined_new: "confined hmac state_empty"
  by (simp add: confined_def)

interpretation confined: kernel_invariant hmac roots_only "confined hmac"
  for hmac :: hmac_fun
  by unfold_locales (auto intro: confined_new api_trans_confined)

lemma confined_ancestor:
  assumes c: "confined hmac s" and d: "(j, i) \<in> (derives s)\<^sup>*" and e: "get_cap s i = Some e"
  shows "\<exists>a. get_cap s j = Some a \<and> within e a"
  using d
proof (induction rule: converse_rtrancl_induct)
  case base
  then show ?case using e by simp
next
  case (step j k)
  then obtain b where b: "get_cap s k = Some b" "within e b" "cp_parent b = Some j"
    by (auto simp: derives_iff)
  then show ?case using confinedD(2) [OF c b(1,3)] within_trans by blast
qed

section \<open>Revocation in place leaves no valid descendant\<close>

lemma host_call_denied:
  assumes "ks_policy (st_kernel s) = policy_deny_all"
  shows "exec_on d (StHostCall hc auth r) s \<noteq> Inr s'"
  using exec_on_host_call [of d hc auth r s s'] assms
  by (auto simp: mediated_def policy_eval_def policy_deny_all_def)

definition in_place :: "kernel_call \<Rightarrow> bool" where
  "in_place c \<longleftrightarrow> roots_only c \<and> (case c of CallExecute (StCapRevoke _ _) \<Rightarrow> False | _ \<Rightarrow> True)"

definition orphan_free :: "hmac_fun \<Rightarrow> lion_state \<Rightarrow> bool" where
  "orphan_free hmac s \<longleftrightarrow> confined hmac s \<and> locked s \<and> valid_parents (ks_revocation (st_kernel s))"

lemma valid_parents_iff:
  "valid_parents (ks_revocation (st_kernel s)) \<longleftrightarrow>
     (\<forall>i c p. get_cap s i = Some c \<and> cp_valid c \<and> cp_parent c = Some p \<longrightarrow>
        (\<exists>d. get_cap s p = Some d \<and> cp_valid d))"
  by (simp add: valid_parents_def rev_is_valid_get get_cap_def)

lemma valid_parents_insert:
  assumes "state_wf s" and "get_cap s (cp_id cap) = None" and "valid_parents (ks_revocation (st_kernel s))"
    and "\<And>p. cp_parent cap = Some p \<Longrightarrow> \<exists>d. get_cap s p = Some d \<and> cp_valid d"
  shows "valid_parents (ks_revocation (st_kernel (delegate_to s cap t)))"
proof -
  have "\<exists>d. ((get_cap s)(cp_id cap \<mapsto> cap)) p = Some d \<and> cp_valid d"
    if "\<exists>d. get_cap s p = Some d \<and> cp_valid d" for p
    using that assms(2) by auto
  then show ?thesis
    using assms(3,4) unfolding valid_parents_iff get_cap_delegate_to [OF assms(1,2)]
    by (metis fun_upd_apply option.inject)
qed

lemma kernel_op_revocation:
  "kernel_op_execute op s = Inr s' \<Longrightarrow> ks_revocation (st_kernel s') = ks_revocation (st_kernel s)"
proof -
  assume "kernel_op_execute op s = Inr s'"
  note this [unfolded kernel_op_Inr]
  then show ?thesis by (cases op) (auto simp: state_tick_Inr)
qed

lemma plugin_internal_revocation:
  "execute_plugin_internal s pid d = Inr s' \<Longrightarrow> ks_revocation (st_kernel s') = ks_revocation (st_kernel s)"
  by (auto dest!: execute_plugin_internal_Inr simp: consume_from_def split: option.splits)

lemma valid_parents_revoke_mut:
  assumes "state_wf s" and "valid_parents (ks_revocation (st_kernel s))" and "apply_cap_revoke_mut s k = Inr s'"
  shows "valid_parents (ks_revocation (st_kernel s'))"
  using assms(3) fast.revoke_valid_parents [OF state_wf_parts(2) [OF assms(1)] assms(2)]
  by (auto simp: apply_cap_revoke_mut_eq [OF assms(1)] split: if_splits)

lemma valid_parents_step:
  assumes "exec_on d st s = Inr s'" and "locked s" and "valid_parents (ks_revocation (st_kernel s))"
    and "d = Pure \<Longrightarrow> \<forall>pid k. st \<noteq> StCapRevoke pid k"
  shows "valid_parents (ks_revocation (st_kernel s'))"
proof (cases st)
  case (StHostCall hc auth r)
  then show ?thesis using assms(1,2) host_call_denied by (auto simp: locked_def)
next
  case (StCapRevoke pid k)
  with assms(4) have "d = InPlace" by (cases d) auto
  then show ?thesis
    using assms(1-3) StCapRevoke valid_parents_revoke_mut
    by (auto simp: execute_cap_revoke_mut_Inr locked_def)
next
  case (StPluginInternal pid pi)
  then show ?thesis
    using assms(1,3) plugin_internal_revocation by (cases d) (auto simp: plugin_internal_mut_eq)
next
  case (StKernelInternal op)
  then show ?thesis using assms(1,3) kernel_op_revocation by (cases d) (auto simp: kernel_op_mut_eq)
next
  case (StMemFree c a)
  then show ?thesis
    using assms(1,3) by (cases d) (auto simp: execute_mem_free_Inr execute_mem_free_mut_Inr
        apply_free_Inr apply_free_mut_Inr)
qed

lemma api_trans_valid_parents:
  assumes o: "orphan_free hmac s" and a: "in_place c" and t: "api_trans hmac s c s'"
  shows "valid_parents (ks_revocation (st_kernel s'))"
proof -
  have l: "locked s" and v: "valid_parents (ks_revocation (st_kernel s))" and w: "state_wf s"
    using o by (simp_all add: orphan_free_def locked_def)
  show ?thesis
    using t
  proof (cases rule: api_trans.cases)
    case (at_step st)
    then have "\<forall>pid k. st \<noteq> StCapRevoke pid k" using a by (auto simp: in_place_def)
    then show ?thesis using valid_parents_step [of Pure st s s'] l v at_step(2) by simp
  next
    case (at_step_mut st)
    then show ?thesis using valid_parents_step [of InPlace st s s'] l v by simp
  next
    case (at_raw cap q)
    have "cp_parent cap = None" using a at_raw(1) by (simp add: in_place_def)
    then show ?thesis using valid_parents_insert [OF w at_raw(3) v] at_raw(2) by simp
  next
    case (at_mint p parent r q sig)
    show ?thesis
      unfolding at_mint(2)
    proof (rule valid_parents_insert [OF state_wf_bumped [OF w]])
      show "valid_parents (ks_revocation (st_kernel (bumped s)))" using v by simp
    qed (use at_mint in \<open>simp_all add: child_of_def\<close>)
  next
    case (at_revoke i)
    then show ?thesis using valid_parents_revoke_mut [OF w v] by simp
  qed (use v in \<open>auto simp: state_tick_Inr insert_eqs apply_free_mut_Inr split: if_splits\<close>)
qed

interpretation orphan_free: kernel_invariant hmac in_place "orphan_free hmac"
  for hmac :: hmac_fun
proof
  show "orphan_free hmac state_empty"
    by (simp add: orphan_free_def confined_new locked_new valid_parents_iff)
next
  fix s c s'
  assume h: "orphan_free hmac s" "in_place c" "api_trans hmac s c s'"
  then show "orphan_free hmac s'"
    using api_trans_confined [of hmac s c s'] api_trans_locked [of hmac s c s'] api_trans_valid_parents [OF h]
    by (simp add: orphan_free_def in_place_def)
qed

lemma valid_ancestor:
  assumes v: "valid_parents (ks_revocation (st_kernel s))" and d: "(j, i) \<in> (derives s)\<^sup>*" and i: "cap_is_valid s i"
  shows "cap_is_valid s j"
  using d
proof (induction rule: converse_rtrancl_induct)
  case base
  show ?case by (rule i)
next
  case (step j k)
  then show ?case using v by (auto simp: child_rel_def valid_parents_def cap_is_valid_def rev_is_valid_get)
qed

section \<open>Kernels without raw insertion\<close>

definition no_raw :: "kernel_call \<Rightarrow> bool" where
  "no_raw c \<longleftrightarrow> (case c of CallInsertRaw _ _ \<Rightarrow> False | _ \<Rightarrow> True)"

definition capless :: "lion_state \<Rightarrow> bool" where
  "capless s \<longleftrightarrow> state_wf s \<and> (\<forall>i. get_cap s i = None)"

lemma api_trans_capless: "capless s \<Longrightarrow> no_raw c \<Longrightarrow> api_trans hmac s c s' \<Longrightarrow> capless s'"
proof (cases "kernel_only c")
  case True
  assume h: "capless s" "no_raw c" "api_trans hmac s c s'"
  then have "state_wf s'" using api_trans_wf by (simp add: capless_def)
  with True h show ?thesis
    by (cases c) (auto simp: api_calls kernel_only_def no_raw_def capless_def insert_eqs get_cap_def split: if_splits)
next
  case False
  assume h: "capless s" "no_raw c" "api_trans hmac s c s'"
  then have w: "state_wf s" by (simp add: capless_def)
  have t: "lion_trans s s'" by (rule api_trans_lion [OF h(3) w False])
  have "get_cap s' i = None" for i
    using lion_trans_caps [OF t w, of i] h(1) by (simp add: capless_def)
  then show ?thesis using lion_trans_wf [OF t w] by (simp add: capless_def)
qed

interpretation capless: kernel_invariant hmac no_raw capless
  for hmac :: hmac_fun
proof
  show "capless state_empty" by (simp add: capless_def)
qed (rule api_trans_capless)

section \<open>A kernel whose child has a smaller identifier than its parent\<close>

text \<open>
  The client inserts a root with identifier 100, delegates it to plugin 1 (the minted child gets
  identifier 0) and revokes the root.
\<close>

definition demo_raw :: capability where
  "demo_raw = demo_root\<lparr>cp_id := 100\<rparr>"

definition demo_rooted :: lion_state where
  "demo_rooted = delegate_to state_empty demo_raw 1"

definition demo_sig :: "hmac_fun \<Rightarrow> sealed_tag" where
  "demo_sig hmac = the (child_seal hmac demo_rooted 100 demo_raw 1 rights_all)"

definition demo_child :: "hmac_fun \<Rightarrow> capability" where
  "demo_child hmac = child_of demo_rooted 100 demo_raw 1 rights_all (demo_sig hmac)"

definition demo_delegated :: "hmac_fun \<Rightarrow> lion_state" where
  "demo_delegated hmac = delegate_to (bumped demo_rooted) (demo_child hmac) 1"

lemma demo_raw_simps [simp]:
  "cp_id demo_raw = 100" "cp_parent demo_raw = None" "cp_valid demo_raw" "cp_rights demo_raw = rights_all"
  by (simp_all add: demo_raw_def demo_root_def)

lemma demo_rooted_facts:
  "state_wf demo_rooted" "get_cap demo_rooted = [100 \<mapsto> demo_raw]"
  "ks_next_cap_id (st_kernel demo_rooted) = 0"
proof -
  have n: "get_cap state_empty (cp_id demo_raw) = None" by simp
  show "state_wf demo_rooted" unfolding demo_rooted_def by (rule delegate_to_wf [OF state_wf_empty n])
  show "get_cap demo_rooted = [100 \<mapsto> demo_raw]"
    unfolding demo_rooted_def get_cap_delegate_to [OF state_wf_empty n] by (simp add: fun_eq_iff)
  show "ks_next_cap_id (st_kernel demo_rooted) = 0"
    by (simp add: demo_rooted_def delegate_to_def with_revocation_eq state_empty_def kernel_state_default_def)
qed

lemma demo_seal: "child_seal hmac demo_rooted 100 demo_raw 1 rights_all = Some (demo_sig hmac)"
  by (simp add: demo_sig_def child_seal_def seal_payload_def serialize_payload_def parent_val_def checked_add_one)

lemma demo_delegates:
  "delegate_cap hmac \<lparr>kn_state = demo_rooted\<rparr> 100 1 rights_all = Some (Inr 0, \<lparr>kn_state = demo_delegated hmac\<rparr>)"
proof -
  have ne: "\<not> rights_is_empty (rights_intersection rights_all (cp_rights demo_raw))"
    by (simp add: rights_is_empty_def rights_intersection_def rights_combine_def rights_all_def
        ALL_RIGHTS_MASK_def)
  show ?thesis
    using delegate_cap_late(4) [of "\<lparr>kn_state = demo_rooted\<rparr>" 100 demo_raw rights_all hmac 1 "demo_sig hmac"] ne
    by (simp add: demo_rooted_facts demo_seal demo_delegated_def demo_child_def)
qed

lemma demo_child_simps [simp]:
  "cp_id (demo_child hmac) = 0" "cp_parent (demo_child hmac) = Some 100" "cp_valid (demo_child hmac)"
  by (simp_all add: demo_child_def child_of_def demo_rooted_facts)

lemma demo_delegated_facts:
  "state_wf (demo_delegated hmac)" "get_cap (demo_delegated hmac) = [100 \<mapsto> demo_raw, 0 \<mapsto> demo_child hmac]"
proof -
  have n: "get_cap (bumped demo_rooted) (cp_id (demo_child hmac)) = None" by (simp add: demo_rooted_facts)
  note w = state_wf_bumped [OF demo_rooted_facts(1)]
  show "state_wf (demo_delegated hmac)" unfolding demo_delegated_def by (rule delegate_to_wf [OF w n])
  show "get_cap (demo_delegated hmac) = [100 \<mapsto> demo_raw, 0 \<mapsto> demo_child hmac]"
    unfolding demo_delegated_def get_cap_delegate_to [OF w n] by (simp add: demo_rooted_facts)
qed

lemma demo_delegated_reach:
  assumes "allowed (CallInsertRaw demo_raw 1)" and "allowed (CallDelegate 100 1 rights_all)"
  shows "kernel_reach hmac allowed \<lparr>kn_state = demo_delegated hmac\<rparr>"
proof -
  have "perform hmac (CallInsertRaw demo_raw 1) kernel_new = Some \<lparr>kn_state = demo_rooted\<rparr>"
    by (simp add: insert_cap_raw_def apply_cap_delegate_mut_eq apply_cap_delegate_eq kernel_new_def demo_rooted_def)
  then have "kernel_reach hmac allowed \<lparr>kn_state = demo_rooted\<rparr>"
    using reach_call [of hmac allowed kernel_new "CallInsertRaw demo_raw 1"] reach_new assms(1) by blast
  moreover have "perform hmac (CallDelegate 100 1 rights_all) \<lparr>kn_state = demo_rooted\<rparr>
      = Some \<lparr>kn_state = demo_delegated hmac\<rparr>"
    by (simp add: demo_delegates)
  ultimately show ?thesis
    using reach_call [of hmac allowed _ "CallDelegate 100 1 rights_all"] assms(2) by blast
qed

lemma cap_is_valid_iff: "cap_is_valid s i \<longleftrightarrow> (\<exists>c. get_cap s i = Some c \<and> cp_valid c)"
  by (simp add: cap_is_valid_def rev_is_valid_get get_cap_def)

lemma rights_wf_intersection: "rights_wf r \<Longrightarrow> rights_wf (rights_intersection r s)"
  by (auto simp: rights_wf_def rights_intersection_def rights_combine_def word_zero_iff bit_and_iff)

lemma child_seal_None: "child_seal hmac s p parent t r = None \<Longrightarrow> p = - 1"
  by (auto simp: child_seal_def seal_payload_def serialize_payload_def parent_val_def checked_add_one
      split: option.splits if_splits)

lemma minted_child:
  assumes "state_wf s" and "cp_valid parent"
    and "child_seal hmac s p parent t r = Some sig"
    and "get_cap s (ks_next_cap_id (st_kernel s)) = None"
  shows "ks_next_cap_id (st_kernel (delegate_to (bumped s) (child_of s p parent t r sig) t))
          = ks_next_cap_id (st_kernel s) + 1
    \<and> (\<exists>child. get_cap (delegate_to (bumped s) (child_of s p parent t r sig) t)
          = (get_cap s)(ks_next_cap_id (st_kernel s) \<mapsto> child)
      \<and> cp_id child = ks_next_cap_id (st_kernel s) \<and> cp_holder child = t \<and> cp_target child = cp_target parent
      \<and> cp_parent child = Some p \<and> cp_valid child
      \<and> rights_set (cp_rights child) = rights_set r \<inter> rights_set (cp_rights parent)
      \<and> rights_is_subset_of (cp_rights child) (cp_rights parent)
      \<and> verify_cap_seal hmac (st_kernel (delegate_to (bumped s) (child_of s p parent t r sig) t)) child = Some True
      \<and> (get_plugin s t \<noteq> None \<longrightarrow>
          plugin_holds (delegate_to (bumped s) (child_of s p parent t r sig) t) t (ks_next_cap_id (st_kernel s)))
      \<and> state_wf (delegate_to (bumped s) (child_of s p parent t r sig) t))"
proof -
  let ?c = "child_of s p parent t r sig" and ?s = "delegate_to (bumped s) (child_of s p parent t r sig) t"
  note w = state_wf_bumped [OF assms(1)]
  have i: "cp_id ?c = ks_next_cap_id (st_kernel s)" by (simp add: child_of_def)
  have n: "get_cap (bumped s) (cp_id ?c) = None" using assms(4) by (simp add: i)
  have "verify_cap_seal hmac (st_kernel ?s) ?c = Some True"
    by (rule child_seal_verifies [OF assms(3)]) (simp add: delegate_to_def with_revocation_eq)
  moreover have "ks_next_cap_id (st_kernel ?s) = ks_next_cap_id (st_kernel s) + 1"
    by (simp add: delegate_to_def with_revocation_eq)
  moreover have "plugin_holds ?s t (ks_next_cap_id (st_kernel s))" if "get_plugin s t \<noteq> None"
    using that state_wf_parts(5) [OF w] by (auto simp: delegate_to_def plugin_view table_simps holds_cap_grant i)
  moreover have "rights_is_subset_of (cp_rights ?c) (cp_rights parent)"
    using within_child by (simp add: within_def)
  ultimately show ?thesis
    using get_cap_delegate_to [OF w n] delegate_to_wf [OF w n, of t]
    by (intro conjI exI [of _ ?c]) (simp_all add: i, simp_all add: child_of_def)
qed

lemma demo_pure_revoked:
  "\<not> cap_is_valid (apply_cap_revoke (demo_delegated hmac) 100) 100"
  "cap_is_valid (apply_cap_revoke (demo_delegated hmac) 100) 0"
proof -
  have "get_cap (apply_cap_revoke (demo_delegated hmac) 100) i = map_option
      (\<lambda>c. if \<exists>n. n \<le> unat i \<and> (100, i) \<in> derives (demo_delegated hmac) ^^ n then cap_revoke c else c)
      (get_cap (demo_delegated hmac) i)" for i
    by (simp add: get_cap_def apply_cap_revoke_def with_revocation_eq revoke_transitive_marked marked_get
        in_revoke_set_bounded)
  note g = this [unfolded demo_delegated_facts]
  show "\<not> cap_is_valid (apply_cap_revoke (demo_delegated hmac) 100) 100"
    using g [of 100] by (auto simp: cap_is_valid_iff intro: exI [of _ 0])
  show "cap_is_valid (apply_cap_revoke (demo_delegated hmac) 100) 0"
    using g [of 0] by (simp add: cap_is_valid_iff)
qed

lemma demo_inplace_revoked:
  fixes hmac :: hmac_fun
  defines "s \<equiv> with_revocation (demo_delegated hmac)
      (revoke_transitive_fast (ks_revocation (st_kernel (demo_delegated hmac))) 100)"
  shows "\<not> cap_is_valid s 100" and "\<not> cap_is_valid s 0"
proof -
  note w = state_wf_parts(2) [OF demo_delegated_facts(1), of hmac]
  have "(100, 0) \<in> derives (demo_delegated hmac)" by (simp add: derives_iff demo_delegated_facts)
  then show "\<not> cap_is_valid s 100" and "\<not> cap_is_valid s 0"
    by (auto simp: s_def cap_is_valid_def with_revocation_eq fast.revoke_valid [OF w])
qed

section \<open>Properties\<close>

text \<open>C14: minting. A delegation answers with each error exactly in the code's order of checks, leaving the
  kernel as it was, except that an identifier is consumed before the holder and the collision are
  checked. When it answers with an identifier, that is the next one, unused so far; the child stored
  under it has the intersection of the requested and the parent's rights, the parent's target, the
  target plugin as its holder and a seal that verifies, and the target holds it if it is registered.
  Only a parent with the last identifier makes it panic.\<close>

theorem delegation_mints:
  assumes "state_wf (kn_state k)" and "rights_wf r"
  shows "case delegate_cap hmac k p t r of
     None \<Rightarrow> p = - 1
   | Some (Inl e, k') \<Rightarrow>
       (if get_cap (kn_state k) p = None then e = ErKernel (CapNotFound p) \<and> k' = k
        else if \<not> cap_is_valid (kn_state k) p then e = ErCapability Revoked \<and> k' = k
        else if rights_set r \<inter> rights_set (cp_rights (the (get_cap (kn_state k) p))) = {}
          then e = ErCapability EmptyRights \<and> k' = k
        else if ks_next_cap_id (st_kernel (kn_state k)) = - 1 then e = ErKernel CapIdExhausted \<and> k' = k
        else kn_state k' = bumped (kn_state k) \<and>
          (if t = 0 then e = ErCapability InvalidHolder
           else e = ErKernel (CapIdCollision (ks_next_cap_id (st_kernel (kn_state k))))
             \<and> get_cap (kn_state k) (ks_next_cap_id (st_kernel (kn_state k))) \<noteq> None))
   | Some (Inr i, k') \<Rightarrow>
       (\<exists>parent child. get_cap (kn_state k) p = Some parent \<and> cp_valid parent \<and> t \<noteq> 0
          \<and> i = ks_next_cap_id (st_kernel (kn_state k))
          \<and> ks_next_cap_id (st_kernel (kn_state k')) = i + 1
          \<and> get_cap (kn_state k) i = None
          \<and> get_cap (kn_state k') = (get_cap (kn_state k))(i \<mapsto> child)
          \<and> cp_id child = i \<and> cp_holder child = t \<and> cp_target child = cp_target parent
          \<and> cp_parent child = Some p \<and> cp_valid child
          \<and> rights_set (cp_rights child) = rights_set r \<inter> rights_set (cp_rights parent)
          \<and> rights_is_subset_of (cp_rights child) (cp_rights parent)
          \<and> verify_cap_seal hmac (st_kernel (kn_state k')) child = Some True
          \<and> (get_plugin (kn_state k) t \<noteq> None \<longrightarrow> plugin_holds (kn_state k') t i)
          \<and> state_wf (kn_state k'))"
proof (cases "get_cap (kn_state k) p")
  case None
  then show ?thesis by (simp add: delegate_cap_early)
next
  case (Some parent)
  let ?s = "kn_state k" and ?i = "ks_next_cap_id (st_kernel (kn_state k))"
  have va: "cap_is_valid ?s p \<longleftrightarrow> cp_valid parent" by (simp add: cap_is_valid_iff Some)
  have em: "rights_is_empty (rights_intersection r (cp_rights parent)) \<longleftrightarrow> rights_set r \<inter> rights_set (cp_rights parent) = {}"
    using assms(2) by (simp add: rights_is_empty_iff rights_wf_intersection)
  note early = delegate_cap_early(2-4) [OF Some]
  show ?thesis
  proof (cases "cp_valid parent \<and> \<not> rights_is_empty (rights_intersection r (cp_rights parent)) \<and> ?i \<noteq> - 1")
    case False
    then show ?thesis
      using Some va em early
      by (cases "cp_valid parent"; cases "rights_is_empty (rights_intersection r (cp_rights parent))") simp_all
  next
    case True
    then have v: "cp_valid parent" "\<not> rights_is_empty (rights_intersection r (cp_rights parent))" "?i \<noteq> - 1" by simp_all
    note late = delegate_cap_late [OF Some v]
    show ?thesis
    proof (cases "child_seal hmac ?s p parent t r")
      case None
      then have "p = - 1" by (rule child_seal_None)
      then show ?thesis using late(1) [OF None] by simp
    next
      case (Some sig)
      show ?thesis
      proof (cases "t = 0 \<or> get_cap ?s ?i \<noteq> None")
        case True
        then show ?thesis
          using late(2,3) [OF Some] v va em \<open>get_cap ?s p = Some parent\<close> by (cases "t = 0") simp_all
      next
        case False
        then show ?thesis
          using late(4) [OF Some] minted_child [OF assms(1) v(1) Some] v(1) \<open>get_cap ?s p = Some parent\<close> by simp
      qed
    qed
  qed
qed

lemma delegation_mints_witness:
  "\<forall>hmac. \<exists>k. delegate_cap hmac \<lparr>kn_state = demo_rooted\<rparr> 100 1 rights_all = Some (Inr 0, k)
     \<and> get_cap (kn_state k) 0 \<noteq> None"
proof
  fix hmac :: hmac_fun
  show "\<exists>k. delegate_cap hmac \<lparr>kn_state = demo_rooted\<rparr> 100 1 rights_all = Some (Inr 0, k)
     \<and> get_cap (kn_state k) 0 \<noteq> None"
    using delegation_mints [where k = "\<lparr>kn_state = demo_rooted\<rparr>" and r = rights_all and hmac = hmac and p = 100 and t = 1] demo_rooted_facts(1)
    by (auto simp: demo_delegates)
qed

text \<open>C4: delegation only attenuates. In every kernel reached by calls that insert raw capabilities only as
  roots, every capability has a root among its ancestors, its rights lie within those of each of its
  ancestors and its target is theirs, and every capability that is not a root carries a seal that
  verifies under the kernel's key.\<close>

theorem delegation_attenuates:
  assumes "kernel_reach hmac roots_only k" and "get_cap (kn_state k) i = Some c"
  shows "(\<exists>r root. (r, i) \<in> (derives (kn_state k))\<^sup>* \<and> get_cap (kn_state k) r = Some root \<and> cp_parent root = None)
    \<and> (\<forall>j. (j, i) \<in> (derives (kn_state k))\<^sup>* \<longrightarrow> (\<exists>a. get_cap (kn_state k) j = Some a
          \<and> rights_is_subset_of (cp_rights c) (cp_rights a) \<and> cp_target c = cp_target a))
    \<and> (cp_parent c \<noteq> None \<longrightarrow> verify_cap_seal hmac (st_kernel (kn_state k)) c = Some True)"
proof -
  have inv: "confined hmac (kn_state k)" by (rule confined.reach_inv [OF assms(1)])
  show ?thesis
    using confinedD(3,4) [OF inv assms(2)] confined_ancestor [OF inv _ assms(2)]
    by (auto simp: within_def)
qed

lemma delegation_attenuates_witness:
  "\<forall>hmac. verify_cap_seal hmac (st_kernel (demo_delegated hmac)) (demo_child hmac) = Some True"
proof
  fix hmac :: hmac_fun
  have "kernel_reach hmac roots_only \<lparr>kn_state = demo_delegated hmac\<rparr>"
    by (rule demo_delegated_reach) (simp_all add: roots_only_def)
  then show "verify_cap_seal hmac (st_kernel (demo_delegated hmac)) (demo_child hmac) = Some True"
    using delegation_attenuates [of hmac "\<lparr>kn_state = demo_delegated hmac\<rparr>" 0 "demo_child hmac"]
    by (simp add: demo_delegated_facts)
qed

text \<open>C16: revocation by the client. If raw insertions are roots and no direct revocation runs through the pure
  path, a capability of a reachable kernel is valid only while all its ancestors are. The pure path breaks
  this: in a kernel reached by a root insertion and one delegation, \<open>execute\<close> of a revocation of the root leaves the child valid, and
  \<open>revoke_cap\<close> does not.\<close>

theorem client_revocation:
  "(\<forall>k i j. kernel_reach hmac in_place k \<and> cap_is_valid (kn_state k) i \<and> (j, i) \<in> (derives (kn_state k))\<^sup>*
       \<longrightarrow> cap_is_valid (kn_state k) j)
   \<and> (\<exists>k k1 k2. kernel_reach hmac roots_only k \<and> (100, 0) \<in> derives (kn_state k)
       \<and> api_execute k (StCapRevoke 1 100) = Inr k1 \<and> revoke_cap k 100 = Inr k2
       \<and> \<not> cap_is_valid (kn_state k1) 100 \<and> cap_is_valid (kn_state k1) 0
       \<and> \<not> cap_is_valid (kn_state k2) 100 \<and> \<not> cap_is_valid (kn_state k2) 0)"
proof (intro conjI)
  show "\<forall>k i j. kernel_reach hmac in_place k \<and> cap_is_valid (kn_state k) i \<and> (j, i) \<in> (derives (kn_state k))\<^sup>*
       \<longrightarrow> cap_is_valid (kn_state k) j"
    using orphan_free.reach_inv valid_ancestor by (auto simp: orphan_free_def)
  let ?k = "\<lparr>kn_state = demo_delegated hmac\<rparr>" and ?s = "demo_delegated hmac"
  have "kernel_reach hmac roots_only ?k" by (rule demo_delegated_reach) (simp_all add: roots_only_def)
  moreover have "(100, 0) \<in> derives (kn_state ?k)" by (simp add: derives_iff demo_delegated_facts)
  moreover have "api_execute ?k (StCapRevoke 1 100) = Inr \<lparr>kn_state = apply_cap_revoke ?s 100\<rparr>"
    by (simp add: api_execute_def execute_cap_revoke_def demo_delegated_facts and_then_def map_err_def
        get_cap_def [symmetric])
  moreover have "revoke_cap ?k 100 = Inr \<lparr>kn_state = with_revocation ?s (revoke_transitive_fast (ks_revocation (st_kernel ?s)) 100)\<rparr>"
    by (simp add: revoke_cap_def apply_cap_revoke_mut_eq demo_delegated_facts and_then_def map_err_def)
  ultimately show "\<exists>k k1 k2. kernel_reach hmac roots_only k \<and> (100, 0) \<in> derives (kn_state k)
       \<and> api_execute k (StCapRevoke 1 100) = Inr k1 \<and> revoke_cap k 100 = Inr k2
       \<and> \<not> cap_is_valid (kn_state k1) 100 \<and> cap_is_valid (kn_state k1) 0
       \<and> \<not> cap_is_valid (kn_state k2) 100 \<and> \<not> cap_is_valid (kn_state k2) 0"
    using demo_pure_revoked [of hmac] demo_inplace_revoked [of hmac] by fastforce
qed

lemma client_revocation_witness:
  "\<forall>hmac. cap_is_valid (demo_delegated hmac) 0 \<and> cap_is_valid (demo_delegated hmac) 100"
proof
  fix hmac :: hmac_fun
  have "kernel_reach hmac in_place \<lparr>kn_state = demo_delegated hmac\<rparr>"
    by (rule demo_delegated_reach) (simp_all add: in_place_def roots_only_def)
  moreover have "(100, 0) \<in> (derives (demo_delegated hmac))\<^sup>*"
    by (simp add: derives_iff demo_delegated_facts r_into_rtrancl)
  moreover have "cap_is_valid (demo_delegated hmac) 0" by (simp add: cap_is_valid_iff demo_delegated_facts)
  ultimately show "cap_is_valid (demo_delegated hmac) 0 \<and> cap_is_valid (demo_delegated hmac) 100" using client_revocation [of hmac] by fastforce
qed


text \<open>C39: the public kernel starts locked. Whatever calls are made, the policy denies everything, the sealing
  key is the zero key, and there is no actor, resource or workflow, so no host call ever executes on
  either path; and a kernel into which nothing was inserted raw has no capability, so that every
  delegation fails.\<close>

theorem kernel_stays_locked:
  assumes "kernel_reach hmac allowed k"
  shows "state_wf (kn_state k)
    \<and> ks_policy (st_kernel (kn_state k)) = policy_deny_all \<and> ks_key_state (st_kernel (kn_state k)) = key_state_empty
    \<and> actor_count (kn_state k) = 0 \<and> resource_count (kn_state k) = 0 \<and> workflow_count (kn_state k) = 0
    \<and> (\<exists>e. api_execute k (StHostCall hc auth r) = Inl e) \<and> (\<exists>e. api_execute_mut k (StHostCall hc auth r) = Inl e)
    \<and> (allowed = no_raw \<longrightarrow> (\<forall>i. get_cap (kn_state k) i = None)
         \<and> delegate_cap hmac k p t rts = Some (Inl (ErKernel (CapNotFound p)), k))"
proof -
  have l: "locked (kn_state k)" by (rule locked.reach_inv [OF assms])
  have e: "\<exists>e. exec_on d (StHostCall hc auth r) (kn_state k) = Inl e" for d
    using host_call_denied [of "kn_state k" d hc auth r] l
    by (cases "exec_on d (StHostCall hc auth r) (kn_state k)") (auto simp: locked_def)
  have none: "\<forall>i. get_cap (kn_state k) i = None" if "allowed = no_raw"
    using capless.reach_inv assms that by (auto simp: capless_def)
  then have "allowed = no_raw \<longrightarrow> (\<forall>i. get_cap (kn_state k) i = None)
         \<and> delegate_cap hmac k p t rts = Some (Inl (ErKernel (CapNotFound p)), k)"
    using delegate_cap_early(1) by blast
  then show ?thesis
    using l e [of Pure] e [of InPlace]
    by (auto simp: locked_def api_execute_def api_execute_mut_def actor_count_def resource_count_def workflow_count_def
        map_err_def and_then_def)
qed

lemma kernel_stays_locked_witness:
  "\<forall>hmac. delegate_cap hmac kernel_new 0 1 rights_all = Some (Inl (ErKernel (CapNotFound 0)), kernel_new)"
proof
  fix hmac :: hmac_fun
  show "delegate_cap hmac kernel_new 0 1 rights_all = Some (Inl (ErKernel (CapNotFound 0)), kernel_new)"
    using kernel_stays_locked [OF reach_new [of hmac no_raw], where p = 0 and t = 1 and rts = rights_all] by simp
qed

end
