(* ===== verification/LionKernelSpec.thy ===== *)
theory LionKernelSpec
  imports LionSystemSpec LionKernelSafety
begin

text \<open>
  The specification of the public kernel (\<open>kernel.rs\<close>), and the proof that \<open>Kernel\<close> refines it: the
  specification of the whole system, extended by the next identifier and the sealing key. A client sees
  answers, so the refinement is of servers: every call is answered, a refused one included, and the next
  one starts from what it left (locale \<open>server_refinement\<close>).
\<close>

section \<open>Servers\<close>

text \<open>A server answers every call and goes on in the state it leaves, refusals included; \<open>None\<close> is a panic.\<close>

fun serve :: "('c \<Rightarrow> 's \<Rightarrow> ('r \<times> 's) option) \<Rightarrow> 'c list \<Rightarrow> 's \<Rightarrow> ('r list \<times> 's) option" where
  "serve f [] s = Some ([], s)"
| "serve f (c # cs) s =
     (case f c s of None \<Rightarrow> None | Some (r, s') \<Rightarrow> map_option (map_prod (Cons r) id) (serve f cs s'))"

locale server_refinement =
  fixes exec :: "'c \<Rightarrow> 's \<Rightarrow> ('r \<times> 's) option" and spec :: "'c \<Rightarrow> 't \<Rightarrow> ('q \<times> 't) option"
    and inv :: "'s \<Rightarrow> bool"
    and abs_answer :: "'r \<Rightarrow> 'q" and abs_state :: "'s \<Rightarrow> 't"
  assumes exec_inv: "inv s \<Longrightarrow> exec c s = Some (r, s') \<Longrightarrow> inv s'"
    and square: "inv s \<Longrightarrow> spec c (abs_state s) = map_option (map_prod abs_answer abs_state) (exec c s)"
begin

lemma serve_inv: "inv s \<Longrightarrow> serve exec cs s = Some (rs, s') \<Longrightarrow> inv s'"
proof (induction cs arbitrary: s rs)
  case (Cons c cs)
  then obtain r m qs where "exec c s = Some (r, m)" and "serve exec cs m = Some (qs, s')"
    by (auto split: option.splits prod.splits)
  then show ?case using Cons exec_inv [of s c r m] by simp
qed simp

lemma serve_square:
  "inv s \<Longrightarrow> serve spec cs (abs_state s) = map_option (map_prod (map abs_answer) abs_state) (serve exec cs s)"
proof (induction cs arbitrary: s)
  case (Cons c cs)
  show ?case
  proof (cases "exec c s")
    case (Some rm)
    then obtain r m where e: "exec c s = Some (r, m)" by (cases rm) simp
    then have "inv m" using Cons.prems exec_inv [of s c r m] by simp
    then show ?thesis using e Cons square [of s c]
      by (cases "serve exec cs m") (simp_all add: prod.map_comp comp_def split_beta map_prod_def)
  qed (use Cons square [of s c] in simp)
qed simp

end

section \<open>The answers of the kernel\<close>

datatype answer = Done | Minted cap_id | Address u64

definition settle :: "kernel \<Rightarrow> lion_error + kernel \<Rightarrow> (lion_error + answer) \<times> kernel" where
  "settle k r = (case r of Inl e \<Rightarrow> (Inl e, k) | Inr k' \<Rightarrow> (Inr Done, k'))"

fun respond :: "hmac_fun \<Rightarrow> kernel_call \<Rightarrow> kernel \<Rightarrow> ((lion_error + answer) \<times> kernel) option" where
  "respond hmac CallTick k = Some (settle k (api_tick k))"
| "respond hmac (CallExecute st) k = Some (settle k (api_execute k st))"
| "respond hmac (CallExecuteMut st) k = Some (settle k (api_execute_mut k st))"
| "respond hmac (CallRegister i l n) k = Some (settle k (register_plugin k i l n))"
| "respond hmac (CallDelegate p t r) k = map_option (map_prod (map_sum id Minted) id) (delegate_cap hmac k p t r)"
| "respond hmac (CallInsertRaw c t) k = Some (settle k (insert_cap_raw k c t))"
| "respond hmac (CallRevoke i) k = Some (settle k (revoke_cap k i))"
| "respond hmac (CallAlloc o1 n) k = Some (map_prod (\<lambda>a. Inr (Address a)) id (api_alloc k o1 n))"
| "respond hmac (CallFree a) k = Some (settle k (api_free k a))"

lemma respond_perform: "perform hmac c k = map_option snd (respond hmac c k)"
  by (cases c) (auto simp: settle_def left_by_def option.map_comp comp_def split: sum.splits)

section \<open>The specification\<close>

record api_spec =
  as_sys :: sys_spec
  as_next :: nat
  as_key :: key
  as_epoch :: u64

definition new_agent :: "security_level \<Rightarrow> nat \<Rightarrow> agent" where
  "new_agent l n =
     \<lparr>ag_level = l, ag_memory = (\<lambda>_. 0), ag_bounds = n, ag_holds = {}, ag_used = 0, ag_quota = 2 ^ 63 - 1\<rparr>"

definition issue :: "capability \<Rightarrow> plugin_id \<Rightarrow> sys_spec \<Rightarrow> sys_spec" where
  "issue c t s =
     with_agent t (\<lambda>g. g\<lparr>ag_holds := insert (cp_id c) (ag_holds g)\<rparr>) (s\<lparr>sy_caps := (sy_caps s)(cp_id c \<mapsto> c)\<rparr>)"

definition resolve :: "api_spec \<Rightarrow> unit + sys_spec \<Rightarrow> (unit + answer) \<times> api_spec" where
  "resolve s r = (case r of Inl e \<Rightarrow> (Inl e, s) | Inr y \<Rightarrow> (Inr Done, s\<lparr>as_sys := y\<rparr>))"

definition api_spec_delegate ::
  "hmac_fun \<Rightarrow> cap_id \<Rightarrow> plugin_id \<Rightarrow> rights \<Rightarrow> api_spec \<Rightarrow> ((unit + answer) \<times> api_spec) option" where
  "api_spec_delegate hmac p t r s =
     (case sy_caps (as_sys s) p of
        None \<Rightarrow> Some (Inl (), s)
      | Some parent \<Rightarrow>
          let rs = rights_intersection r (cp_rights parent);
              i = of_nat (as_next s);
              s' = s\<lparr>as_next := as_next s + 1\<rparr>
          in if \<not> cp_valid parent \<or> rights_is_empty rs \<or> as_next s + 1 = 2 ^ 128 then Some (Inl (), s)
             else map_option (\<lambda>sig.
                    if t = 0 \<or> sy_caps (as_sys s) i \<noteq> None then (Inl (), s')
                    else (Inr (Minted i), s'\<lparr>as_sys := issue
                      \<lparr>cp_id = i, cp_holder = t, cp_target = cp_target parent, cp_rights = rs, cp_parent = Some p,
                       cp_epoch = as_epoch s, cp_valid = True, cp_signature = sig\<rparr> t (as_sys s)\<rparr>))
                  (seal_payload hmac (as_key s) (payload_new t (cp_target parent) rs (Some p) (as_epoch s))))"

fun api_spec_step :: "hmac_fun \<Rightarrow> kernel_call \<Rightarrow> api_spec \<Rightarrow> ((unit + answer) \<times> api_spec) option" where
  "api_spec_step hmac CallTick s = Some (resolve s (sys_spec_step InPlace (StKernelInternal TimeTick) (as_sys s)))"
| "api_spec_step hmac (CallExecute st) s = Some (resolve s (sys_spec_step Pure st (as_sys s)))"
| "api_spec_step hmac (CallExecuteMut st) s = Some (resolve s (sys_spec_step InPlace st (as_sys s)))"
| "api_spec_step hmac (CallRegister i l n) s = Some (resolve s (only_if (sy_agents (as_sys s) i = None)
     ((as_sys s)\<lparr>sy_agents := (sy_agents (as_sys s))(i \<mapsto> new_agent l (unat n))\<rparr>)))"
| "api_spec_step hmac (CallDelegate p t r) s = api_spec_delegate hmac p t r s"
| "api_spec_step hmac (CallInsertRaw c t) s =
     Some (resolve s (only_if (sy_caps (as_sys s) (cp_id c) = None) (issue c t (as_sys s))))"
| "api_spec_step hmac (CallRevoke i) s = Some (resolve s (only_if (sy_caps (as_sys s) i \<noteq> None)
     (withdraw InPlace i (as_sys s))))"
| "api_spec_step hmac (CallAlloc o1 n) s =
     Some (Inr (Address (of_nat (card (sy_known (as_sys s))))), s\<lparr>as_sys := know_address o1 (as_sys s)\<rparr>)"
| "api_spec_step hmac (CallFree a) s =
     Some (resolve s (only_if (releasable InPlace (as_sys s) a) (release a (as_sys s))))"

definition api_spec_initial :: api_spec where
  "api_spec_initial =
     \<lparr>as_sys = \<lparr>sy_agents = (\<lambda>_. None), sy_boxes = (\<lambda>_. None), sy_classes = (\<lambda>_. None), sy_flows = (\<lambda>_. None),
        sy_caps = (\<lambda>_. None), sy_policy = policy_deny_all, sy_time = 0, sy_known = {}, sy_owner = (\<lambda>_. None),
        sy_dead = {}\<rparr>,
      as_next = 0, as_key = key_empty, as_epoch = 0\<rparr>"

section \<open>The abstraction\<close>

definition api_abs :: "kernel \<Rightarrow> api_spec" where
  "api_abs k =
     \<lparr>as_sys = sys_abs (kn_state k), as_next = unat (ks_next_cap_id (st_kernel (kn_state k))),
      as_key = ky_current (ks_key_state (st_kernel (kn_state k))),
      as_epoch = ky_epoch (ks_key_state (st_kernel (kn_state k)))\<rparr>"

abbreviation forget :: "lion_error + answer \<Rightarrow> unit + answer" where
  "forget \<equiv> map_sum (\<lambda>_. ()) id"

lemma api_abs_new: "api_abs kernel_new = api_spec_initial"
proof -
  have "get_plugin state_empty p = None" "get_actor state_empty p = None" "resource_level state_empty p = None"
    "get_workflow state_empty p = None" "get_cap state_empty p = None" "meta_status (st_ghost state_empty) a = None"
    "is_freed (st_ghost state_empty) a = False" for p a
    by (simp_all add: get_tb plugin_view table_eval) (simp_all add: state_empty_def meta_empty_def table_eval meta_status_def is_freed_def)
  then show ?thesis
    by (simp add: api_abs_def sys_abs_def api_spec_initial_def kernel_new_def live_owner_eq fun_eq_iff)
      (simp add: state_empty_def kernel_state_default_def key_state_empty_def state_time_def)
qed

lemma settle_square:
  assumes "map_sum (\<lambda>_. ()) sys_abs x = y"
    and "\<And>s. x = Inr s \<Longrightarrow> ks_next_cap_id (st_kernel s) = ks_next_cap_id (st_kernel (kn_state k))
      \<and> ks_key_state (st_kernel s) = ks_key_state (st_kernel (kn_state k))"
  shows "resolve (api_abs k) y =
    map_prod forget api_abs (settle k (and_then (map_err f x) (\<lambda>s. Inr (k\<lparr>kn_state := s\<rparr>))))"
  using assms by (cases x) (auto simp: resolve_def settle_def and_then_def map_err_def api_abs_def)

lemma register_square:
  assumes "state_wf s"
  shows "map_sum (\<lambda>_. ()) sys_abs (insert_plugin s i (plugin_empty l n)) =
    only_if (sy_agents (sys_abs s) i = None)
      ((sys_abs s)\<lparr>sy_agents := (sy_agents (sys_abs s))(i \<mapsto> new_agent l (unat n))\<rparr>)"
proof (cases "get_plugin s i")
  case None
  then obtain s' where s': "insert_plugin s i (plugin_empty l n) = Inr s'" by (simp add: insert_eqs)
  then have "get_plugin s' = (get_plugin s)(i \<mapsto> plugin_empty l n)"
    using plugins.insert_lookup [OF state_wf_parts(1) [OF assms] s'] by (simp add: fun_eq_iff)
  moreover obtain ps where "s' = s\<lparr>st_plugins := ps\<rparr>" using s' None by (auto simp: insert_eqs)
  then have "get_actor s' = get_actor s" "get_workflow s' = get_workflow s" "st_kernel s' = st_kernel s"
    "st_ghost s' = st_ghost s" "resource_level s' = resource_level s"
    by (simp_all add: get_tb plugin_view fun_eq_iff)
  moreover have "agent_of (plugin_empty l n) = new_agent l (unat n)"
    by (simp add: agent_of_def plugin_empty_def new_agent_def fun_eq_iff mem_read_def mem_empty_def holds_cap_def
        table_eval DEFAULT_QUOTA_def)
  ultimately have "sys_abs s' = (sys_abs s)\<lparr>sy_agents := (sy_agents (sys_abs s))(i \<mapsto> new_agent l (unat n))\<rparr>"
    by (simp add: sys_abs_def fun_eq_iff get_cap_def state_time_def)
  then show ?thesis using s' None by (simp add: only_if_def)
qed (simp add: insert_eqs only_if_def)

lemma issue_abs:
  assumes "state_wf s" and "get_cap s (cp_id c) = None"
  shows "sys_abs (delegate_to s c t) = issue c t (sys_abs s)"
proof -
  let ?r = "with_revocation s (inserted (ks_revocation (st_kernel s)) c)"
  have "get_cap ?r = (get_cap s)(cp_id c \<mapsto> c)"
    using state_wf_parts(2) [OF assms(1)] assms(2) by (simp add: fun_eq_iff get_cap_def inserted_get rev_wf_caps)
  then have r: "sys_abs ?r = (sys_abs s)\<lparr>sy_caps := (sy_caps (sys_abs s))(cp_id c \<mapsto> c)\<rparr>"
    by (simp add: sys_abs_def fun_eq_iff state_time_def plugin_view get_tb)
  have "plugin_wf x" if "get_plugin ?r t = Some x" for x
    using that state_wf_parts(5) [OF assms(1), of t x] by (simp add: get_tb)
  then have "sys_abs (delegate_to s c t) =
      with_agent t (\<lambda>g. g\<lparr>ag_holds := insert (cp_id c) (ag_holds g)\<rparr>) (sys_abs ?r)"
    unfolding delegate_to_def
    by (intro with_agent_abs) (auto simp: agent_of_def set_eq_iff holds_cap_grant, simp_all add: grant_cap_mut_def)
  then show ?thesis unfolding issue_def r .
qed

lemma issue_square:
  assumes "state_wf s"
  shows "map_sum (\<lambda>_. ()) sys_abs (apply_cap_delegate_mut s c t) =
    only_if (sy_caps (sys_abs s) (cp_id c) = None) (issue c t (sys_abs s))"
  by (simp add: apply_cap_delegate_mut_eq apply_cap_delegate_eq issue_abs [OF assms] only_if_def)

lemma bumped_abs: "sys_abs (bumped s) = sys_abs s"
  by (simp add: sys_abs_def fun_eq_iff plugin_view get_tb) (simp add: state_time_def bumped_def)

lemma child_seal_payload:
  "child_seal hmac s p parent t r = seal_payload hmac (ky_current (ks_key_state (st_kernel s)))
     (payload_new t (cp_target parent) (rights_intersection r (cp_rights parent)) (Some p)
       (ky_epoch (ks_key_state (st_kernel s))))"
  by (simp add: child_seal_def payload_new_def)

lemma api_abs_sys [simp]: "as_sys (api_abs k) = sys_abs (kn_state k)"
  by (simp add: api_abs_def)

lemma next_id:
  fixes i :: cap_id
  shows "unat i + 1 = 2 ^ 128 \<longleftrightarrow> i = - 1" and "i \<noteq> - 1 \<Longrightarrow> unat (i + 1) = unat i + 1"
proof -
  have "unat i < 2 ^ LENGTH(128)" by (rule unsigned_less)
  then show "unat i + 1 = 2 ^ 128 \<longleftrightarrow> i = - 1" using word_max_iff [of i] by auto
  show "i \<noteq> - 1 \<Longrightarrow> unat (i + 1) = unat i + 1"
    using word_max_iff [of i] unat_add_no_overflow [of i 1] by simp
qed

text \<open>Past the early refusals a delegation consumes an identifier, and mints the child when it can.\<close>

lemma api_abs_bumped:
  "ks_next_cap_id (st_kernel (kn_state k)) \<noteq> - 1 \<Longrightarrow>
   api_abs (k\<lparr>kn_state := bumped (kn_state k)\<rparr>) = (api_abs k)\<lparr>as_next := as_next (api_abs k) + 1\<rparr>"
  by (simp add: api_abs_def bumped_abs next_id)

lemma api_abs_minted:
  assumes "state_wf (kn_state k)" and "get_cap (kn_state k) (cp_id c) = None"
    and "ks_next_cap_id (st_kernel (kn_state k)) \<noteq> - 1"
  shows "api_abs (k\<lparr>kn_state := delegate_to (bumped (kn_state k)) c t\<rparr>) =
    (api_abs k)\<lparr>as_next := as_next (api_abs k) + 1, as_sys := issue c t (as_sys (api_abs k))\<rparr>"
proof -
  have "sys_abs (delegate_to (bumped (kn_state k)) c t) = issue c t (sys_abs (kn_state k))"
    using issue_abs [OF state_wf_bumped [OF assms(1)], of c t] assms(2) by (simp add: bumped_abs)
  then show ?thesis using assms(3) by (simp add: api_abs_def delegate_to_def with_revocation_eq next_id)
qed

lemma delegate_square_late:
  assumes "state_wf (kn_state k)" and p: "get_cap (kn_state k) p = Some parent"
    and v: "cp_valid parent" "\<not> rights_is_empty (rights_intersection r (cp_rights parent))"
      "ks_next_cap_id (st_kernel (kn_state k)) \<noteq> - 1"
    and sig: "child_seal hmac (kn_state k) p parent t r = Some sig"
  shows "api_spec_delegate hmac p t r (api_abs k) =
    map_option (map_prod forget api_abs) (respond hmac (CallDelegate p t r) k)"
proof -
  let ?s = "kn_state k"
  let ?i = "ks_next_cap_id (st_kernel ?s)"
  note l = delegate_cap_late [OF p v, of hmac t]
  have nx: "as_next (api_abs k) + 1 \<noteq> 2 ^ 128" "of_nat (as_next (api_abs k)) = ?i"
    using v(3) next_id(1) [of ?i] by (simp_all add: api_abs_def)
  have "api_spec_delegate hmac p t r (api_abs k) =
      Some (if t = 0 \<or> get_cap ?s ?i \<noteq> None then (Inl (), (api_abs k)\<lparr>as_next := as_next (api_abs k) + 1\<rparr>)
        else (Inr (Minted ?i), (api_abs k)\<lparr>as_next := as_next (api_abs k) + 1,
          as_sys := issue (child_of ?s p parent t r sig) t (as_sys (api_abs k))\<rparr>))"
    using v(1,2) nx sig [unfolded child_seal_payload]
    by (cases "t = 0") (simp_all add: api_spec_delegate_def p Let_def child_of_def, simp_all add: api_abs_def)
  also have "\<dots> = map_option (map_prod forget api_abs) (respond hmac (CallDelegate p t r) k)"
    using l(2-4) [OF sig] api_abs_bumped [OF v(3)]
      api_abs_minted [OF assms(1) _ v(3), of "child_of ?s p parent t r sig" t]
    by (cases "t = 0"; cases "get_cap ?s ?i") (simp_all add: child_of_def)
  finally show ?thesis .
qed

lemma delegate_square:
  assumes "state_wf (kn_state k)"
  shows "api_spec_delegate hmac p t r (api_abs k) =
    map_option (map_prod forget api_abs) (respond hmac (CallDelegate p t r) k)"
proof (cases "get_cap (kn_state k) p")
  case None
  then show ?thesis by (simp add: api_spec_delegate_def delegate_cap_early)
next
  case (Some parent)
  let ?i = "ks_next_cap_id (st_kernel (kn_state k))"
  have nx: "as_next (api_abs k) + 1 = 2 ^ 128 \<longleftrightarrow> ?i = - 1" unfolding api_abs_def by (simp only: next_id api_spec.simps)
  show ?thesis
  proof (cases "\<not> cp_valid parent \<or> rights_is_empty (rights_intersection r (cp_rights parent)) \<or> ?i = - 1")
    case True
    then obtain err where "delegate_cap hmac k p t r = Some (Inl err, k)"
      using delegate_cap_early(2-4) [OF Some, where hmac = hmac and t = t and r = r]
      by (cases "cp_valid parent"; cases "rights_is_empty (rights_intersection r (cp_rights parent))") auto
    then show ?thesis using True Some nx by (auto simp: api_spec_delegate_def Let_def)
  next
    case False
    then have v: "cp_valid parent" "\<not> rights_is_empty (rights_intersection r (cp_rights parent))" "?i \<noteq> - 1"
      by simp_all
    show ?thesis
    proof (cases "child_seal hmac (kn_state k) p parent t r")
      case None
      then show ?thesis using delegate_cap_late(1) [OF Some v, of hmac t] v nx Some
        by (simp add: api_spec_delegate_def Let_def child_seal_payload) (simp add: api_abs_def)
    qed (rule delegate_square_late [OF assms Some v])
  qed
qed

lemma settle_call:
  assumes "state_wf (kn_state k)" and "\<not> kernel_only c" and "map_sum (\<lambda>_. ()) sys_abs x = y"
    and t: "\<And>s. x = Inr s \<Longrightarrow> api_trans hmac (kn_state k) c s"
  shows "resolve (api_abs k) y =
    map_prod forget api_abs (settle k (and_then (map_err f x) (\<lambda>s. Inr (k\<lparr>kn_state := s\<rparr>))))"
proof (rule settle_square [OF assms(3)])
  fix s
  assume "x = Inr s"
  then show "ks_next_cap_id (st_kernel s) = ks_next_cap_id (st_kernel (kn_state k))
      \<and> ks_key_state (st_kernel s) = ks_key_state (st_kernel (kn_state k))"
    using lion_trans_progress [OF api_trans_lion [OF t assms(1,2)] assms(1)] by (simp add: state_progress_def)
qed

lemma api_square:
  assumes w: "state_wf (kn_state k)"
  shows "api_spec_step hmac c (api_abs k) = map_option (map_prod forget api_abs) (respond hmac c k)"
proof (cases c)
  case CallTick
  have "map_sum (\<lambda>_. ()) sys_abs (state_tick (kn_state k)) =
      sys_spec_step InPlace (StKernelInternal TimeTick) (sys_abs (kn_state k))"
    using tick_abs [of "kn_state k"] by simp
  from settle_call [OF w _ this at_tick] show ?thesis
    using CallTick by (simp add: api_tick_def kernel_only_def)
next
  case (CallExecute st)
  from settle_call [OF w _ sys_square [OF w, of Pure, symmetric, unfolded exec_on.simps] at_step] show ?thesis
    using CallExecute by (simp add: api_execute_def kernel_only_def)
next
  case (CallExecuteMut st)
  from settle_call [OF w _ sys_square [OF w, of InPlace, symmetric, unfolded exec_on.simps] at_step_mut] show ?thesis
    using CallExecuteMut by (simp add: api_execute_mut_def kernel_only_def)
next
  case (CallRegister i l n)
  have "ks_next_cap_id (st_kernel s) = ks_next_cap_id (st_kernel (kn_state k))
      \<and> ks_key_state (st_kernel s) = ks_key_state (st_kernel (kn_state k))"
    if "insert_plugin (kn_state k) i (plugin_empty l n) = Inr s" for s
    using that by (auto simp: insert_eqs split: if_splits)
  from settle_square [OF register_square [OF w] this] show ?thesis
    using CallRegister by (simp add: register_plugin_def)
next
  case (CallDelegate p t r)
  then show ?thesis using delegate_square [OF w] by simp
next
  case (CallInsertRaw cap t)
  have "ks_next_cap_id (st_kernel s) = ks_next_cap_id (st_kernel (kn_state k))
      \<and> ks_key_state (st_kernel s) = ks_key_state (st_kernel (kn_state k))"
    if "apply_cap_delegate_mut (kn_state k) cap t = Inr s" for s
    using that by (auto simp: apply_cap_delegate_mut_eq apply_cap_delegate_eq delegate_to_def with_revocation_eq
        split: if_splits)
  from settle_square [OF issue_square [OF w] this] show ?thesis
    using CallInsertRaw by (simp add: insert_cap_raw_def)
next
  case (CallRevoke i)
  from settle_call [OF w _ revoke_square [OF w] at_revoke] show ?thesis
    using CallRevoke by (simp add: revoke_cap_def kernel_only_def)
next
  case (CallAlloc o1 n)
  then show ?thesis using alloc_abs [OF w]
    by (simp add: api_alloc_def api_abs_def apply_alloc_mut_eq apply_alloc_eq)
next
  case (CallFree a)
  from settle_call [OF w _ release_abs(1) [OF w] at_free] show ?thesis
    using CallFree by (simp add: api_free_def kernel_only_def)
qed

interpretation kernel_refines: server_refinement "respond hmac" "api_spec_step hmac"
  "\<lambda>k. state_wf (kn_state k)" forget api_abs for hmac :: hmac_fun
proof unfold_locales
  show "state_wf (kn_state k')" if "state_wf (kn_state k)" "respond hmac c k = Some (r, k')" for k c r k'
    using that api_trans_wf [OF perform_trans [of hmac c k k']] by (simp add: respond_perform)
qed (rule api_square)

section \<open>Property\<close>

text \<open>C6: the kernel implements its specification: any sequence of calls on a new kernel, pure and in-place
  executions included, gets, from the specification over maps, sets and natural numbers started empty, the
  same answers, the identifiers it mints and the addresses it allocates included, is refused at the same
  calls, panics at the same call, and ends in the corresponding state; its queries read that state.\<close>

theorem kernel_refines_spec:
  "serve (api_spec_step hmac) cs api_spec_initial =
      map_option (map_prod (map forget) api_abs) (serve (respond hmac) cs kernel_new)
    \<and> (\<forall>rs k. serve (respond hmac) cs kernel_new = Some (rs, k) \<longrightarrow>
        unat (api_time k) = sy_time (as_sys (api_abs k))
      \<and> api_get_cap k = sy_caps (as_sys (api_abs k))
      \<and> (\<forall>p. api_plugin_level k p = map_option ag_level (sy_agents (as_sys (api_abs k)) p))
      \<and> (\<forall>i. api_cap_is_valid k i \<longleftrightarrow> sy_valid (as_sys (api_abs k)) i)
      \<and> (\<forall>p i. api_plugin_holds k p i \<longleftrightarrow>
           (\<exists>g. sy_agents (as_sys (api_abs k)) p = Some g \<and> i \<in> ag_holds g))
      \<and> api_plugin_count k = card {p. sy_agents (as_sys (api_abs k)) p \<noteq> None})"
proof (intro conjI allI impI)
  have w: "state_wf (kn_state kernel_new)" by (simp add: kernel_new_def state_wf_empty)
  show "serve (api_spec_step hmac) cs api_spec_initial =
      map_option (map_prod (map forget) api_abs) (serve (respond hmac) cs kernel_new)"
    using kernel_refines.serve_square [OF w] by (simp add: api_abs_new)
  fix rs k
  assume "serve (respond hmac) cs kernel_new = Some (rs, k)"
  then have k: "state_wf (kn_state k)" using kernel_refines.serve_inv [OF w] by blast
  then have st: "sorted_table (st_plugins (kn_state k))" by (simp add: state_wf_def tables_wf_def)
  then have "{p. get_plugin (kn_state k) p \<noteq> None} = set (map fst (st_plugins (kn_state k)))"
    by (auto simp: get_tb tb_get_None_iff simp del: not_None_eq)
  then show "api_plugin_count k = card {p. sy_agents (as_sys (api_abs k)) p \<noteq> None}"
    using distinct_card [OF sorted_table_distinct [OF st]]
    by (simp add: api_query_defs plugin_count_def del: not_None_eq)
qed (auto simp: api_query_defs plugin_view sy_valid_abs option.map_comp comp_def)

lemma kernel_refines_spec_witness:
  "\<forall>hmac. \<exists>rs s. serve (api_spec_step hmac) [CallInsertRaw demo_raw 1, CallDelegate 100 1 rights_all] api_spec_initial
     = Some (rs, s) \<and> rs = [Inr Done, Inr (Minted 0)]"
proof
  fix hmac :: hmac_fun
  have "insert_cap_raw kernel_new demo_raw 1 = Inr \<lparr>kn_state = demo_rooted\<rparr>"
    by (simp add: insert_cap_raw_def apply_cap_delegate_mut_eq apply_cap_delegate_eq kernel_new_def demo_rooted_def)
  then show "\<exists>rs s. serve (api_spec_step hmac) [CallInsertRaw demo_raw 1, CallDelegate 100 1 rights_all] api_spec_initial
     = Some (rs, s) \<and> rs = [Inr Done, Inr (Minted 0)]"
    using kernel_refines_spec [of hmac "[CallInsertRaw demo_raw 1, CallDelegate 100 1 rights_all]"]
      demo_delegates [of hmac] by (simp add: settle_def)
qed

end
