(* ===== verification/LionTest.thy ===== *)
theory LionTest
  imports LionText
begin

text \<open>
  What the conformance theories share. They translate the unit tests of the repository, the
  \<open>#[cfg(test)]\<close> modules, each test function into a definition of type \<open>bool\<close> over the model: one conjunct
  per assertion, a \<open>let\<close> per binding, one state per mutation. The proof that the definition holds is the run
  of the test against the model. A call of \<open>unwrap\<close> or \<open>expect\<close> on a missing value is a panic, that is, a
  failed test; so is an assertion under a \<open>match\<close> on another branch.
\<close>

definition unwrap_then :: "'e + 'a \<Rightarrow> ('a \<Rightarrow> bool) \<Rightarrow> bool" where
  "unwrap_then r f = (case r of Inl e \<Rightarrow> False | Inr x \<Rightarrow> f x)"

definition some_then :: "'a option \<Rightarrow> ('a \<Rightarrow> bool) \<Rightarrow> bool" where
  "some_then v f = (case v of None \<Rightarrow> False | Some x \<Rightarrow> f x)"

definition err_then :: "'e + 'a \<Rightarrow> ('e \<Rightarrow> bool) \<Rightarrow> bool" where
  "err_then r f = (case r of Inl e \<Rightarrow> f e | Inr x \<Rightarrow> False)"

definition is_err :: "'e + 'a \<Rightarrow> bool" where
  "is_err r \<longleftrightarrow> \<not> is_ok r"

lemma test_simps [simp]:
  "unwrap_then (Inr x) f = f x" "unwrap_then (Inl e) f = False"
  "some_then (Some x) f = f x" "some_then None f = False"
  "err_then (Inl e) g = g e" "err_then (Inr x) g = False"
  "is_err (Inl e)" "\<not> is_err (Inr x)"
  by (simp_all add: unwrap_then_def some_then_def err_then_def is_err_def)

text \<open>A range of integers, for the exhaustive tests.\<close>

definition word_range :: "nat \<Rightarrow> 'a::len word list" where
  "word_range n = map of_nat [0..<n]"

lemma word_range_iff:
  fixes w :: "'a::len word"
  assumes "n \<le> 2 ^ LENGTH('a)"
  shows "w \<in> set (word_range n) \<longleftrightarrow> unat w < n"
proof
  assume "w \<in> set (word_range n)"
  then obtain i where i: "i < n" "w = of_nat i" by (auto simp: word_range_def)
  then have "unat w = i" using assms by (simp add: unat_of_nat)
  then show "unat w < n" using i(1) by simp
next
  assume "unat w < n"
  moreover have "w = of_nat (unat w)" by simp
  ultimately show "w \<in> set (word_range n)" unfolding word_range_def by (metis atLeastLessThan_iff image_eqI le0 list.set_map set_upt)
qed

text \<open>Code equations that compute over the integers, so that evaluation does not count in unary.\<close>

lemma unat_sum_int: "unat a + unat b < 2 ^ n \<longleftrightarrow> uint a + uint b < 2 ^ n" for a b :: "'a::len word"
  by (simp flip: of_nat_less_iff [where 'a = int])

lemma unat_product_int: "unat a * unat b < 2 ^ n \<longleftrightarrow> uint a * uint b < 2 ^ n" for a b :: "'a::len word"
  by (simp flip: of_nat_less_iff [where 'a = int])

lemma checked_code [code]:
  "checked_add a b = (if uint a + uint b < 2 ^ LENGTH('a) then Some (a + b) else None)"
  "checked_mul a b = (if uint a * uint b < 2 ^ LENGTH('a) then Some (a * b) else None)"
  for a b :: "'a::len word"
  by (simp_all add: checked_add_def checked_mul_def unat_sum_int unat_product_int)

lemma saturating_code [code]:
  "saturating_add a b = (if uint a + uint b < 2 ^ LENGTH('a) then a + b else - 1)"
  "saturating_mul a b = (if uint a * uint b < 2 ^ LENGTH('a) then a * b else - 1)"
  for a b :: "'a::len word"
  by (simp_all add: saturating_add_def saturating_mul_def unat_sum_int unat_product_int)

end
