(* ===== verification/LionTestRights.thy ===== *)
theory LionTestRights
  imports LionTest LionRightsIter
begin

text \<open>
  The unit tests of \<open>types/rights.rs\<close>. The exhaustive ones (all 1024 sets, all pairs of sets) are proved from
  the laws of the operations, the others by evaluation. The test of hashing is over an arbitrary hash function.
\<close>

unbundle bit_operations_syntax

definition test_rights_empty_and_all :: bool where
  "test_rights_empty_and_all \<longleftrightarrow>
     (let e = rights_empty; a = rights_all
      in rights_to_bits e = 0 \<and> rights_is_empty e \<and> rights_len e = 0
       \<and> rights_to_bits a = 0x03FF \<and> \<not> rights_is_empty a \<and> rights_len a = 10
       \<and> rights_default = e)"

fun singleton_loop :: "nat \<Rightarrow> right list \<Rightarrow> u16 \<Rightarrow> bool" where
  "singleton_loop i [] seen_bits \<longleftrightarrow> seen_bits = 0x03FF"
| "singleton_loop i (right # rest) seen_bits \<longleftrightarrow>
     (let s = rights_singleton right
      in rights_len s = 1 \<and> rights_contains s right \<and> rights_to_bits s = push_bit i 1
       \<and> seen_bits AND rights_to_bits s = 0
       \<and> singleton_loop (i + 1) rest (seen_bits OR rights_to_bits s))"

definition test_rights_singleton_each_right :: bool where
  "test_rights_singleton_each_right \<longleftrightarrow> singleton_loop 0 right_ALL 0"

definition test_rights_from_bits_masking :: bool where
  "test_rights_from_bits_masking \<longleftrightarrow>
     rights_from_bits (- 1) = rights_all \<and> rights_from_bits 0 = rights_empty
     \<and> rights_from_bits 0xFC00 = rights_empty \<and> rights_to_bits (rights_from_bits 0x0005) = 0x0005"

definition test_rights_from_bits_roundtrip :: bool where
  "test_rights_from_bits_roundtrip \<longleftrightarrow>
     list_all (\<lambda>bits. let r = rights_from_bits bits in rights_to_bits r = bits) (word_range 0x0400)
     \<and> list_all (\<lambda>r. rights_from_bits (rights_to_bits r) = r)
         [rights_empty, rights_all, rights_singleton Delegate, rights_read_only, rights_read_write,
          rights_read_write_execute]"

definition test_rights_contains_insert_remove :: bool where
  "test_rights_contains_insert_remove \<longleftrightarrow>
     (let r0 = rights_empty; (i1, r1) = rights_insert r0 Read; (i2, r2) = rights_insert r1 Read;
          (d1, r3) = rights_remove r2 Read; (d2, r4) = rights_remove r3 Read
      in \<not> rights_contains r0 Read
       \<and> i1 \<and> rights_contains r1 Read \<and> rights_len r1 = 1
       \<and> \<not> i2 \<and> rights_len r2 = 1
       \<and> d1 \<and> \<not> rights_contains r3 Read \<and> rights_len r3 = 0
       \<and> \<not> d2)"

definition test_rights_combine_intersection :: bool where
  "test_rights_combine_intersection \<longleftrightarrow>
     (let rw = rights_from_slice [Read, Write]; rx = rights_from_slice [Read, Execute];
          combined = rights_combine rw rx; subset = rights_singleton Read; superset = rights_all
      in combined = rights_singleton Read
       \<and> rights_combine subset superset = subset
       \<and> rights_combine rw rights_empty = rights_empty
       \<and> rights_combine rw rw = rw
       \<and> rights_intersection rw rx = rights_combine rw rx)"

definition test_rights_union :: bool where
  "test_rights_union \<longleftrightarrow>
     (let a = rights_singleton Read; b = rights_singleton Write; u = rights_union a b;
          acc = fold (\<lambda>right acc. rights_union acc (rights_singleton right)) right_ALL rights_empty
      in rights_len u = 2 \<and> rights_contains u Read \<and> rights_contains u Write
       \<and> acc = rights_all
       \<and> rights_union u u = u
       \<and> rights_union u rights_empty = u)"

definition test_rights_difference :: bool where
  "test_rights_difference \<longleftrightarrow>
     (let all = rights_all; read_only = rights_singleton Read; diff = rights_difference all read_only
      in \<not> rights_contains diff Read \<and> rights_len diff = 9
       \<and> list_all (\<lambda>right. if right \<noteq> Read then rights_contains diff right else True) right_ALL
       \<and> rights_difference all all = rights_empty
       \<and> rights_difference all rights_empty = all
       \<and> rights_difference rights_empty all = rights_empty)"

definition test_rights_symmetric_difference :: bool where
  "test_rights_symmetric_difference \<longleftrightarrow>
     (let ab = rights_from_slice [Read, Write]; bc = rights_from_slice [Write, Execute];
          sd = rights_symmetric_difference ab bc
      in rights_contains sd Read \<and> \<not> rights_contains sd Write \<and> rights_contains sd Execute \<and> rights_len sd = 2
       \<and> rights_symmetric_difference ab ab = rights_empty
       \<and> rights_symmetric_difference ab rights_empty = ab)"

definition test_rights_complement :: bool where
  "test_rights_complement \<longleftrightarrow>
     list_all (\<lambda>bits. let r = rights_from_bits bits in rights_complement (rights_complement r) = r)
       [0, 0x03FF, 0x0001, 0x0155, 0x02AA]
     \<and> rights_complement rights_empty = rights_all \<and> rights_complement rights_all = rights_empty
     \<and> (let c = rights_complement (rights_singleton Send) in rights_len c = 9 \<and> \<not> rights_contains c Send)"

definition test_rights_subset_superset :: bool where
  "test_rights_subset_superset \<longleftrightarrow>
     (let e = rights_empty; a = rights_all; r = rights_singleton Read; w = rights_singleton Write
      in rights_is_subset_of e e \<and> rights_is_subset_of e r \<and> rights_is_subset_of e a
       \<and> rights_is_superset_of a e \<and> rights_is_superset_of r e
       \<and> list_all (\<lambda>right. rights_is_superset_of a (rights_singleton right)
           \<and> rights_is_subset_of (rights_singleton right) a) right_ALL
       \<and> \<not> rights_is_superset_of r a
       \<and> \<not> rights_is_subset_of r w \<and> \<not> rights_is_subset_of w r)"

definition test_rights_contains_all_contains_any :: bool where
  "test_rights_contains_all_contains_any \<longleftrightarrow>
     (let rw = rights_from_slice [Read, Write]; r = rights_singleton Read; x = rights_singleton Execute;
          e = rights_empty
      in rights_contains_all rw r \<and> rights_contains_all rw rw \<and> \<not> rights_contains_all r rw
       \<and> \<not> rights_contains_all rw x \<and> rights_contains_all rw e \<and> rights_contains_all e e
       \<and> rights_contains_any rw r \<and> rights_contains_any rw rw \<and> \<not> rights_contains_any rw x
       \<and> \<not> rights_contains_any e rw \<and> \<not> rights_contains_any e e)"

definition test_rights_iter_sorted :: bool where
  "test_rights_iter_sorted \<longleftrightarrow>
     (let all = rights_all; collected = iter_collect (rights_iter_of all);
          partial = rights_from_slice [Send, Read, Execute]; collected' = iter_collect (rights_iter_of partial)
      in collected = right_ALL
       \<and> collected' = [Read, Execute, Send]
       \<and> length (iter_collect (rights_iter_of rights_empty)) = 0)"

text \<open>The length an \<open>ExactSizeIterator\<close> reports is the lower bound of its size hint.\<close>

definition iter_len :: "rights_iter \<Rightarrow> nat" where
  "iter_len it = fst (iter_size_hint it)"

text \<open>The loop ends with the iterator; \<open>remaining\<close> counts down an unsigned integer, whose underflow panics.\<close>

function count_loop :: "rights_iter \<Rightarrow> nat \<Rightarrow> bool" where
  "count_loop it remaining \<longleftrightarrow>
     (case iter_next it of
        (None, _) \<Rightarrow> remaining = 0
      | (Some _, it') \<Rightarrow> 0 < remaining \<and> iter_len it' = remaining - 1 \<and> count_loop it' (remaining - 1))"
  by pat_completeness auto
termination
  by (relation "measure (\<lambda>(it, n). unat (it_bits it))")
    (auto simp: iter_next_def Let_def clear_lowest_less split: if_splits)

declare count_loop.simps [simp del]

definition test_rights_iter_count_matches_len :: bool where
  "test_rights_iter_count_matches_len \<longleftrightarrow>
     list_all (\<lambda>bits. let r = rights_from_bits bits; iter = rights_iter_of r
        in iter_len iter = rights_len r \<and> count_loop iter (rights_len r)) (word_range 0x0400)"

definition test_rights_to_vec_matches_iter :: bool where
  "test_rights_to_vec_matches_iter \<longleftrightarrow>
     list_all (\<lambda>bits. let r = rights_from_bits bits in rights_to_vec r = iter_collect (rights_iter_of r))
       [0, 1, 0x03FF, 0x0155, 0x02AA, 0x0321]"

definition test_rights_from_slice :: bool where
  "test_rights_from_slice \<longleftrightarrow>
     (let r = rights_from_slice [Read, Read, Write, Write]
      in rights_len r = 2 \<and> rights_contains r Read \<and> rights_contains r Write
       \<and> rights_from_slice [] = rights_empty
       \<and> rights_from_slice right_ALL = rights_all)"

definition test_rights_operator_impls :: bool where
  "test_rights_operator_impls \<longleftrightarrow>
     (let a = rights_from_slice [Read, Write, Execute]; b = rights_from_slice [Write, Execute, Create];
          x = rights_bitand_assign a b; y = rights_bitor_assign a b
      in rights_bitand a b = rights_intersection a b \<and> rights_ref_bitand a b = rights_intersection a b
       \<and> rights_bitor a b = rights_union a b \<and> rights_ref_bitor a b = rights_union a b
       \<and> rights_sub a b = rights_difference a b \<and> rights_ref_sub a b = rights_difference a b
       \<and> rights_not a = rights_complement a \<and> rights_ref_not a = rights_complement a
       \<and> x = rights_bitand a b
       \<and> y = rights_bitor a b)"

definition test_rights_with_without :: bool where
  "test_rights_with_without \<longleftrightarrow>
     (let r = rights_singleton Read; rw = rights_with r Write; back = rights_without rw Write;
          built = rights_without (rights_with (rights_with rights_empty Send) Receive) Send
      in rights_contains rw Read \<and> rights_contains rw Write \<and> rights_len rw = 2 \<and> rights_len r = 1
       \<and> rights_with rw Read = rw
       \<and> back = r
       \<and> rights_without r Execute = r
       \<and> built = rights_singleton Receive)"

definition test_right_to_u8_from_u8_roundtrip :: bool where
  "test_right_to_u8_from_u8_roundtrip \<longleftrightarrow>
     list_all (\<lambda>right. right_from_u8 (right_to_u8 right) = Some right) right_ALL
     \<and> right_from_u8 10 = None \<and> right_from_u8 255 = None"

definition test_right_as_mask :: bool where
  "test_right_as_mask \<longleftrightarrow>
     list_all (\<lambda>right. right_as_mask right = push_bit (unat (right_to_u8 right)) 1
        \<and> rights_to_bits (rights_singleton right) = right_as_mask right) right_ALL"

definition test_rights_from_right :: bool where
  "test_rights_from_right \<longleftrightarrow>
     list_all (\<lambda>right. let r = rights_from_right right in r = rights_singleton right) right_ALL"

definition test_rights_from_iterator :: bool where
  "test_rights_from_iterator \<longleftrightarrow>
     (let r = rights_from_iter [Read, Write, Read]; empty = rights_from_iter []
      in rights_len r = 2 \<and> rights_contains r Read \<and> rights_contains r Write
       \<and> empty = rights_empty)"

definition test_rights_into_iterator :: bool where
  "test_rights_into_iterator \<longleftrightarrow>
     (let rw = rights_from_slice [Read, Write];
          count = fold (\<lambda>_ n. n + 1) (iter_collect (rights_into_iter rw)) (0::nat);
          count_ref = fold (\<lambda>_ n. n + 1) (iter_collect (rights_ref_into_iter rw)) (0::nat)
      in count = 2 \<and> count_ref = 2)"

definition test_rights_display :: bool where
  "test_rights_display \<longleftrightarrow>
     rights_to_string rights_empty = ''{}'' \<and> rights_to_string (rights_singleton Read) = ''{read}''
     \<and> (let rw = rights_from_slice [Read, Write] in rights_to_string rw = ''{read, write}'')"

definition test_right_name_parse_roundtrip :: bool where
  "test_right_name_parse_roundtrip \<longleftrightarrow>
     list_all (\<lambda>right. unwrap_then (right_from_str (right_name right)) (\<lambda>parsed. parsed = right)
        \<and> unwrap_then (right_from_str [right_short_name right]) (\<lambda>short. short = right)
        \<and> (let displayed = right_name right
           in unwrap_then (right_from_str displayed) (\<lambda>reparsed. reparsed = right))) right_ALL
     \<and> is_err (right_from_str ''invalid'')"

definition test_rights_convenience_constructors :: bool where
  "test_rights_convenience_constructors \<longleftrightarrow>
     (let ro = rights_read_only; rw = rights_read_write; rwx = rights_read_write_execute
      in rights_len ro = 1 \<and> rights_contains ro Read
       \<and> rights_len rw = 2 \<and> rights_contains rw Read \<and> rights_contains rw Write
       \<and> rights_len rwx = 3 \<and> rights_contains rwx Read \<and> rights_contains rwx Write \<and> rights_contains rwx Execute)"

definition test_rights_algebraic_laws :: bool where
  "test_rights_algebraic_laws \<longleftrightarrow>
     (let a = rights_from_slice [Read, Write, Execute]; b = rights_from_slice [Write, Execute, Create];
          c = rights_from_slice [Execute, Create, Delete]
      in rights_union a b = rights_union b a \<and> rights_combine a b = rights_combine b a
       \<and> rights_symmetric_difference a b = rights_symmetric_difference b a
       \<and> rights_union (rights_union a b) c = rights_union a (rights_union b c)
       \<and> rights_combine (rights_combine a b) c = rights_combine a (rights_combine b c)
       \<and> rights_combine a (rights_union b c) = rights_union (rights_combine a b) (rights_combine a c)
       \<and> rights_union a (rights_combine a b) = a
       \<and> rights_combine a (rights_union a b) = a
       \<and> rights_complement (rights_combine a b) = rights_union (rights_complement a) (rights_complement b)
       \<and> rights_complement (rights_union a b) = rights_combine (rights_complement a) (rights_complement b)
       \<and> rights_union a a = a \<and> rights_combine a a = a
       \<and> rights_union a rights_empty = a \<and> rights_combine a rights_all = a
       \<and> rights_combine a rights_empty = rights_empty \<and> rights_union a rights_all = rights_all
       \<and> rights_union a (rights_complement a) = rights_all
       \<and> rights_combine a (rights_complement a) = rights_empty)"

definition test_rights_confinement_property :: bool where
  "test_rights_confinement_property \<longleftrightarrow>
     list_all (\<lambda>a_bits. let a = rights_from_bits a_bits
        in list_all (\<lambda>b_bits. let b = rights_from_bits b_bits; c = rights_combine a b
             in rights_is_subset_of c a \<and> rights_is_subset_of c b) (word_range 0x0400)) (word_range 0x0400)"

definition test_rights_hash_consistency :: "(u16 \<Rightarrow> u64) \<Rightarrow> bool" where
  "test_rights_hash_consistency hasher \<longleftrightarrow>
     (let hash_of = (\<lambda>r. hasher (rights_bits r)); a = rights_from_slice [Read, Write];
          b = rights_from_bits 0x0003; c = rights_from_iter [Write, Read]
      in a = b \<and> hash_of a = hash_of b \<and> hash_of a = hash_of c)"

section \<open>The tests pass\<close>

lemma rights_tests_values:
  "test_rights_empty_and_all" "test_rights_singleton_each_right" "test_rights_from_bits_masking"
  "test_rights_contains_insert_remove" "test_right_to_u8_from_u8_roundtrip" "test_right_as_mask"
  "test_rights_from_slice" "test_rights_from_right" "test_rights_from_iterator" "test_rights_with_without"
  "test_rights_convenience_constructors"
  by code_simp+

lemma rights_tests_algebra:
  "test_rights_combine_intersection" "test_rights_union" "test_rights_difference"
  "test_rights_symmetric_difference" "test_rights_complement" "test_rights_subset_superset"
  "test_rights_contains_all_contains_any" "test_rights_operator_impls" "test_rights_algebraic_laws"
  by code_simp+

lemma rights_tests_iteration:
  "test_rights_iter_sorted" "test_rights_to_vec_matches_iter" "test_rights_into_iterator"
  "test_rights_display" "test_right_name_parse_roundtrip"
  by code_simp+

lemma rights_test_hash: "test_rights_hash_consistency hasher"
proof -
  have "rights_from_slice [Read, Write] = rights_from_bits 0x0003" "rights_from_iter [Write, Read] = rights_from_bits 0x0003"
    by code_simp+
  then show ?thesis by (simp add: test_rights_hash_consistency_def)
qed

text \<open>The exhaustive tests, from the laws of the operations.\<close>

lemma from_bits_valid: "bits \<in> set (word_range 0x0400) \<Longrightarrow> rights_bits (rights_from_bits bits) = bits"
proof -
  assume "bits \<in> set (word_range 0x0400)"
  then have "unat bits < 2 ^ 10" by (simp add: word_range_iff)
  then have "take_bit 10 (unat bits) = unat bits" by (simp add: take_bit_nat_eq_self)
  then have "unat (bits AND mask 10) = unat bits" by (simp add: take_bit_eq_mask [symmetric] unsigned_take_bit_eq)
  then show ?thesis by (simp add: rights_from_bits_def ALL_RIGHTS_MASK_mask word_unat_eq_iff)
qed

lemma rights_test_roundtrip: "test_rights_from_bits_roundtrip"
proof -
  have "list_all (\<lambda>r. rights_from_bits (rights_to_bits r) = r)
      [rights_empty, rights_all, rights_singleton Delegate, rights_read_only, rights_read_write, rights_read_write_execute]"
    by code_simp
  then show ?thesis
    by (simp add: test_rights_from_bits_roundtrip_def list_all_iff rights_to_bits_def from_bits_valid)
qed

lemma rights_test_confinement: "test_rights_confinement_property"
  by (simp add: test_rights_confinement_property_def list_all_iff Let_def rights_subset_iff rights_wf_ops)

lemma iter_len_of: "iter_len (rights_iter_of r) = rights_len r"
  by (simp add: iter_len_def iter_size_hint_def rights_iter_of_def count_ones_def rights_len_def Let_def)

lemma rights_set_finite [simp]: "finite (rights_set r)"
  by (metis finite_subset List.finite_set right_ALL_UNIV subset_UNIV)

lemma rights_len_without:
  assumes "rights_wf r" and "x \<in> rights_set r"
  shows "rights_len r = Suc (rights_len (rights_without r x))"
  using assms card_Suc_Diff1 [of "rights_set r" x] by (simp add: rights_len_card)

lemma count_loop_ok: "rights_wf r \<Longrightarrow> count_loop (rights_iter_of r) (rights_len r)"
proof (induction "rights_len r" arbitrary: r)
  case 0
  then have "fst (iter_next (rights_iter_of r)) = None" by (simp add: iter_next_None rights_len_card)
  then show ?case using 0(1) by (auto simp: count_loop.simps [of "rights_iter_of r"] split: prod.split)
next
  case (Suc n)
  then have "fst (iter_next (rights_iter_of r)) \<noteq> None"
    using rights_len_card [of r] by (auto simp: iter_next_None)
  then obtain x it where n: "iter_next (rights_iter_of r) = (Some x, it)"
    by (cases "iter_next (rights_iter_of r)") auto
  note x = iter_next_Some [OF Suc.prems n]
  have l: "rights_len r = Suc (rights_len (rights_without r x))" by (rule rights_len_without [OF Suc.prems x(1)])
  then have "count_loop (rights_iter_of (rights_without r x)) (rights_len (rights_without r x))"
    using Suc.hyps Suc.prems by simp
  then show ?case by (simp add: count_loop.simps [of "rights_iter_of r"] n x(3) l iter_len_of)
qed

lemma rights_test_count: "test_rights_iter_count_matches_len"
  by (simp add: test_rights_iter_count_matches_len_def list_all_iff Let_def iter_len_of count_loop_ok)

end
