(* ===== verification/LionTestTypes.thy ===== *)
theory LionTestTypes
  imports LionTest LionNames LionCap
begin

text \<open>
  The unit tests of \<open>types/policy.rs\<close>, \<open>types/capability.rs\<close>, \<open>types/runtime.rs\<close> and \<open>crypto.rs\<close>. The tests
  that loop over the three policy decisions loop over \<open>decisions\<close>. Those of the seals take the HMAC as a
  parameter; the ones that expect two seals to differ pass for an HMAC without collisions.
\<close>

section \<open>Policy\<close>

definition decisions :: "policy_decision list" where
  "decisions = [Permit, Deny, Indeterminate]"

definition make_test_action :: "policy_error + action" where
  "make_test_action = action_new 1 2 (rights_singleton Read) ''test''"

definition make_test_ctx :: policy_context where
  "make_test_ctx = context_new 100 (Some 1)"

definition test_combine_deny_left :: bool where
  "test_combine_deny_left \<longleftrightarrow> list_all (\<lambda>d. pd_combine Deny d = Deny) decisions"

definition test_combine_deny_right :: bool where
  "test_combine_deny_right \<longleftrightarrow> list_all (\<lambda>d. pd_combine d Deny = Deny) decisions"

definition test_and_policy_comm :: bool where
  "test_and_policy_comm \<longleftrightarrow>
     list_all (\<lambda>d1. list_all (\<lambda>d2. and_policy d1 d2 = and_policy d2 d1) decisions) decisions"

definition test_or_policy_comm :: bool where
  "test_or_policy_comm \<longleftrightarrow>
     list_all (\<lambda>d1. list_all (\<lambda>d2. or_policy d1 d2 = or_policy d2 d1) decisions) decisions"

definition test_and_policy_assoc :: bool where
  "test_and_policy_assoc \<longleftrightarrow>
     list_all (\<lambda>d1. list_all (\<lambda>d2. list_all (\<lambda>d3.
       and_policy (and_policy d1 d2) d3 = and_policy d1 (and_policy d2 d3)) decisions) decisions) decisions"

definition test_not_policy_involutive :: bool where
  "test_not_policy_involutive \<longleftrightarrow> list_all (\<lambda>d. not_policy (not_policy d) = d) decisions"

definition test_not_policy_values :: bool where
  "test_not_policy_values \<longleftrightarrow>
     not_policy Permit = Deny \<and> not_policy Deny = Permit \<and> not_policy Indeterminate = Indeterminate"

definition test_override_policy_indeterminate_left :: bool where
  "test_override_policy_indeterminate_left \<longleftrightarrow> list_all (\<lambda>d. override_policy Indeterminate d = d) decisions"

definition test_override_policy_determinate_absorbs :: bool where
  "test_override_policy_determinate_absorbs \<longleftrightarrow>
     list_all (\<lambda>d1. list_all (\<lambda>d2. override_policy d1 d2 = d1) decisions) [Permit, Deny]"

definition test_implies_policy_values :: bool where
  "test_implies_policy_values \<longleftrightarrow>
     list_all (\<lambda>d. implies_policy Permit d = d \<and> implies_policy Deny d = Permit
       \<and> implies_policy Indeterminate d = Indeterminate) decisions"

definition test_demorgan_laws :: bool where
  "test_demorgan_laws \<longleftrightarrow>
     list_all (\<lambda>p. list_all (\<lambda>q.
       not_policy (and_policy p q) = or_policy (not_policy p) (not_policy q)
       \<and> not_policy (or_policy p q) = and_policy (not_policy p) (not_policy q)) decisions) decisions"

definition test_policy_check_fail_closed :: bool where
  "test_policy_check_fail_closed \<longleftrightarrow>
     (let policy = policy_from_decision Indeterminate
      in unwrap_then make_test_action (\<lambda>action.
           let ctx = make_test_ctx; result = policy_check policy action ctx
           in result \<noteq> Indeterminate \<and> result = Deny))"

definition test_policy_check_sound :: bool where
  "test_policy_check_sound \<longleftrightarrow>
     list_all (\<lambda>decision. let policy = policy_from_decision decision
       in unwrap_then make_test_action (\<lambda>action.
            let ctx = make_test_ctx; result = policy_check policy action ctx
            in result = Permit \<or> result = Deny)) decisions"

definition test_deny_all_policy :: bool where
  "test_deny_all_policy \<longleftrightarrow>
     unwrap_then make_test_action (\<lambda>action. policy_eval policy_deny_all action make_test_ctx = Deny)"

definition test_permit_all_policy :: bool where
  "test_permit_all_policy \<longleftrightarrow>
     unwrap_then make_test_action (\<lambda>action. policy_eval policy_permit_all action make_test_ctx = Permit)"

definition test_policy_decision_fn_custom_policy :: bool where
  "test_policy_decision_fn_custom_policy \<longleftrightarrow>
     (let decide = Custom Indeterminate
      in unwrap_then make_test_action (\<lambda>action. pdf_eval decide action make_test_ctx = Indeterminate))"

definition test_action_validation :: bool where
  "test_action_validation \<longleftrightarrow>
     is_err (action_new 1 2 rights_empty []) \<and> is_ok (action_new 1 2 (rights_singleton Read) ''read'')"

definition test_policy_decision_from_str :: bool where
  "test_policy_decision_from_str \<longleftrightarrow>
     unwrap_then (decision_from_str ''permit'') (\<lambda>d. d = Permit)
     \<and> unwrap_then (decision_from_str ''DENY'') (\<lambda>d. d = Deny)
     \<and> unwrap_then (decision_from_str ''Indeterminate'') (\<lambda>d. d = Indeterminate)
     \<and> is_err (decision_from_str ''invalid'')"

definition test_policy_decision_from_str_whitespace :: bool where
  "test_policy_decision_from_str_whitespace \<longleftrightarrow>
     unwrap_then (decision_from_str '' permit '') (\<lambda>d. d = Permit)
     \<and> unwrap_then (decision_from_str (''deny'' @ [CHR 0x0A])) (\<lambda>d. d = Deny)
     \<and> unwrap_then (decision_from_str ([CHR 0x09] @ ''indeterminate'' @ [CHR 0x09])) (\<lambda>d. d = Indeterminate)"

lemma policy_tests:
  "test_combine_deny_left" "test_combine_deny_right" "test_and_policy_comm" "test_or_policy_comm"
  "test_and_policy_assoc" "test_not_policy_involutive" "test_not_policy_values"
  "test_override_policy_indeterminate_left" "test_override_policy_determinate_absorbs"
  "test_implies_policy_values" "test_demorgan_laws" "test_policy_check_fail_closed" "test_policy_check_sound"
  "test_deny_all_policy" "test_permit_all_policy" "test_policy_decision_fn_custom_policy"
  "test_action_validation" "test_policy_decision_from_str" "test_policy_decision_from_str_whitespace"
  by code_simp+

section \<open>Capabilities\<close>

text \<open>The \<open>Debug\<close> form of a key, a non-exhaustive structure with the length only, and \<open>str::contains\<close>.\<close>

definition key_debug :: "key \<Rightarrow> string" where
  "key_debug k = ''Key { len: '' @ show_nat (length (key_bytes k)) @ '', .. }''"

definition str_contains :: "string \<Rightarrow> string \<Rightarrow> bool" where
  "str_contains s p \<longleftrightarrow> list_ex (\<lambda>i. take (length p) (drop i s) = p) [0..<length s + 1]"

definition test_key_debug_does_not_leak :: bool where
  "test_key_debug_does_not_leak \<longleftrightarrow>
     (let key = key_from_bytes (map of_nat [1..<33]); debug = key_debug key
      in \<not> str_contains debug ''[1, 2, 3'' \<and> str_contains debug ''len'')"

text \<open>The form is the same for all keys of one length, so it says nothing of their bytes.\<close>

lemma key_debug_hides: "length (key_bytes k) = length (key_bytes k') \<Longrightarrow> key_debug k = key_debug k'"
  by (simp add: key_debug_def)

definition test_hash32_zero :: bool where
  "test_hash32_zero \<longleftrightarrow> (let zero = hash_zero in hash_is_zero zero \<and> hash_len zero = 32)"

definition test_capability_validation_holder :: bool where
  "test_capability_validation_holder \<longleftrightarrow>
     capability_new 1 0 1 (rights_singleton Read) None 0 tag_empty = Inl InvalidHolder"

definition test_capability_validation_rights :: bool where
  "test_capability_validation_rights \<longleftrightarrow> capability_new 1 1 1 rights_empty None 0 tag_empty = Inl EmptyRights"

definition test_capability_valid_creation :: bool where
  "test_capability_valid_creation \<longleftrightarrow>
     (let result = capability_new 1 1 1 (rights_singleton Read) None 0 tag_empty
      in is_ok result
       \<and> unwrap_then result (\<lambda>cap. cp_valid cap \<and> cp_id cap = 1 \<and> cp_holder cap = 1 \<and> cap_has_right cap Read))"

definition test_capability_payload_extraction :: bool where
  "test_capability_payload_extraction \<longleftrightarrow>
     unwrap_then (capability_new 1 42 100 (rights_singleton Write) (Some 0) 5 tag_empty) (\<lambda>cap.
       let payload = capability_payload cap
       in pl_holder payload = 42 \<and> pl_target payload = 100 \<and> pl_parent payload = Some 0 \<and> pl_epoch payload = 5)"

definition test_capability_revocation :: bool where
  "test_capability_revocation \<longleftrightarrow>
     unwrap_then (capability_new 1 1 1 (rights_singleton Read) None 0 tag_empty) (\<lambda>cap.
       cp_valid cap \<and> (let cap = cap_revoke cap in \<not> cp_valid cap))"

definition test_blake3hash_injectivity_by_construction :: bool where
  "test_blake3hash_injectivity_by_construction \<longleftrightarrow>
     (let h1 = blake3_new [1, 2, 3]; h2 = blake3_new [1, 2, 4]; h3 = blake3_new [1, 2, 3]
      in h1 \<noteq> h2 \<and> h1 = h3)"

definition test_log_event_creation :: bool where
  "test_log_event_creation \<longleftrightarrow>
     (let event = log_event_new 1 ''test_event'' [1, 2, 3] 1000000 1 hash_zero
      in le_id event = 1 \<and> le_event_type event = ''test_event'' \<and> le_payload event = [1, 2, 3]
       \<and> le_timestamp_us event = 1000000 \<and> le_version event = 1 \<and> hash_is_zero (le_prev_hash event))"

lemma capability_tests:
  "test_key_debug_does_not_leak" "test_hash32_zero" "test_capability_validation_holder" "test_capability_validation_rights"
  "test_capability_valid_creation" "test_capability_payload_extraction" "test_capability_revocation"
  "test_blake3hash_injectivity_by_construction" "test_log_event_creation"
  by code_simp+

section \<open>Runtime classification types\<close>

definition test_mem_region_kernel :: bool where
  "test_mem_region_kernel \<longleftrightarrow>
     (let region = MrKernel in mr_is_kernel region \<and> \<not> mr_is_plugin region \<and> mr_plugin_id region = None)"

definition test_mem_region_plugin :: bool where
  "test_mem_region_plugin \<longleftrightarrow>
     (let region = MrPlugin 42 in \<not> mr_is_kernel region \<and> mr_is_plugin region \<and> mr_plugin_id region = Some 42)"

definition test_msg_state_transitions :: bool where
  "test_msg_state_transitions \<longleftrightarrow>
     msg_is_in_transit Sent \<and> \<not> msg_is_terminal Sent
     \<and> msg_is_in_transit Queued \<and> \<not> msg_is_terminal Queued
     \<and> \<not> msg_is_in_transit Delivered \<and> msg_is_terminal Delivered \<and> msg_is_delivered Delivered
     \<and> \<not> msg_is_in_transit Dropped \<and> msg_is_terminal Dropped \<and> msg_is_dropped Dropped"

definition test_mem_region_from_str :: bool where
  "test_mem_region_from_str \<longleftrightarrow>
     unwrap_then (mr_from_str ''kernel'') (\<lambda>r. r = MrKernel)
     \<and> unwrap_then (mr_from_str ''KERNEL'') (\<lambda>r. r = MrKernel)
     \<and> unwrap_then (mr_from_str ''plugin:42'') (\<lambda>r. r = MrPlugin 42)
     \<and> unwrap_then (mr_from_str ''Plugin:0'') (\<lambda>r. r = MrPlugin 0)
     \<and> is_err (mr_from_str ''plugin:'') \<and> is_err (mr_from_str ''plugin:abc'') \<and> is_err (mr_from_str ''invalid'')"

definition test_mem_region_from_str_whitespace :: bool where
  "test_mem_region_from_str_whitespace \<longleftrightarrow>
     unwrap_then (mr_from_str '' kernel '') (\<lambda>r. r = MrKernel)
     \<and> unwrap_then (mr_from_str '' plugin:1 '') (\<lambda>r. r = MrPlugin 1)"

definition test_msg_state_from_str :: bool where
  "test_msg_state_from_str \<longleftrightarrow>
     unwrap_then (msg_from_str ''sent'') (\<lambda>m. m = Sent) \<and> unwrap_then (msg_from_str ''QUEUED'') (\<lambda>m. m = Queued)
     \<and> unwrap_then (msg_from_str ''Delivered'') (\<lambda>m. m = Delivered)
     \<and> unwrap_then (msg_from_str ''dropped'') (\<lambda>m. m = Dropped)
     \<and> is_err (msg_from_str ''invalid'')"

definition test_msg_state_from_str_whitespace :: bool where
  "test_msg_state_from_str_whitespace \<longleftrightarrow>
     unwrap_then (msg_from_str '' sent '') (\<lambda>m. m = Sent)
     \<and> unwrap_then (msg_from_str (''queued'' @ [CHR 0x0A])) (\<lambda>m. m = Queued)"

lemma runtime_tests:
  "test_mem_region_kernel" "test_mem_region_plugin" "test_msg_state_transitions" "test_mem_region_from_str"
  "test_mem_region_from_str_whitespace" "test_msg_state_from_str" "test_msg_state_from_str_whitespace"
  by code_simp+

section \<open>Seals\<close>

definition test_seal_verify_roundtrip :: "hmac_fun \<Rightarrow> bool" where
  "test_seal_verify_roundtrip hmac \<longleftrightarrow>
     (let key = key_from_bytes (replicate 32 1); payload = payload_new 1 100 (rights_singleton Read) None 0
      in some_then (seal_payload hmac key payload) (\<lambda>tag. some_then (verify_seal hmac key payload tag) (\<lambda>ok. ok)))"

definition test_wrong_key_fails :: "hmac_fun \<Rightarrow> bool" where
  "test_wrong_key_fails hmac \<longleftrightarrow>
     (let key1 = key_from_bytes (replicate 32 1); key2 = key_from_bytes (replicate 32 2);
          payload = payload_new 1 100 (rights_singleton Read) None 0
      in some_then (seal_payload hmac key1 payload) (\<lambda>tag. some_then (verify_seal hmac key2 payload tag) (\<lambda>ok. \<not> ok)))"

definition test_modified_payload_fails :: "hmac_fun \<Rightarrow> bool" where
  "test_modified_payload_fails hmac \<longleftrightarrow>
     (let key = key_from_bytes (replicate 32 1); payload1 = payload_new 1 100 (rights_singleton Read) None 0;
          payload2 = payload_new 1 101 (rights_singleton Read) None 0
      in some_then (seal_payload hmac key payload1) (\<lambda>tag. some_then (verify_seal hmac key payload2 tag) (\<lambda>ok. \<not> ok)))"

definition test_different_payloads_different_tags :: "hmac_fun \<Rightarrow> bool" where
  "test_different_payloads_different_tags hmac \<longleftrightarrow>
     (let key = key_from_bytes (replicate 32 1); p1 = payload_new 1 100 (rights_singleton Read) None 0;
          p2 = payload_new 2 100 (rights_singleton Read) None 0
      in some_then (seal_payload hmac key p1) (\<lambda>t1. some_then (seal_payload hmac key p2) (\<lambda>t2.
           tag_as_bytes t1 \<noteq> tag_as_bytes t2)))"

definition test_serialize_payload_length_stable :: bool where
  "test_serialize_payload_length_stable \<longleftrightarrow>
     (let payload = payload_new 1 100 (rights_singleton Read) None 0
      in some_then (serialize_payload payload) (\<lambda>data. length data = 64))"

definition test_parent_none_vs_some_zero_distinct :: "hmac_fun \<Rightarrow> bool" where
  "test_parent_none_vs_some_zero_distinct hmac \<longleftrightarrow>
     (let key = key_from_bytes (replicate 32 1); p_none = payload_new 1 100 (rights_singleton Read) None 0;
          p_zero = payload_new 1 100 (rights_singleton Read) (Some 0) 0
      in some_then (seal_payload hmac key p_none) (\<lambda>t_none. some_then (seal_payload hmac key p_zero) (\<lambda>t_zero.
           tag_as_bytes t_none \<noteq> tag_as_bytes t_zero)))"

definition test_parent_adjacent_ids_distinct :: "hmac_fun \<Rightarrow> bool" where
  "test_parent_adjacent_ids_distinct hmac \<longleftrightarrow>
     (let key = key_from_bytes (replicate 32 1); p1 = payload_new 1 100 (rights_singleton Read) (Some 42) 0;
          p2 = payload_new 1 100 (rights_singleton Read) (Some 43) 0
      in some_then (seal_payload hmac key p1) (\<lambda>t1. some_then (seal_payload hmac key p2) (\<lambda>t2.
           tag_as_bytes t1 \<noteq> tag_as_bytes t2)))"

text \<open>The panic of a payload whose parent is the largest identifier is the value \<open>None\<close>.\<close>

definition test_parent_u128_max_panics :: bool where
  "test_parent_u128_max_panics \<longleftrightarrow>
     (let payload = payload_new 1 100 (rights_singleton Read) (Some (- 1)) 0 in serialize_payload payload = None)"

lemma seal_tests: "test_seal_verify_roundtrip hmac" "test_serialize_payload_length_stable" "test_parent_u128_max_panics"
proof -
  obtain d where "serialize_payload (payload_new 1 100 (rights_singleton Read) None 0) = Some d"
    by (simp add: serialize_payload_def payload_new_def parent_val_def)
  then show "test_seal_verify_roundtrip hmac"
    by (simp add: test_seal_verify_roundtrip_def seal_payload_def verify_seal_def constant_time_eq_def)
  show "test_serialize_payload_length_stable" by code_simp
  show "test_parent_u128_max_panics" by code_simp
qed

text \<open>The other tests expect that no two of their inputs collide under the HMAC; they pass for every HMAC of
  which this is so.\<close>

lemma seal_tests_distinct:
  assumes "inj (\<lambda>(k, d). hmac k d)"
  shows "test_wrong_key_fails hmac" "test_modified_payload_fails hmac" "test_different_payloads_different_tags hmac"
    "test_parent_none_vs_some_zero_distinct hmac" "test_parent_adjacent_ids_distinct hmac"
proof -
  have h: "hmac k d = hmac k' d' \<longleftrightarrow> k = k' \<and> d = d'" for k d k' d'
    using injD [OF assms, of "(k, d)" "(k', d')"] by auto
  have sealed: "some_then (seal_payload hmac k p) f \<longleftrightarrow> some_then (serialize_payload p) (\<lambda>d. f \<lparr>tag_bytes = hmac (key_bytes k) d\<rparr>)"
    for k p f by (simp add: seal_payload_def some_then_def split: option.split)
  have checked: "some_then (verify_seal hmac k p t) f \<longleftrightarrow>
      some_then (serialize_payload p) (\<lambda>d. f (hmac (key_bytes k) d = tag_bytes t))" for k p t f
    by (auto simp add: verify_seal_def constant_time_eq_def some_then_def split: option.split)
  let ?P = "\<lambda>h t p. payload_new h t (rights_singleton Read) p 0"
  let ?s = "\<lambda>x y f. some_then (serialize_payload x) (\<lambda>d. some_then (serialize_payload y) (\<lambda>e. f d e))"
  have "?s (?P 1 100 None) (?P 1 101 None) (\<noteq>)" "?s (?P 1 100 None) (?P 2 100 None) (\<noteq>)"
    "?s (?P 1 100 None) (?P 1 100 (Some 0)) (\<noteq>)" "?s (?P 1 100 (Some 42)) (?P 1 100 (Some 43)) (\<noteq>)"
    "?s (?P 1 100 None) (?P 1 100 None) (\<lambda>d e. True)"
    by code_simp+
  then show "test_wrong_key_fails hmac" "test_modified_payload_fails hmac" "test_different_payloads_different_tags hmac"
    "test_parent_none_vs_some_zero_distinct hmac" "test_parent_adjacent_ids_distinct hmac"
    unfolding test_wrong_key_fails_def test_modified_payload_fails_def test_different_payloads_different_tags_def
      test_parent_none_vs_some_zero_distinct_def test_parent_adjacent_ids_distinct_def Let_def sealed checked
    by (auto simp: h tag_as_bytes_def key_from_bytes_def some_then_def split: option.splits)
qed

end
