(* ===== verification/LionTestData.thy ===== *)
theory LionTestData
  imports LionTest LionStepBase
begin

text \<open>
  The unit tests of \<open>state/memory.rs\<close>, \<open>state/plugin.rs\<close> and \<open>state/actor.rs\<close>. Tests that write to memory are
  proved from the read-after-write laws (evaluation would build pages of 4096 bytes), the others by evaluation.
\<close>

section \<open>Linear memory and resources\<close>

definition test_linear_memory_empty :: bool where
  "test_linear_memory_empty \<longleftrightarrow> (let mem = mem_empty 1024 in lm_bounds mem = 1024 \<and> mem_is_empty mem)"

definition test_linear_memory_read_uninitialized :: bool where
  "test_linear_memory_read_uninitialized \<longleftrightarrow>
     (let mem = mem_empty 1024 in mem_read mem 0 = 0 \<and> mem_read mem 100 = 0 \<and> mem_read mem 1023 = 0)"

definition test_linear_memory_write_read :: bool where
  "test_linear_memory_write_read \<longleftrightarrow>
     (let mem = mem_empty 1024; mem = mem_write mem 100 42
      in mem_read mem 100 = 42 \<and> mem_read mem 99 = 0 \<and> mem_read mem 101 = 0)"

definition test_linear_memory_bounds_check :: bool where
  "test_linear_memory_bounds_check \<longleftrightarrow>
     (let mem = mem_empty 1024
      in addr_in_bounds mem 0 1024 \<and> addr_in_bounds mem 1023 1 \<and> \<not> addr_in_bounds mem 1024 1
       \<and> \<not> addr_in_bounds mem 0 1025 \<and> \<not> addr_in_bounds mem (- 1) 1)"

definition test_linear_memory_read_range :: bool where
  "test_linear_memory_read_range \<longleftrightarrow>
     (let mem = mem_empty 1024; mem = mem_write mem 10 1; mem = mem_write mem 11 2; mem = mem_write mem 12 3;
          result = read_range mem 10 3
      in is_ok result \<and> result = Inr [1, 2, 3])"

definition test_linear_memory_read_range_out_of_bounds :: bool where
  "test_linear_memory_read_range_out_of_bounds \<longleftrightarrow>
     (let mem = mem_empty 100; result = read_range mem 90 20
      in err_then result (\<lambda>e. case e of OutOfBounds _ _ _ \<Rightarrow> True | _ \<Rightarrow> False))"

definition test_resource_status :: bool where
  "test_resource_status \<longleftrightarrow>
     (let unalloc = Unallocated; alloc = Allocated 42; freed = Freed
      in rs_is_unallocated unalloc \<and> \<not> rs_is_allocated unalloc \<and> \<not> rs_is_freed unalloc \<and> rs_owner unalloc = None
       \<and> \<not> rs_is_unallocated alloc \<and> rs_is_allocated alloc \<and> \<not> rs_is_freed alloc \<and> rs_owner alloc = Some 42
       \<and> \<not> rs_is_unallocated freed \<and> \<not> rs_is_allocated freed \<and> rs_is_freed freed \<and> rs_owner freed = None)"

definition test_meta_state_empty :: bool where
  "test_meta_state_empty \<longleftrightarrow>
     (let ms = meta_empty in allocated_count ms = 0 \<and> freed_count ms = 0 \<and> \<not> is_live ms 0)"

definition test_meta_state_alloc_makes_live :: bool where
  "test_meta_state_alloc_makes_live \<longleftrightarrow>
     (let ms = meta_empty; ms = meta_alloc ms 100 1 in is_live ms 100 \<and> allocated_count ms = 1)"

definition test_meta_state_free_makes_not_live :: bool where
  "test_meta_state_free_makes_not_live \<longleftrightarrow>
     (let ms0 = meta_empty; ms1 = meta_alloc ms0 100 1; ms2 = meta_free ms1 100
      in is_live ms1 100 \<and> \<not> is_live ms2 100 \<and> is_freed ms2 100)"

definition test_meta_state_alloc_preserves_live :: bool where
  "test_meta_state_alloc_preserves_live \<longleftrightarrow>
     (let ms = meta_empty; ms = meta_alloc ms 100 1; ms = meta_alloc ms 200 2
      in is_live ms 100 \<and> is_live ms 200)"

definition test_meta_state_free_preserves_live :: bool where
  "test_meta_state_free_preserves_live \<longleftrightarrow>
     (let ms = meta_empty; ms = meta_alloc ms 100 1; ms = meta_alloc ms 200 2; ms = meta_free ms 100
      in \<not> is_live ms 100 \<and> is_live ms 200)"

definition test_meta_state_double_free_detection :: bool where
  "test_meta_state_double_free_detection \<longleftrightarrow>
     (let ms = meta_alloc_mut meta_empty 100 1
      in unwrap_then (meta_free_mut ms 100) (\<lambda>ms. meta_free_mut ms 100 = Inl (DoubleFree 100)))"

definition test_linear_memory_page_spanning_write_read :: bool where
  "test_linear_memory_page_spanning_write_read \<longleftrightarrow>
     (let mem = mem_empty 8192; boundary = of_nat PAGE_SIZE - 2; data = [0xAA, 0xBB, 0xCC, 0xDD]
      in unwrap_then (write_range mem boundary data) (\<lambda>mem.
           unwrap_then (read_range mem boundary 4) (\<lambda>read_back. read_back = data)
           \<and> mem_read mem boundary = 0xAA \<and> mem_read mem (boundary + 1) = 0xBB
           \<and> mem_read mem (boundary + 2) = 0xCC \<and> mem_read mem (boundary + 3) = 0xDD))"

lemma memory_tests:
  "test_linear_memory_empty" "test_linear_memory_read_uninitialized" "test_linear_memory_bounds_check"
  "test_linear_memory_read_range_out_of_bounds" "test_resource_status" "test_meta_state_empty"
  "test_meta_state_alloc_makes_live" "test_meta_state_free_makes_not_live" "test_meta_state_alloc_preserves_live"
  "test_meta_state_free_preserves_live" "test_meta_state_double_free_detection"
  by code_simp+

text \<open>A written byte is a chunk of length one.\<close>

lemma mem_write_chunk:
  "mem_wf m \<Longrightarrow> mem_write m a v = write_chunk m (page_of a) (offset_in_page a) [v]"
  using length_page_entry [of m "page_of a"] offset_less [of a]
  by (simp add: mem_write_def write_mut_def write_chunk_def Let_def upd_conv_take_nth_drop)

lemma mem_write_facts:
  assumes "mem_wf m"
  shows "mem_wf (mem_write m a v)" "lm_bounds (mem_write m a v) = lm_bounds m"
    "mem_read (mem_write m a v) b = (if b = a then v else mem_read m b)"
  using chunk_read [OF assms, of a "[v]" b] write_chunk_wf [OF assms, of "offset_in_page a" "[v]"] offset_less [of a]
  by (auto simp: mem_write_chunk [OF assms] word_unat_eq_iff)

lemma mem_empty_facts: "mem_read (mem_empty n) a = 0" "lm_bounds (mem_empty n) = n"
  by (simp_all add: mem_empty_def mem_read_def table_eval)

lemma memory_tests_written: "test_linear_memory_write_read" "test_linear_memory_read_range"
  by (simp_all add: test_linear_memory_write_read_def test_linear_memory_read_range_def mem_write_facts
      mem_empty_facts read_range_eq upt_rec)

lemma memory_test_spanning: "test_linear_memory_page_spanning_write_read"
proof -
  let ?d = "[0xAA, 0xBB, 0xCC, 0xDD] :: u8 list"
  let ?m = "write_range_loop (mem_empty 8192) ?d 4094 0"
  have m: "mem_wf ?m" "lm_bounds ?m = 8192"
      "\<And>a. mem_read ?m a = (if 4094 \<le> unat a \<and> unat a < 4098 then ?d ! (unat a - 4094) else 0)"
    using write_range_loop_spec [of "mem_empty 8192" 0 ?d 4094] by (simp_all add: mem_empty_facts)
  have "write_range (mem_empty 8192) 4094 ?d = Inr ?m"
    by (simp add: write_range_def write_range_mut_def addr_in_bounds_iff mem_empty_facts)
  then show ?thesis using m
    by (simp add: test_linear_memory_page_spanning_write_read_def PAGE_SIZE_def read_range_eq upt_rec)
qed

section \<open>Plugin state\<close>

definition test_plugin_local_default :: bool where
  "test_plugin_local_default \<longleftrightarrow> (let local = PluginLocal in local = PluginLocal)"

definition test_plugin_state_empty :: bool where
  "test_plugin_state_empty \<longleftrightarrow>
     (let ps = plugin_empty Confidential 1024
      in pg_level ps = Confidential \<and> memory_bounds ps = 1024 \<and> held_cap_count ps = 0)"

definition test_plugin_state_default_level :: bool where
  "test_plugin_state_default_level \<longleftrightarrow> (let ps = plugin_default in pg_level ps = Public)"

definition test_plugin_state_grant_cap :: bool where
  "test_plugin_state_grant_cap \<longleftrightarrow>
     (let ps = plugin_empty Public 0; ps1 = grant_cap_mut ps 42; ps2 = grant_cap_mut ps1 42
      in holds_cap ps1 42 \<and> held_cap_count ps1 = 1 \<and> holds_cap ps2 42 \<and> held_cap_count ps2 = 1)"

definition test_plugin_state_grant_cap_mem :: bool where
  "test_plugin_state_grant_cap_mem \<longleftrightarrow>
     (let ps = plugin_empty Public 0; ps = grant_cap ps 42 in holds_cap ps 42)"

definition test_plugin_state_grant_cap_preserves :: bool where
  "test_plugin_state_grant_cap_preserves \<longleftrightarrow>
     (let ps = plugin_empty Public 0; ps = grant_cap ps 1; ps = grant_cap ps 2
      in holds_cap ps 1 \<and> holds_cap ps 2)"

definition test_plugin_state_revoke_cap_not_mem :: bool where
  "test_plugin_state_revoke_cap_not_mem \<longleftrightarrow>
     (let ps = plugin_empty Public 0; ps = grant_cap ps 42; ps = plugin_revoke_cap ps 42
      in \<not> holds_cap ps 42 \<and> held_cap_count ps = 0)"

definition test_plugin_state_revoke_cap_preserves :: bool where
  "test_plugin_state_revoke_cap_preserves \<longleftrightarrow>
     (let ps = plugin_empty Public 0; ps = grant_cap ps 1; ps = grant_cap ps 2; ps = plugin_revoke_cap ps 1
      in \<not> holds_cap ps 1 \<and> holds_cap ps 2)"

definition test_plugin_state_grant_cap_memory :: bool where
  "test_plugin_state_grant_cap_memory \<longleftrightarrow>
     (let ps = plugin_empty Public 1024; old_memory = pg_memory ps; ps = grant_cap ps 42
      in pg_memory ps = old_memory)"

definition test_plugin_state_grant_cap_memory_bounds :: bool where
  "test_plugin_state_grant_cap_memory_bounds \<longleftrightarrow>
     (let ps = plugin_empty Public 1024; ps = grant_cap ps 42 in memory_bounds ps = 1024)"

definition test_plugin_state_grant_cap_level :: bool where
  "test_plugin_state_grant_cap_level \<longleftrightarrow>
     (let ps = plugin_empty Confidential 0; ps = grant_cap ps 42 in pg_level ps = Confidential)"

definition test_plugin_state_grant_cap_local_state :: bool where
  "test_plugin_state_grant_cap_local_state \<longleftrightarrow>
     (let ps = plugin_empty Public 0; old_local = pg_local_state ps; ps = grant_cap ps 42
      in pg_local_state ps = old_local)"

definition test_plugin_state_held_caps_iterator :: bool where
  "test_plugin_state_held_caps_iterator \<longleftrightarrow>
     (let ps = plugin_empty Public 0; ps = grant_cap_mut ps 1; ps = grant_cap_mut ps 3; ps = grant_cap_mut ps 2
      in pg_held_caps ps = [1, 2, 3])"

definition test_default_quota :: bool where
  "test_default_quota \<longleftrightarrow>
     (let ps = plugin_default
      in pg_memory_quota ps = DEFAULT_QUOTA \<and> pg_memory_used ps = 0 \<and> pg_cap_quota ps = DEFAULT_QUOTA
       \<and> pg_ipc_queue_limit ps = DEFAULT_QUOTA)"

definition test_with_quotas :: bool where
  "test_with_quotas \<longleftrightarrow>
     (let ps = plugin_with_quotas Confidential 1024 4096 10 100
      in pg_level ps = Confidential \<and> memory_bounds ps = 1024 \<and> pg_memory_quota ps = 4096
       \<and> pg_cap_quota ps = 10 \<and> pg_ipc_queue_limit ps = 100)"

definition test_can_alloc_memory :: bool where
  "test_can_alloc_memory \<longleftrightarrow>
     (let ps = plugin_with_quotas Public 0 1000 10 100
      in can_alloc_memory ps 500 \<and> can_alloc_memory ps 1000 \<and> \<not> can_alloc_memory ps 1001)"

definition test_alloc_memory_tracking :: bool where
  "test_alloc_memory_tracking \<longleftrightarrow>
     (let ps0 = plugin_with_quotas Public 0 1000 10 100;
          (ok1, ps1) = alloc_memory ps0 400; (ok2, ps2) = alloc_memory ps1 400;
          (ok3, ps3) = alloc_memory ps2 300; (ok4, ps4) = alloc_memory ps3 200
      in ok1 \<and> pg_memory_used ps1 = 400 \<and> ok2 \<and> pg_memory_used ps2 = 800
       \<and> \<not> ok3 \<and> pg_memory_used ps3 = 800 \<and> ok4 \<and> pg_memory_used ps4 = 1000)"

definition test_free_memory_tracking :: bool where
  "test_free_memory_tracking \<longleftrightarrow>
     (let ps0 = plugin_with_quotas Public 0 1000 10 100; ps1 = snd (alloc_memory ps0 800);
          ps2 = free_memory ps1 300; (ok, ps3) = alloc_memory ps2 500
      in pg_memory_used ps1 = 800 \<and> pg_memory_used ps2 = 500 \<and> can_alloc_memory ps2 500
       \<and> ok \<and> pg_memory_used ps3 = 1000)"

definition test_can_hold_cap :: bool where
  "test_can_hold_cap \<longleftrightarrow>
     (let ps0 = plugin_with_quotas Public 0 1000 3 100; ps1 = grant_cap_mut ps0 1; ps2 = grant_cap_mut ps1 2;
          ps3 = grant_cap_mut ps2 3; ps4 = plugin_revoke_cap_mut ps3 1
      in can_hold_cap ps0 \<and> can_hold_cap ps1 \<and> can_hold_cap ps2 \<and> \<not> can_hold_cap ps3 \<and> can_hold_cap ps4)"

definition test_can_queue_ipc :: bool where
  "test_can_queue_ipc \<longleftrightarrow>
     (let ps = plugin_with_quotas Public 0 1000 10 5
      in can_queue_ipc ps 0 \<and> can_queue_ipc ps 4 \<and> \<not> can_queue_ipc ps 5 \<and> \<not> can_queue_ipc ps 100)"

definition test_quota_overflow_safety :: bool where
  "test_quota_overflow_safety \<longleftrightarrow>
     (let ps = plugin_with_quotas Public 0 (- 1) 10 100; ps = ps\<lparr>pg_memory_used := - 1 - 10\<rparr>
      in \<not> can_alloc_memory ps 100 \<and> can_alloc_memory ps 5)"

lemma plugin_tests:
  "test_plugin_local_default" "test_plugin_state_empty" "test_plugin_state_default_level"
  "test_plugin_state_grant_cap" "test_plugin_state_grant_cap_mem" "test_plugin_state_grant_cap_preserves"
  "test_plugin_state_revoke_cap_not_mem" "test_plugin_state_revoke_cap_preserves"
  "test_plugin_state_grant_cap_memory" "test_plugin_state_grant_cap_memory_bounds"
  "test_plugin_state_grant_cap_level" "test_plugin_state_grant_cap_local_state"
  "test_plugin_state_held_caps_iterator"
  by code_simp+

lemma quota_tests:
  "test_default_quota" "test_with_quotas" "test_can_alloc_memory" "test_alloc_memory_tracking"
  "test_free_memory_tracking" "test_can_hold_cap" "test_can_queue_ipc" "test_quota_overflow_safety"
  by code_simp+

section \<open>Actor runtime\<close>

definition make_test_message :: "msg_id \<Rightarrow> message" where
  "make_test_message i = message_new i 1 2 Public [1, 2, 3]"

definition test_actor_runtime_empty :: bool where
  "test_actor_runtime_empty \<longleftrightarrow>
     (let ar = actor_empty 10
      in ar_capacity ar = 10 \<and> pending_len ar = 0 \<and> mailbox_len ar = 0 \<and> \<not> can_receive ar \<and> \<not> is_blocked ar)"

definition test_actor_runtime_enqueue_pending :: bool where
  "test_actor_runtime_enqueue_pending \<longleftrightarrow>
     (let ar = actor_empty 10; msg = make_test_message 1; ar = enqueue_pending_mut ar msg in pending_len ar = 1)"

definition test_actor_runtime_enqueue_pending_increases :: bool where
  "test_actor_runtime_enqueue_pending_increases \<longleftrightarrow>
     (let ar = actor_empty 10; msg = make_test_message 1; ar2 = enqueue_pending ar msg
      in pending_len ar2 = pending_len ar + 1)"

definition test_actor_runtime_enqueue_pending_preserves_mailbox :: bool where
  "test_actor_runtime_enqueue_pending_preserves_mailbox \<longleftrightarrow>
     (let ar = actor_empty 10; msg = make_test_message 1; ar2 = enqueue_pending ar msg
      in mailbox_len ar2 = mailbox_len ar)"

definition test_actor_runtime_deliver :: bool where
  "test_actor_runtime_deliver \<longleftrightarrow>
     (let ar = actor_empty 10; msg = make_test_message 1; ar1 = enqueue_pending_mut ar msg;
          (result, ar2) = deliver_mut ar1
      in pending_len ar1 = 1 \<and> mailbox_len ar1 = 0
       \<and> result = Inr True \<and> pending_len ar2 = 0 \<and> mailbox_len ar2 = 1)"

definition test_actor_runtime_deliver_decreases_pending :: bool where
  "test_actor_runtime_deliver_decreases_pending \<longleftrightarrow>
     (let ar = actor_empty 10; msg = make_test_message 1; ar = enqueue_pending ar msg; ar2 = deliver ar
      in pending_len ar2 < pending_len ar)"

definition test_actor_runtime_deliver_increases_mailbox :: bool where
  "test_actor_runtime_deliver_increases_mailbox \<longleftrightarrow>
     (let ar = actor_empty 10; msg = make_test_message 1; ar = enqueue_pending ar msg; ar2 = deliver ar
      in mailbox_len ar2 = mailbox_len ar + 1)"

definition test_actor_runtime_consume :: bool where
  "test_actor_runtime_consume \<longleftrightarrow>
     (let ar0 = actor_empty 10; msg = make_test_message 42; ar1 = enqueue_pending_mut ar0 msg;
          (delivered, ar2) = deliver_mut ar1; (consumed, ar3) = consume_mut ar2
      in is_ok delivered \<and> consumed \<noteq> None \<and> map_option mg_id consumed = Some 42 \<and> mailbox_len ar3 = 0)"

definition test_actor_runtime_consume_decreases_mailbox :: bool where
  "test_actor_runtime_consume_decreases_mailbox \<longleftrightarrow>
     (let ar = actor_empty 10; msg = make_test_message 1; ar = enqueue_pending ar msg; ar = deliver ar;
          (ar2, _) = consume ar
      in mailbox_len ar2 < mailbox_len ar)"

definition test_actor_runtime_consume_preserves_capacity :: bool where
  "test_actor_runtime_consume_preserves_capacity \<longleftrightarrow>
     (let ar = actor_empty 10; msg = make_test_message 1; ar = enqueue_pending ar msg; ar = deliver ar;
          (ar2, _) = consume ar
      in ar_capacity ar2 = ar_capacity ar)"

definition test_actor_runtime_consume_preserves_blocked_on :: bool where
  "test_actor_runtime_consume_preserves_blocked_on \<longleftrightarrow>
     (let ar = actor_empty 10; msg = make_test_message 1; ar = enqueue_pending ar msg; ar = deliver ar;
          ar = set_blocked ar 99; (ar2, _) = consume ar
      in ar_blocked_on ar2 = ar_blocked_on ar)"

definition test_actor_runtime_set_blocked :: bool where
  "test_actor_runtime_set_blocked \<longleftrightarrow>
     (let ar = actor_empty 10; ar2 = set_blocked ar 42 in ar_blocked_on ar2 = Some 42)"

definition test_actor_runtime_set_blocked_preserves_mailbox :: bool where
  "test_actor_runtime_set_blocked_preserves_mailbox \<longleftrightarrow>
     (let ar = actor_empty 10; ar2 = set_blocked ar 42 in mailbox_len ar2 = mailbox_len ar)"

definition test_actor_runtime_unblock_clears :: bool where
  "test_actor_runtime_unblock_clears \<longleftrightarrow>
     (let ar = actor_empty 10; ar = set_blocked ar 42; ar2 = unblock ar in ar_blocked_on ar2 = None)"

definition test_actor_runtime_unblock_preserves_mailbox :: bool where
  "test_actor_runtime_unblock_preserves_mailbox \<longleftrightarrow>
     (let ar = actor_empty 10; ar = set_blocked ar 42; ar2 = unblock ar in mailbox_len ar2 = mailbox_len ar)"

definition test_actor_runtime_mailbox_full :: bool where
  "test_actor_runtime_mailbox_full \<longleftrightarrow>
     (let ar0 = actor_empty 2; ar1 = enqueue_pending_mut ar0 (make_test_message 1); (d1, ar2) = deliver_mut ar1;
          ar3 = enqueue_pending_mut ar2 (make_test_message 2); (d2, ar4) = deliver_mut ar3;
          ar5 = enqueue_pending_mut ar4 (make_test_message 3); (result, ar6) = deliver_mut ar5
      in is_ok d1 \<and> is_ok d2 \<and> \<not> mailbox_has_space ar4 \<and> mailbox_len ar4 = 2 \<and> result = Inr False)"

definition test_message_accessors :: bool where
  "test_message_accessors \<longleftrightarrow>
     (let msg = message_new 42 1 2 Confidential [10, 20, 30]
      in mg_id msg = 42 \<and> mg_src msg = 1 \<and> mg_dst msg = 2 \<and> mg_level msg = Confidential
       \<and> mg_body msg = [10, 20, 30])"

lemma actor_tests:
  "test_actor_runtime_empty" "test_actor_runtime_enqueue_pending" "test_actor_runtime_enqueue_pending_increases"
  "test_actor_runtime_enqueue_pending_preserves_mailbox" "test_actor_runtime_deliver"
  "test_actor_runtime_deliver_decreases_pending" "test_actor_runtime_deliver_increases_mailbox"
  "test_actor_runtime_consume" "test_actor_runtime_consume_decreases_mailbox"
  "test_actor_runtime_consume_preserves_capacity" "test_actor_runtime_consume_preserves_blocked_on"
  "test_actor_runtime_set_blocked" "test_actor_runtime_set_blocked_preserves_mailbox"
  "test_actor_runtime_unblock_clears" "test_actor_runtime_unblock_preserves_mailbox"
  "test_actor_runtime_mailbox_full" "test_message_accessors"
  by code_simp+

end
