(* ===== verification/LionTestKernelState.thy ===== *)
theory LionTestKernelState
  imports LionTest LionKernelState
begin

text \<open>
  The unit tests of \<open>state/kernel.rs\<close>: the capability table, the kernel state, the keys and the sorted tables of
  \<open>KernelStateCore\<close>. Rotating a key panics at the last epoch, so a rotation is under \<open>some_then\<close>.
\<close>

definition make_test_cap :: "cap_id \<Rightarrow> cap_id option \<Rightarrow> capability_error + capability" where
  "make_test_cap i parent = capability_new i 1 1 (rights_singleton Read) parent 0 tag_empty"

text \<open>\<open>rs.insert_mut(make_test_cap(id, parent)).expect(..)\<close>, and what the test does next.\<close>

definition insert_test :: "cap_id \<Rightarrow> cap_id option \<Rightarrow> revocation_state \<Rightarrow> (revocation_state \<Rightarrow> bool) \<Rightarrow> bool" where
  "insert_test i parent rs k = unwrap_then (make_test_cap i parent) (\<lambda>cap. unwrap_then (rev_insert_mut rs cap) k)"

section \<open>The capability table\<close>

definition test_revocation_state_empty :: bool where
  "test_revocation_state_empty \<longleftrightarrow>
     (let rs = rev_empty in rev_cap_count rs = 0 \<and> rv_epoch rs = 0 \<and> \<not> rev_is_valid rs 0)"

definition test_revocation_state_insert :: bool where
  "test_revocation_state_insert \<longleftrightarrow>
     insert_test 1 None rev_empty (\<lambda>rs. rev_cap_count rs = 1 \<and> rev_contains rs 1 \<and> rev_is_valid rs 1)"

definition test_revocation_state_insert_collision :: bool where
  "test_revocation_state_insert_collision \<longleftrightarrow>
     insert_test 1 None rev_empty (\<lambda>rs.
       unwrap_then (make_test_cap 1 None) (\<lambda>cap2. rev_insert_mut rs cap2 = Inl (CapIdCollision 1)))"

definition test_revocation_state_insert_sorted :: bool where
  "test_revocation_state_insert_sorted \<longleftrightarrow>
     insert_test 5 None rev_empty (\<lambda>rs. insert_test 2 None rs (\<lambda>rs. insert_test 8 None rs (\<lambda>rs.
       insert_test 1 None rs (\<lambda>rs. rev_cap_ids rs = [1, 2, 5, 8]))))"

definition test_revocation_state_revoke :: bool where
  "test_revocation_state_revoke \<longleftrightarrow>
     insert_test 1 None rev_empty (\<lambda>rs. rev_is_valid rs 1
       \<and> unwrap_then (rev_revoke_mut rs 1) (\<lambda>rs. \<not> rev_is_valid rs 1))"

text \<open>The chain of delegations 1, 2, 3.\<close>

definition chain_test :: "(revocation_state \<Rightarrow> bool) \<Rightarrow> bool" where
  "chain_test k = insert_test 1 None rev_empty (\<lambda>rs. insert_test 2 (Some 1) rs (\<lambda>rs. insert_test 3 (Some 2) rs k))"

definition test_revocation_state_has_ancestor :: bool where
  "test_revocation_state_has_ancestor \<longleftrightarrow>
     chain_test (\<lambda>rs. has_ancestor rs 2 1 \<and> has_ancestor rs 3 2 \<and> has_ancestor rs 3 1
       \<and> \<not> has_ancestor rs 1 2 \<and> \<not> has_ancestor rs 1 3 \<and> \<not> has_ancestor rs 2 3)"

definition test_revocation_state_revoke_transitive :: bool where
  "test_revocation_state_revoke_transitive \<longleftrightarrow>
     chain_test (\<lambda>rs. rev_is_valid rs 1 \<and> rev_is_valid rs 2 \<and> rev_is_valid rs 3
       \<and> (let rs = revoke_transitive_mut rs 1
          in \<not> rev_is_valid rs 1 \<and> \<not> rev_is_valid rs 2 \<and> \<not> rev_is_valid rs 3))"

definition test_revocation_state_revoke_transitive_partial :: bool where
  "test_revocation_state_revoke_transitive_partial \<longleftrightarrow>
     chain_test (\<lambda>rs. let rs = revoke_transitive_mut rs 2
       in rev_is_valid rs 1 \<and> \<not> rev_is_valid rs 2 \<and> \<not> rev_is_valid rs 3)"

definition test_revocation_state_single_element :: bool where
  "test_revocation_state_single_element \<longleftrightarrow>
     insert_test 42 None rev_empty (\<lambda>rs. rev_is_valid rs 42 \<and> \<not> rev_is_valid rs 41 \<and> \<not> rev_is_valid rs 43
       \<and> rev_cap_count rs = 1)"

definition test_revocation_state_insert_at_boundaries :: bool where
  "test_revocation_state_insert_at_boundaries \<longleftrightarrow>
     insert_test 100 None rev_empty (\<lambda>rs. insert_test 1 None rs (\<lambda>rs. insert_test 50 None rs (\<lambda>rs.
       rev_cap_ids rs = [1, 50, 100])))"

lemma revocation_tests:
  "test_revocation_state_empty" "test_revocation_state_insert" "test_revocation_state_insert_collision"
  "test_revocation_state_insert_sorted" "test_revocation_state_revoke" "test_revocation_state_has_ancestor"
  "test_revocation_state_revoke_transitive" "test_revocation_state_revoke_transitive_partial"
  "test_revocation_state_single_element" "test_revocation_state_insert_at_boundaries"
  by code_simp+

section \<open>The kernel state\<close>

definition test_kernel_state_initial :: bool where
  "test_kernel_state_initial \<longleftrightarrow>
     (let key = key_empty; policy = policy_deny_all; ks = kernel_state_initial key policy
      in ks_now ks = 0 \<and> rev_cap_count (ks_revocation ks) = 0)"

definition test_kernel_state_tick :: bool where
  "test_kernel_state_tick \<longleftrightarrow>
     (let ks = kernel_state_default
      in ks_now ks = 0 \<and> unwrap_then (tick_checked ks) (\<lambda>ks. ks_now ks = 1
       \<and> unwrap_then (tick_checked ks) (\<lambda>ks. ks_now ks = 2)))"

definition test_kernel_state_cap_not_revoked :: bool where
  "test_kernel_state_cap_not_revoked \<longleftrightarrow>
     (let ks = kernel_state_default
      in unwrap_then (make_test_cap 1 None) (\<lambda>cap. \<not> cap_not_revoked ks cap
       \<and> unwrap_then (rev_insert_mut (ks_revocation ks) cap) (\<lambda>r.
         let ks = revocation_mut (\<lambda>_. r) ks
         in cap_not_revoked ks cap \<and> unwrap_then (rev_revoke_mut (ks_revocation ks) 1) (\<lambda>r.
              let ks = revocation_mut (\<lambda>_. r) ks in \<not> cap_not_revoked ks cap))))"

definition test_key_state_initial :: bool where
  "test_key_state_initial \<longleftrightarrow>
     (let key = key_from_bytes (replicate 32 1); ks = key_state_initial key
      in ky_epoch ks = 0 \<and> ky_previous ks = None \<and> ky_previous_epoch ks = None)"

definition test_key_state_rotation :: bool where
  "test_key_state_rotation \<longleftrightarrow>
     (let key1 = key_from_bytes (replicate 32 1); key2 = key_from_bytes (replicate 32 2);
          ks = key_state_initial key1
      in some_then (key_rotate ks key2) (\<lambda>ks.
           ky_epoch ks = 1 \<and> ky_previous ks \<noteq> None \<and> ky_previous_epoch ks = Some 0
         \<and> key_as_bytes (ky_current ks) = key_as_bytes key2
         \<and> some_then (ky_previous ks) (\<lambda>k. key_as_bytes k = key_as_bytes key1)))"

definition test_key_state_epoch_valid :: bool where
  "test_key_state_epoch_valid \<longleftrightarrow>
     (let key1 = key_from_bytes (replicate 32 1); key2 = key_from_bytes (replicate 32 2);
          ks = key_state_initial key1
      in epoch_valid ks 0 \<and> epoch_valid ks 1
       \<and> some_then (key_rotate ks key2) (\<lambda>ks. epoch_valid ks 1 \<and> epoch_valid ks 0 \<and> epoch_valid ks 2))"

definition test_key_state_multiple_rotations :: bool where
  "test_key_state_multiple_rotations \<longleftrightarrow>
     (let key1 = key_from_bytes (replicate 32 1); key2 = key_from_bytes (replicate 32 2);
          key3 = key_from_bytes (replicate 32 3); ks = key_state_initial key1
      in some_then (key_rotate ks key2) (\<lambda>ks. ky_epoch ks = 1 \<and> ky_previous_epoch ks = Some 0
       \<and> some_then (key_rotate ks key3) (\<lambda>ks. ky_epoch ks = 2 \<and> ky_previous_epoch ks = Some 1
         \<and> some_then (ky_previous ks) (\<lambda>k. key_as_bytes k = key_as_bytes key2))))"

definition test_key_state_clear_previous :: bool where
  "test_key_state_clear_previous \<longleftrightarrow>
     (let key1 = key_from_bytes (replicate 32 1); key2 = key_from_bytes (replicate 32 2);
          ks = key_state_initial key1
      in some_then (key_rotate ks key2) (\<lambda>ks. ky_previous ks \<noteq> None
       \<and> (let ks = clear_previous ks
          in ky_previous ks = None \<and> ky_previous_epoch ks = None \<and> ky_epoch ks = 1)))"

definition test_kernel_state_rotate_key :: bool where
  "test_kernel_state_rotate_key \<longleftrightarrow>
     (let key1 = key_from_bytes (replicate 32 1); key2 = key_from_bytes (replicate 32 2);
          ks = kernel_state_initial key1 policy_deny_all
      in key_epoch ks = 0
       \<and> some_then (kernel_rotate_key ks key2) (\<lambda>ks. key_epoch ks = 1
           \<and> key_as_bytes (kernel_hmac_key ks) = key_as_bytes key2))"

definition test_kernel_dispatch_rotate_key :: bool where
  "test_kernel_dispatch_rotate_key \<longleftrightarrow>
     (let key1 = key_from_bytes (replicate 32 1); key2 = key_from_bytes (replicate 32 2); core = core_empty key1
      in some_then (kernel_dispatch core (RqRotateKey key2)) (\<lambda>result. is_ok result
       \<and> unwrap_then result (\<lambda>new_core. ky_epoch (kc_key_state new_core) = 1
           \<and> key_as_bytes (core_hmac_key new_core) = key_as_bytes key2)))"

lemma kernel_state_tests:
  "test_kernel_state_initial" "test_kernel_state_tick" "test_kernel_state_cap_not_revoked" "test_key_state_initial"
  "test_key_state_rotation" "test_key_state_epoch_valid" "test_key_state_multiple_rotations"
  "test_key_state_clear_previous" "test_kernel_state_rotate_key" "test_kernel_dispatch_rotate_key"
  by code_simp+

section \<open>The tables of the core\<close>

definition test_plugin_meta_grant_revoke_holds_empty :: bool where
  "test_plugin_meta_grant_revoke_holds_empty \<longleftrightarrow>
     (let pm = plugin_meta_empty; pm' = pm_revoke_cap pm 42
      in \<not> pm_holds_cap pm 0 \<and> \<not> pm_holds_cap pm (- 1) \<and> pm_held_caps pm' = [])"

definition test_plugin_meta_grant_sorted_order :: bool where
  "test_plugin_meta_grant_sorted_order \<longleftrightarrow>
     (let pm = plugin_meta_empty; pm = pm_grant_cap pm 5; pm = pm_grant_cap pm 1; pm = pm_grant_cap pm 9;
          pm = pm_grant_cap pm 3
      in pm_held_caps pm = [1, 3, 5, 9])"

definition test_plugin_meta_grant_dedup :: bool where
  "test_plugin_meta_grant_dedup \<longleftrightarrow>
     (let pm = plugin_meta_empty; pm = pm_grant_cap pm 3; pm = pm_grant_cap pm 3; pm = pm_grant_cap pm 3
      in pm_held_caps pm = [3])"

definition test_plugin_meta_revoke_first_middle_last :: bool where
  "test_plugin_meta_revoke_first_middle_last \<longleftrightarrow>
     (let pm = plugin_meta_empty; pm = pm_grant_cap pm 1; pm = pm_grant_cap pm 5; pm = pm_grant_cap pm 9;
          pm1 = pm_revoke_cap pm 1; pm2 = pm_revoke_cap (pm_grant_cap pm1 1) 5;
          pm3 = pm_revoke_cap (pm_grant_cap pm2 5) 9
      in pm_held_caps pm1 = [5, 9] \<and> pm_held_caps pm2 = [1, 9] \<and> pm_held_caps pm3 = [1, 5])"

definition test_set_plugin_meta_normalizes_unsorted_held_caps :: bool where
  "test_set_plugin_meta_normalizes_unsorted_held_caps \<longleftrightarrow>
     (let core = core_empty key_empty;
          meta = \<lparr>pm_level = Internal, pm_held_caps = [9, 3, 5, 3, 1, 5]\<rparr>;
          core = set_plugin_meta core 100 meta; stored = get_plugin_meta core 100
      in pm_held_caps stored = [1, 3, 5, 9])"

definition test_kernel_state_core_plugin_meta_upsert_edge_cases :: bool where
  "test_kernel_state_core_plugin_meta_upsert_edge_cases \<longleftrightarrow>
     (let core = core_empty key_empty;
          core1 = set_plugin_meta core 50 \<lparr>pm_level = Public, pm_held_caps = []\<rparr>;
          core2 = set_plugin_meta core1 10 \<lparr>pm_level = Internal, pm_held_caps = []\<rparr>;
          core3 = set_plugin_meta core2 90 \<lparr>pm_level = Secret, pm_held_caps = []\<rparr>;
          core4 = set_plugin_meta core3 30 \<lparr>pm_level = Confidential, pm_held_caps = []\<rparr>;
          ids = map fst (kc_plugin_metas core4);
          core5 = set_plugin_meta core4 50 \<lparr>pm_level = Secret, pm_held_caps = [1]\<rparr>
      in length (kc_plugin_metas core1) = 1 \<and> fst (kc_plugin_metas core2 ! 0) = 10
       \<and> fst (kc_plugin_metas core3 ! 2) = 90 \<and> ids = [10, 30, 50, 90]
       \<and> pm_level (get_plugin_meta core5 50) = Secret \<and> length (kc_plugin_metas core5) = 4)"

definition test_kernel_state_core_resource_meta_upsert_edge_cases :: bool where
  "test_kernel_state_core_resource_meta_upsert_edge_cases \<longleftrightarrow>
     (let core = core_empty key_empty;
          core1 = set_resource_meta core 5 \<lparr>rm_level = Public\<rparr>;
          core2 = set_resource_meta core1 1 \<lparr>rm_level = Internal\<rparr>;
          core3 = set_resource_meta core2 5 \<lparr>rm_level = Secret\<rparr>
      in length (kc_resource_metas core1) = 1 \<and> fst (kc_resource_metas core2 ! 0) = 1
       \<and> rm_level (get_resource_meta core3 5) = Secret \<and> length (kc_resource_metas core3) = 2)"

lemma core_tests:
  "test_plugin_meta_grant_revoke_holds_empty" "test_plugin_meta_grant_sorted_order" "test_plugin_meta_grant_dedup"
  "test_plugin_meta_revoke_first_middle_last" "test_set_plugin_meta_normalizes_unsorted_held_caps"
  "test_kernel_state_core_plugin_meta_upsert_edge_cases" "test_kernel_state_core_resource_meta_upsert_edge_cases"
  by code_simp+

end
