(* ===== verification/LionTestWorkflow.thy ===== *)
theory LionTestWorkflow
  imports LionTest LionWorkflow
begin

text \<open>The unit tests of \<open>state/workflow.rs\<close>.\<close>

definition make_linear_workflow :: workflow_def where
  "make_linear_workflow = workflow_def_new [1, 2, 3] [edge_new 1 2, edge_new 2 3]"

definition make_parallel_workflow :: workflow_def where
  "make_parallel_workflow = workflow_def_new [1, 2, 3] [edge_new 1 3, edge_new 2 3]"

text \<open>\<open>matches!(result, Err(DependenciesNotSatisfied { .. }))\<close>\<close>

definition blocked_by_dependencies :: "workflow_error + workflow_instance \<Rightarrow> bool" where
  "blocked_by_dependencies r = err_then r (\<lambda>e. case e of DependenciesNotSatisfied _ _ \<Rightarrow> True | _ \<Rightarrow> False)"

definition test_workflow_status :: bool where
  "test_workflow_status \<longleftrightarrow>
     status_is_running Running \<and> \<not> status_is_terminal Running
     \<and> status_is_terminal Success \<and> status_is_success Success
     \<and> status_is_terminal Failure \<and> status_is_failure Failure"

definition test_node_state :: bool where
  "test_node_state \<longleftrightarrow>
     node_is_pending Pending \<and> node_is_active Active \<and> node_is_completed Completed \<and> node_is_failed Failed
     \<and> node_is_terminal Completed \<and> node_is_terminal Failed \<and> \<not> node_is_terminal Pending \<and> \<not> node_is_terminal Active"

definition test_workflow_def_dependencies :: bool where
  "test_workflow_def_dependencies \<longleftrightarrow>
     (let wf = make_linear_workflow
      in dependencies wf 1 = [] \<and> is_source wf 1 \<and> dependencies wf 2 = [1] \<and> dependencies wf 3 = [2] \<and> is_sink wf 3)"

definition test_workflow_def_dependents :: bool where
  "test_workflow_def_dependents \<longleftrightarrow>
     (let wf = make_linear_workflow in dependents wf 1 = [2] \<and> dependents wf 2 = [3] \<and> dependents wf 3 = [])"

definition test_workflow_instance_new :: bool where
  "test_workflow_instance_new \<longleftrightarrow>
     (let wf = make_linear_workflow; wi = instance_new wf 100 3
      in status_is_running (wi_status wi) \<and> pending_count wi = 3 \<and> active_count wi = 0 \<and> get_retries wi 1 = 3)"

definition test_workflow_instance_start_node :: bool where
  "test_workflow_instance_start_node \<longleftrightarrow>
     (let wf = make_linear_workflow; wi = instance_new wf 100 0
      in unwrap_then (start_node wi 1) (\<lambda>wi. wi_is_active wi 1 \<and> blocked_by_dependencies (start_node wi 2)))"

definition test_workflow_instance_complete_flow :: bool where
  "test_workflow_instance_complete_flow \<longleftrightarrow>
     (let wf = make_linear_workflow; wi = instance_new wf 100 0
      in unwrap_then (start_node wi 1) (\<lambda>wi. unwrap_then (complete_node wi 1) (\<lambda>wi.
         unwrap_then (start_node wi 2) (\<lambda>wi. unwrap_then (complete_node wi 2) (\<lambda>wi.
         unwrap_then (start_node wi 3) (\<lambda>wi. unwrap_then (complete_node wi 3) (\<lambda>wi.
           wi_is_terminal wi \<and> status_is_success (wi_status wi))))))))"

definition test_workflow_instance_failure :: bool where
  "test_workflow_instance_failure \<longleftrightarrow>
     (let wf = make_linear_workflow; wi = instance_new wf 100 0
      in unwrap_then (start_node wi 1) (\<lambda>wi. unwrap_then (fail_node wi 1) (\<lambda>wi. status_is_failure (wi_status wi))))"

definition test_workflow_instance_retry :: bool where
  "test_workflow_instance_retry \<longleftrightarrow>
     (let wf = make_linear_workflow; wi = instance_new wf 100 2
      in unwrap_then (start_node wi 1) (\<lambda>wi. get_retries wi 1 = 2
       \<and> unwrap_then (fail_node wi 1) (\<lambda>wi.
           wi_is_pending wi 1 \<and> get_retries wi 1 = 1 \<and> status_is_running (wi_status wi)
       \<and> unwrap_then (start_node wi 1) (\<lambda>wi. unwrap_then (fail_node wi 1) (\<lambda>wi.
           wi_is_pending wi 1 \<and> get_retries wi 1 = 0
       \<and> unwrap_then (start_node wi 1) (\<lambda>wi. unwrap_then (fail_node wi 1) (\<lambda>wi.
           node_is_failed (get_node_state wi 1) \<and> status_is_failure (wi_status wi))))))))"

definition test_workflow_measure_decreases_on_complete :: bool where
  "test_workflow_measure_decreases_on_complete \<longleftrightarrow>
     (let wf = make_linear_workflow; wi = instance_new wf 100 0; m1 = wi_measure wi 0
      in unwrap_then (start_node wi 1) (\<lambda>wi. let m2 = wi_measure wi 0
         in m2 < m1 \<and> unwrap_then (complete_node wi 1) (\<lambda>wi. let m3 = wi_measure wi 0 in m3 < m2)))"

definition test_workflow_parallel :: bool where
  "test_workflow_parallel \<longleftrightarrow>
     (let wf = make_parallel_workflow; wi = instance_new wf 100 0
      in unwrap_then (start_node wi 1) (\<lambda>wi. unwrap_then (start_node wi 2) (\<lambda>wi.
           blocked_by_dependencies (start_node wi 3)
         \<and> unwrap_then (complete_node wi 1) (\<lambda>wi. blocked_by_dependencies (start_node wi 3)
         \<and> unwrap_then (complete_node wi 2) (\<lambda>wi. unwrap_then (start_node wi 3) (\<lambda>wi.
           unwrap_then (complete_node wi 3) (\<lambda>wi. status_is_success (wi_status wi))))))))"

lemma workflow_definition_tests:
  "test_workflow_status" "test_node_state" "test_workflow_def_dependencies" "test_workflow_def_dependents"
  "test_workflow_instance_new"
  by code_simp+

lemma workflow_run_tests:
  "test_workflow_instance_start_node" "test_workflow_instance_complete_flow" "test_workflow_instance_failure"
  "test_workflow_instance_retry" "test_workflow_measure_decreases_on_complete" "test_workflow_parallel"
  by code_simp+

end
