(* ===== verification/LionTestState.thy ===== *)
theory LionTestState
  imports LionTest LionAuth
begin

text \<open>
  The unit tests of \<open>state/state.rs\<close> and \<open>step/authorization.rs\<close>. An insertion whose result the test drops
  (\<open>let _ = ...\<close>) leaves the state as it was when it is refused: \<open>or_same\<close>.
\<close>

definition or_same :: "'s \<Rightarrow> 'e + 's \<Rightarrow> 's" where
  "or_same s r = (case r of Inl e \<Rightarrow> s | Inr s' \<Rightarrow> s')"

section \<open>System state\<close>

definition state_test_cap :: "cap_id \<Rightarrow> capability_error + capability" where
  "state_test_cap i = capability_new i 1 1 (rights_singleton Read) None 0 tag_empty"

definition test_state_empty :: bool where
  "test_state_empty \<longleftrightarrow> (let s = state_empty in state_time s = 0 \<and> plugin_count s = 0 \<and> actor_count s = 0)"

definition test_state_apply_alloc :: bool where
  "test_state_apply_alloc \<longleftrightarrow>
     (let s = state_empty; (addr, s) = apply_alloc_mut s 1 1024 in is_live (st_ghost s) addr)"

definition test_state_apply_free :: bool where
  "test_state_apply_free \<longleftrightarrow>
     (let s = state_empty; (addr, s) = apply_alloc_mut s 1 1024
      in unwrap_then (apply_free_mut s addr) (\<lambda>s. \<not> is_live (st_ghost s) addr \<and> is_freed (st_ghost s) addr))"

definition test_state_temporal_safety :: bool where
  "test_state_temporal_safety \<longleftrightarrow>
     (let s1 = state_empty; (addr, s1) = apply_alloc_mut s1 1 1024
      in unwrap_then (apply_free_mut s1 addr) (\<lambda>s1.
           let s2 = s1; s3 = s1; (_, s3) = apply_alloc_mut s3 2 512
           in temporal_safety s1 s2 \<and> temporal_safety s1 s3))"

definition test_state_plugin_holds :: bool where
  "test_state_plugin_holds \<longleftrightarrow>
     (let s = state_empty; ps = plugin_empty Public 0
      in unwrap_then (insert_plugin s 1 ps) (\<lambda>s. \<not> plugin_holds s 1 42
       \<and> (let s = modify_plugin s 1 (\<lambda>ps. grant_cap_mut ps 42) in plugin_holds s 1 42)))"

definition test_state_cap_delegate :: bool where
  "test_state_cap_delegate \<longleftrightarrow>
     (let s = state_empty; ps = plugin_empty Public 0
      in unwrap_then (insert_plugin s 1 ps) (\<lambda>s. unwrap_then (state_test_cap 100) (\<lambda>cap.
         unwrap_then (apply_cap_delegate_mut s cap 1) (\<lambda>s. plugin_holds s 1 100 \<and> cap_is_valid s 100))))"

definition test_state_cap_revoke :: bool where
  "test_state_cap_revoke \<longleftrightarrow>
     (let s = state_empty; ps = plugin_empty Public 0
      in unwrap_then (insert_plugin s 1 ps) (\<lambda>s. unwrap_then (state_test_cap 100) (\<lambda>cap.
         unwrap_then (apply_cap_delegate_mut s cap 1) (\<lambda>s. cap_is_valid s 100
         \<and> unwrap_then (apply_cap_revoke_mut s 100) (\<lambda>s. \<not> cap_is_valid s 100)))))"

definition test_state_isolation :: bool where
  "test_state_isolation \<longleftrightarrow>
     (let s1 = state_empty; s1 = or_same s1 (insert_plugin s1 1 (plugin_empty Public 100));
          s1 = or_same s1 (insert_plugin s1 2 (plugin_empty Internal 200));
          s2 = modify_plugin s1 1 (\<lambda>ps. grant_cap_mut ps 42)
      in preserves_isolation s1 s2 1)"

definition test_low_equivalent_refl :: bool where
  "test_low_equivalent_refl \<longleftrightarrow>
     (let s = state_empty in low_equivalent Public s s \<and> low_equivalent Secret s s)"

definition test_low_equivalent_symm :: bool where
  "test_low_equivalent_symm \<longleftrightarrow>
     (let s1 = state_empty; s1 = or_same s1 (insert_plugin s1 1 (plugin_empty Public 0)); s2 = s1
      in low_equivalent Public s1 s2 \<and> low_equivalent Public s2 s1)"

definition test_low_equivalent_high_changes_invisible :: bool where
  "test_low_equivalent_high_changes_invisible \<longleftrightarrow>
     (let s1 = state_empty; s1 = or_same s1 (insert_plugin s1 1 (plugin_empty Public 0));
          s1 = or_same s1 (insert_plugin s1 2 (plugin_empty Secret 0));
          s2 = modify_plugin s1 2 (\<lambda>ps. grant_cap_mut ps 42)
      in low_equivalent Public s1 s2 \<and> \<not> low_equivalent Secret s1 s2)"

definition test_resource_info :: bool where
  "test_resource_info \<longleftrightarrow>
     (let ri = resource_info_new Confidential; ri_default = \<lparr>ri_level = level_default\<rparr>
      in ri_level ri = Confidential \<and> ri_level ri_default = Public)"

definition test_state_tick :: bool where
  "test_state_tick \<longleftrightarrow>
     (let s = state_empty
      in state_time s = 0 \<and> unwrap_then (state_tick s) (\<lambda>s. state_time s = 1
       \<and> unwrap_then (state_tick s) (\<lambda>s. state_time s = 2)))"

definition test_state_time_delegates_to_kernel :: bool where
  "test_state_time_delegates_to_kernel \<longleftrightarrow> (let s = state_empty in state_time s = ks_now (st_kernel s))"

definition test_state_plugin_insert_order :: bool where
  "test_state_plugin_insert_order \<longleftrightarrow>
     (let s = state_empty; ps = plugin_empty Public 1024
      in unwrap_then (insert_plugin s 50 ps) (\<lambda>s. unwrap_then (insert_plugin s 10 ps) (\<lambda>s.
         unwrap_then (insert_plugin s 90 ps) (\<lambda>s. unwrap_then (insert_plugin s 30 ps) (\<lambda>s.
           let ids = map fst (st_plugins s) in ids = [10, 30, 50, 90])))))"

definition test_state_empty_lookup :: bool where
  "test_state_empty_lookup \<longleftrightarrow>
     (let s = state_empty in get_plugin s 0 = None \<and> get_actor s 0 = None \<and> get_workflow s 0 = None)"

definition test_state_single_element_lookup :: bool where
  "test_state_single_element_lookup \<longleftrightarrow>
     unwrap_then (insert_plugin state_empty 42 (plugin_empty Public 1024)) (\<lambda>s.
       get_plugin s 42 \<noteq> None \<and> get_plugin s 41 = None \<and> get_plugin s 43 = None)"

definition test_state_plugin_collision :: bool where
  "test_state_plugin_collision \<longleftrightarrow>
     (let s = state_empty; ps = plugin_empty Public 1024
      in unwrap_then (insert_plugin s 1 ps) (\<lambda>s. insert_plugin s 1 ps = Inl (PluginExists 1)))"

lemma state_tests:
  "test_state_empty" "test_state_apply_alloc" "test_state_apply_free" "test_state_temporal_safety"
  "test_state_plugin_holds" "test_state_cap_delegate" "test_state_cap_revoke" "test_state_tick"
  "test_state_time_delegates_to_kernel" "test_resource_info"
  by code_simp+

lemma state_table_tests:
  "test_state_isolation" "test_low_equivalent_refl" "test_low_equivalent_symm"
  "test_low_equivalent_high_changes_invisible" "test_state_plugin_insert_order" "test_state_empty_lookup"
  "test_state_single_element_lookup" "test_state_plugin_collision"
  by code_simp+

section \<open>Authorization\<close>

definition auth_test_cap :: "cap_id \<Rightarrow> plugin_id \<Rightarrow> resource_id \<Rightarrow> capability_error + capability" where
  "auth_test_cap i holder target = capability_new i holder target (rights_singleton Read) None 0 tag_empty"

text \<open>The action the tests write out, \<open>Action { subject: 1, target: 100, .. }\<close>; its kind is \<open>read\<close>.\<close>

definition read_action :: action where
  "read_action = \<lparr>ac_subject = 1, ac_target = 100, ac_rights = rights_singleton Read, ac_kind = ''read''\<rparr>"

definition test_resource_integrity_unallocated :: bool where
  "test_resource_integrity_unallocated \<longleftrightarrow> (let state = state_empty in resource_integrity state 999 = Public)"

definition test_biba_write_ok_no_write :: bool where
  "test_biba_write_ok_no_write \<longleftrightarrow> (let state = state_empty; action = read_action in biba_write_ok state action)"

definition test_cap_is_valid_not_found :: bool where
  "test_cap_is_valid_not_found \<longleftrightarrow>
     (let state = state_empty in unwrap_then (auth_test_cap 1 1 100) (\<lambda>cap. \<not> auth_cap_is_valid state cap))"

definition test_cap_is_valid_in_kernel :: bool where
  "test_cap_is_valid_in_kernel \<longleftrightarrow>
     unwrap_then (auth_test_cap 1 1 100) (\<lambda>cap. unwrap_then (apply_cap_delegate_mut state_empty cap 1) (\<lambda>state.
       auth_cap_is_valid state cap))"

definition test_capability_check_holder_mismatch :: bool where
  "test_capability_check_holder_mismatch \<longleftrightarrow>
     (let state = or_same state_empty (insert_plugin state_empty 1 (plugin_empty Public 0))
      in unwrap_then (auth_test_cap 1 2 100) (\<lambda>cap. \<not> capability_check state read_action cap))"

definition test_authorized_validate_cap_not_held :: bool where
  "test_authorized_validate_cap_not_held \<longleftrightarrow>
     (let state = or_same state_empty (insert_plugin state_empty 1 (plugin_empty Public 0));
          ctx = \<lparr>pc_now = 0, pc_call_origin = None\<rparr>
      in unwrap_then (auth_test_cap 1 1 100) (\<lambda>cap. err_then (validate_atomic state cap read_action ctx)
           (\<lambda>e. case e of AuCapabilityNotHeld _ \<Rightarrow> True | _ \<Rightarrow> False)))"

text \<open>The test allocates its target in a copy of the ghost history that it then drops.\<close>

definition test_authorize_both_pass :: bool where
  "test_authorize_both_pass \<longleftrightarrow>
     (let ps = grant_cap_mut (plugin_empty Public 0) 1
      in unwrap_then (insert_plugin state_empty 1 ps) (\<lambda>state. unwrap_then (auth_test_cap 1 1 100) (\<lambda>cap.
         unwrap_then (apply_cap_delegate_mut state cap 1) (\<lambda>state.
           let ghost = meta_alloc_mut (st_ghost state) 100 1 in capability_check state read_action cap))))"

lemma authorization_tests:
  "test_resource_integrity_unallocated" "test_biba_write_ok_no_write" "test_cap_is_valid_not_found"
  "test_cap_is_valid_in_kernel" "test_capability_check_holder_mismatch" "test_authorized_validate_cap_not_held"
  "test_authorize_both_pass"
  by code_simp+

end
