(* ===== verification/LionTestStep.thy ===== *)
theory LionTestStep
  imports LionTestState LionStep
begin

text \<open>
  The unit tests of \<open>step/plugin_internal.rs\<close>, \<open>step/kernel_op.rs\<close> and \<open>step/host_call.rs\<close>. The fixtures the
  tests build inline (a state with one plugin and, where the test has it, one actor) are \<open>one_plugin\<close> and
  \<open>plugin_and_actor\<close>.
\<close>

section \<open>Plugin computation\<close>

definition one_plugin :: "security_level \<Rightarrow> mem_size \<Rightarrow> lion_state" where
  "one_plugin level sz = or_same state_empty (insert_plugin state_empty 1 (plugin_empty level sz))"

definition plugin_and_actor :: "security_level \<Rightarrow> mem_size \<Rightarrow> lion_state" where
  "plugin_and_actor level sz =
     (let state = one_plugin level sz in or_same state (insert_actor state 1 (actor_empty 10)))"

definition plugin_precondition_failed :: "step_error + 'a \<Rightarrow> bool" where
  "plugin_precondition_failed r = err_then r (\<lambda>e. case e of PluginPreconditionFailed _ \<Rightarrow> True | _ \<Rightarrow> False)"

text \<open>\<open>PluginInternal\<close> derives its default.\<close>

definition test_plugin_internal_default :: bool where
  "test_plugin_internal_default \<longleftrightarrow>
     (let pi = \<lparr>pi_reads = [], pi_writes = [], pi_consume_mailbox = False\<rparr>
      in pi_reads pi = [] \<and> pi_writes pi = [] \<and> \<not> pi_consume_mailbox pi)"

definition test_plugin_internal_compute :: bool where
  "test_plugin_internal_compute \<longleftrightarrow>
     (let pi = plugin_compute in pi_reads pi = [] \<and> pi_writes pi = [] \<and> \<not> pi_consume_mailbox pi)"

definition test_plugin_internal_with_reads :: bool where
  "test_plugin_internal_with_reads \<longleftrightarrow>
     (let pi = internal_with_reads [(0, 100), (200, 50)] in length (pi_reads pi) = 2 \<and> pi_writes pi = [])"

definition test_plugin_internal_with_writes :: bool where
  "test_plugin_internal_with_writes \<longleftrightarrow>
     (let pi = internal_with_writes [(0, 100)] in pi_reads pi = [] \<and> length (pi_writes pi) = 1)"

definition test_check_preconditions_plugin_not_found :: bool where
  "test_check_preconditions_plugin_not_found \<longleftrightarrow>
     (let state = state_empty; pi = plugin_compute
      in pi_check_preconditions pi state 1 = Inl (StepPluginNotFound 1))"

definition test_check_preconditions_blocked :: bool where
  "test_check_preconditions_blocked \<longleftrightarrow>
     (let state = one_plugin Public 1024; actor = set_blocked_mut (actor_empty 10) 42
      in unwrap_then (insert_actor state 1 actor) (\<lambda>state.
           plugin_precondition_failed (pi_check_preconditions plugin_compute state 1)))"

definition test_check_preconditions_read_out_of_bounds :: bool where
  "test_check_preconditions_read_out_of_bounds \<longleftrightarrow>
     (let state = one_plugin Public 100; pi = internal_with_reads [(0, 200)]
      in plugin_precondition_failed (pi_check_preconditions pi state 1))"

definition test_check_preconditions_write_out_of_bounds :: bool where
  "test_check_preconditions_write_out_of_bounds \<longleftrightarrow>
     (let state = one_plugin Public 100; pi = internal_with_writes [(50, 100)]
      in plugin_precondition_failed (pi_check_preconditions pi state 1))"

definition test_check_preconditions_consume_empty_mailbox :: bool where
  "test_check_preconditions_consume_empty_mailbox \<longleftrightarrow>
     (let state = plugin_and_actor Public 1024; pi = \<lparr>pi_reads = [], pi_writes = [], pi_consume_mailbox = True\<rparr>
      in plugin_precondition_failed (pi_check_preconditions pi state 1))"

definition test_check_preconditions_success :: bool where
  "test_check_preconditions_success \<longleftrightarrow>
     (let state = plugin_and_actor Public 1024; pi = internal_with_reads [(0, 100), (500, 200)]
      in is_ok (pi_check_preconditions pi state 1))"

definition test_check_preconditions_consume_non_empty_mailbox :: bool where
  "test_check_preconditions_consume_non_empty_mailbox \<longleftrightarrow>
     (let state = one_plugin Public 1024; msg = message_new 1 2 1 Public [];
          actor = enqueue_pending_mut (actor_empty 10) msg; actor = snd (deliver_mut actor);
          pi = \<lparr>pi_reads = [], pi_writes = [], pi_consume_mailbox = True\<rparr>
      in unwrap_then (insert_actor state 1 actor) (\<lambda>state. is_ok (pi_check_preconditions pi state 1)))"

definition test_frame_other_plugins_unchanged :: bool where
  "test_frame_other_plugins_unchanged \<longleftrightarrow>
     (let state = one_plugin Public 1024;
          state = or_same state (insert_plugin state 2 (plugin_empty Secret 2048));
          state = or_same state (insert_actor state 1 (actor_empty 10));
          initial_plugin2 = get_plugin state 2; step = StPluginInternal 1 plugin_compute
      in unwrap_then (step_execute step state) (\<lambda>new_state. get_plugin new_state 2 = initial_plugin2))"

definition test_frame_kernel_unchanged :: bool where
  "test_frame_kernel_unchanged \<longleftrightarrow>
     (let state = plugin_and_actor Public 1024; initial_kernel_now = ks_now (st_kernel state);
          step = StPluginInternal 1 plugin_compute
      in unwrap_then (step_execute step state) (\<lambda>new_state. ks_now (st_kernel new_state) = initial_kernel_now))"

definition test_frame_time_unchanged :: bool where
  "test_frame_time_unchanged \<longleftrightarrow>
     (let state = plugin_and_actor Public 1024; initial_time = state_time state;
          step = StPluginInternal 1 plugin_compute
      in unwrap_then (step_execute step state) (\<lambda>new_state. state_time new_state = initial_time))"

definition test_security_invariant_level_preserved :: bool where
  "test_security_invariant_level_preserved \<longleftrightarrow>
     (let state = plugin_and_actor Confidential 1024; step = StPluginInternal 1 (internal_with_writes [(0, 100)])
      in unwrap_then (step_execute step state) (\<lambda>new_state. plugin_level new_state 1 = Some Confidential))"

definition test_security_invariant_caps_preserved :: bool where
  "test_security_invariant_caps_preserved \<longleftrightarrow>
     (let ps = plugin_empty Public 1024; ps = grant_cap_mut ps 42; ps = grant_cap_mut ps 43
      in unwrap_then (insert_plugin state_empty 1 ps) (\<lambda>state.
           let state = or_same state (insert_actor state 1 (actor_empty 10)); step = StPluginInternal 1 plugin_compute
           in unwrap_then (step_execute step state) (\<lambda>new_state.
                plugin_holds new_state 1 42 \<and> plugin_holds new_state 1 43)))"

definition test_security_invariant_bounds_preserved :: bool where
  "test_security_invariant_bounds_preserved \<longleftrightarrow>
     (let state = plugin_and_actor Public 1024; step = StPluginInternal 1 (internal_with_writes [(0, 100)])
      in unwrap_then (step_execute step state) (\<lambda>new_state.
           map_option memory_bounds (get_plugin new_state 1) = Some 1024))"

lemma plugin_internal_tests:
  "test_plugin_internal_default" "test_plugin_internal_compute" "test_plugin_internal_with_reads"
  "test_plugin_internal_with_writes" "test_check_preconditions_plugin_not_found" "test_check_preconditions_blocked"
  "test_check_preconditions_read_out_of_bounds" "test_check_preconditions_write_out_of_bounds"
  "test_check_preconditions_consume_empty_mailbox" "test_check_preconditions_success"
  "test_check_preconditions_consume_non_empty_mailbox"
  by code_simp+

lemma plugin_internal_frame_tests:
  "test_frame_other_plugins_unchanged" "test_frame_kernel_unchanged" "test_frame_time_unchanged"
  "test_security_invariant_level_preserved" "test_security_invariant_caps_preserved"
  "test_security_invariant_bounds_preserved"
  by code_simp+

section \<open>Kernel operations\<close>

definition op_test_message :: "msg_id \<Rightarrow> message" where
  "op_test_message i = message_new i 1 2 Public [1, 2, 3]"

definition kernel_op_failed :: "step_error + 'a \<Rightarrow> bool" where
  "kernel_op_failed r = err_then r (\<lambda>e. case e of KernelOpFailed _ \<Rightarrow> True | _ \<Rightarrow> False)"

definition test_time_tick_increments_time :: bool where
  "test_time_tick_increments_time \<longleftrightarrow>
     (let state = state_empty
      in state_time state = 0
       \<and> unwrap_then (kernel_op_execute TimeTick state) (\<lambda>new_state. state_time new_state = 1))"

definition test_time_tick_preserves_plugins :: bool where
  "test_time_tick_preserves_plugins \<longleftrightarrow>
     (let state = one_plugin Public 100
      in unwrap_then (kernel_op_execute TimeTick state) (\<lambda>new_state. get_plugin new_state 1 \<noteq> None
           \<and> map_option memory_bounds (get_plugin new_state 1) = Some 100))"

definition test_time_tick_preserves_actors :: bool where
  "test_time_tick_preserves_actors \<longleftrightarrow>
     (let state = or_same state_empty (insert_actor state_empty 1 (actor_empty 10))
      in unwrap_then (kernel_op_execute TimeTick state) (\<lambda>new_state. get_actor new_state 1 \<noteq> None
           \<and> map_option ar_capacity (get_actor new_state 1) = Some 10))"

definition test_route_one_moves_message :: bool where
  "test_route_one_moves_message \<longleftrightarrow>
     (let actor = enqueue_pending_mut (actor_empty 10) (op_test_message 42)
      in unwrap_then (insert_actor state_empty 1 actor) (\<lambda>state.
           map_option pending_len (get_actor state 1) = Some 1
         \<and> map_option mailbox_len (get_actor state 1) = Some 0
         \<and> unwrap_then (kernel_op_execute (RouteOne 1) state) (\<lambda>new_state.
             map_option pending_len (get_actor new_state 1) = Some 0
             \<and> map_option mailbox_len (get_actor new_state 1) = Some 1)))"

definition test_route_one_preserves_other_actors :: bool where
  "test_route_one_preserves_other_actors \<longleftrightarrow>
     (let actor1 = enqueue_pending_mut (actor_empty 10) (op_test_message 1); actor2 = actor_empty 5
      in unwrap_then (insert_actor state_empty 1 actor1) (\<lambda>state. unwrap_then (insert_actor state 2 actor2) (\<lambda>state.
         unwrap_then (kernel_op_execute (RouteOne 1) state) (\<lambda>new_state.
           map_option ar_capacity (get_actor new_state 2) = Some 5
           \<and> map_option pending_len (get_actor new_state 2) = Some 0))))"

definition test_route_one_preserves_plugins :: bool where
  "test_route_one_preserves_plugins \<longleftrightarrow>
     (let actor = enqueue_pending_mut (actor_empty 10) (op_test_message 1)
      in unwrap_then (insert_actor state_empty 1 actor) (\<lambda>state.
           let state = or_same state (insert_plugin state 1 (plugin_empty Secret 1024))
           in unwrap_then (kernel_op_execute (RouteOne 1) state) (\<lambda>new_state. plugin_level new_state 1 = Some Secret)))"

definition test_route_one_no_pending_fails :: bool where
  "test_route_one_no_pending_fails \<longleftrightarrow>
     (let state = or_same state_empty (insert_actor state_empty 1 (actor_empty 10))
      in kernel_op_failed (kernel_op_execute (RouteOne 1) state))"

definition test_route_one_mailbox_full_fails :: bool where
  "test_route_one_mailbox_full_fails \<longleftrightarrow>
     (let actor = enqueue_pending_mut (actor_empty 1) (op_test_message 1); actor = snd (deliver_mut actor);
          actor = enqueue_pending_mut actor (op_test_message 2)
      in unwrap_then (insert_actor state_empty 1 actor) (\<lambda>state.
           kernel_op_failed (kernel_op_execute (RouteOne 1) state)))"

definition test_unblock_send_clears_blocked :: bool where
  "test_unblock_send_clears_blocked \<longleftrightarrow>
     (let actor = set_blocked_mut (actor_empty 10) 42
      in unwrap_then (insert_actor state_empty 1 actor) (\<lambda>state.
           (case get_actor state 1 of Some a \<Rightarrow> is_blocked a | None \<Rightarrow> False)
         \<and> unwrap_then (kernel_op_execute (UnblockSend 1) state) (\<lambda>new_state.
             \<not> (case get_actor new_state 1 of Some a \<Rightarrow> is_blocked a | None \<Rightarrow> True))))"

definition test_unblock_send_preserves_mailbox :: bool where
  "test_unblock_send_preserves_mailbox \<longleftrightarrow>
     (let actor = enqueue_pending_mut (actor_empty 10) (op_test_message 1); actor = snd (deliver_mut actor);
          actor = set_blocked_mut actor 42
      in unwrap_then (insert_actor state_empty 1 actor) (\<lambda>state.
           let initial_mailbox_len = (case get_actor state 1 of Some a \<Rightarrow> mailbox_len a | None \<Rightarrow> 0)
           in unwrap_then (kernel_op_execute (UnblockSend 1) state) (\<lambda>new_state.
                let final_mailbox_len = (case get_actor new_state 1 of Some a \<Rightarrow> mailbox_len a | None \<Rightarrow> 0)
                in initial_mailbox_len = final_mailbox_len)))"

definition test_workflow_tick_not_found :: bool where
  "test_workflow_tick_not_found \<longleftrightarrow>
     (let state = state_empty in kernel_op_failed (kernel_op_execute (WorkflowTick 999) state))"

definition test_workflow_tick_preserves_other_workflows :: bool where
  "test_workflow_tick_preserves_other_workflows \<longleftrightarrow>
     (let state = or_same state_empty (insert_workflow state_empty 1 (instance_running 100));
          state = or_same state (insert_workflow state 2 (instance_running 200))
      in unwrap_then (kernel_op_execute (WorkflowTick 1) state) (\<lambda>new_state.
           case get_workflow new_state 2 of Some w \<Rightarrow> wi_is_running w | None \<Rightarrow> False))"

lemma kernel_op_tests:
  "test_time_tick_increments_time" "test_time_tick_preserves_plugins" "test_time_tick_preserves_actors"
  "test_route_one_moves_message" "test_route_one_preserves_other_actors" "test_route_one_preserves_plugins"
  "test_route_one_no_pending_fails" "test_route_one_mailbox_full_fails" "test_unblock_send_clears_blocked"
  "test_unblock_send_preserves_mailbox" "test_workflow_tick_not_found"
  "test_workflow_tick_preserves_other_workflows"
  by code_simp+

section \<open>Host calls\<close>

definition test_host_function_is_effectful :: bool where
  "test_host_function_is_effectful \<longleftrightarrow>
     fn_is_effectful FnCapCall \<and> fn_is_effectful FnKernelAlloc \<and> fn_is_effectful FnDeclassify"

definition test_host_function_is_declassify :: bool where
  "test_host_function_is_declassify \<longleftrightarrow>
     \<not> fn_is_declassify FnCapCall \<and> \<not> fn_is_declassify FnKernelAlloc \<and> fn_is_declassify FnDeclassify"

definition test_host_function_is_cap_operation :: bool where
  "test_host_function_is_cap_operation \<longleftrightarrow>
     fn_is_cap_operation FnCapCall \<and> fn_is_cap_operation FnCapRevoke \<and> \<not> fn_is_cap_operation FnCapSend
     \<and> \<not> fn_is_cap_operation FnKernelAlloc"

definition test_host_function_is_mem_operation :: bool where
  "test_host_function_is_mem_operation \<longleftrightarrow>
     fn_is_mem_operation FnKernelAlloc \<and> fn_is_mem_operation FnMemFree \<and> \<not> fn_is_mem_operation FnCapCall"

definition test_host_call_check_preconditions_no_plugin :: bool where
  "test_host_call_check_preconditions_no_plugin \<longleftrightarrow>
     (let state = state_empty; hc = host_call_new 1 FnCapCall [] [] []
      in hc_check_preconditions hc state = Inl (StepPluginNotFound 1))"

definition test_host_call_check_preconditions_out_of_bounds :: bool where
  "test_host_call_check_preconditions_out_of_bounds \<longleftrightarrow>
     (let state = one_plugin Public 100; hc = host_call_new 1 FnCapCall [] [(200, 50)] []
      in err_then (hc_check_preconditions hc state)
           (\<lambda>e. case e of HostCallPreconditionFailed _ \<Rightarrow> True | _ \<Rightarrow> False))"

definition test_execute_kernel_alloc :: bool where
  "test_execute_kernel_alloc \<longleftrightarrow>
     (let state = one_plugin Public 1024; hc = host_call_new 1 FnKernelAlloc [256] [] []
      in unwrap_then (function_execute FnKernelAlloc state hc result_empty) (\<lambda>new_state.
           meta_resource_count (st_ghost new_state) > meta_resource_count (st_ghost state)))"

definition test_execute_declassify :: bool where
  "test_execute_declassify \<longleftrightarrow>
     (let state = one_plugin Secret 0; hc = host_call_new 1 FnDeclassify [0] [] []
      in unwrap_then (function_execute FnDeclassify state hc result_empty) (\<lambda>new_state.
           plugin_level new_state 1 = Some Public))"

definition test_execute_declassify_up_fails :: bool where
  "test_execute_declassify_up_fails \<longleftrightarrow>
     (let state = one_plugin Public 0; hc = host_call_new 1 FnDeclassify [3] [] []
      in err_then (function_execute FnDeclassify state hc result_empty)
           (\<lambda>e. case e of HostCallPreconditionFailed _ \<Rightarrow> True | _ \<Rightarrow> False))"

definition test_execute_declassify_invalid_level_rejected :: bool where
  "test_execute_declassify_invalid_level_rejected \<longleftrightarrow>
     (let state = one_plugin Secret 0
      in list_all (\<lambda>invalid_level. let hc = host_call_new 1 FnDeclassify [invalid_level] [] []
           in err_then (function_execute FnDeclassify state hc result_empty)
                (\<lambda>e. case e of HostCallPreconditionFailed (InvalidSecurityLevel _) \<Rightarrow> True | _ \<Rightarrow> False))
           [4, 5, 100, - 1])"

definition test_execute_declassify_all_valid_levels :: bool where
  "test_execute_declassify_all_valid_levels \<longleftrightarrow>
     (let state = one_plugin Secret 0; expected = [(0, Public), (1, Internal), (2, Confidential), (3, Secret)]
      in list_all (\<lambda>(level_val, expected_level). let hc = host_call_new 1 FnDeclassify [level_val] [] []
           in unwrap_then (function_execute FnDeclassify state hc result_empty) (\<lambda>new_state.
                plugin_level new_state 1 = Some expected_level)) expected)"

lemma host_call_tests:
  "test_host_function_is_effectful" "test_host_function_is_declassify" "test_host_function_is_cap_operation"
  "test_host_function_is_mem_operation" "test_host_call_check_preconditions_no_plugin"
  "test_host_call_check_preconditions_out_of_bounds" "test_execute_kernel_alloc" "test_execute_declassify"
  "test_execute_declassify_up_fails" "test_execute_declassify_invalid_level_rejected"
  "test_execute_declassify_all_valid_levels"
  by code_simp+

end
