(* ===== verification/LionTestKernel.thy ===== *)
theory LionTestKernel
  imports LionTest LionKernelApi
begin

text \<open>
  The unit tests of \<open>kernel.rs\<close>, among them those that run a step on both execution paths and compare the
  kernels. The HMAC is a parameter of the test that mints a capability. A call refused on the kernel leaves it
  as it was, so a call whose result the test unwraps is under \<open>unwrap_then\<close>.
\<close>

definition root_cap :: "cap_id \<Rightarrow> resource_id \<Rightarrow> cap_id option \<Rightarrow> capability_error + capability" where
  "root_cap i target parent = capability_new i 1 target (rights_singleton Read) parent 0 tag_empty"

definition test_new_kernel :: bool where
  "test_new_kernel \<longleftrightarrow> (let k = kernel_new in api_time k = 0 \<and> api_plugin_count k = 0)"

definition test_tick :: bool where
  "test_tick \<longleftrightarrow>
     (let k = kernel_new
      in unwrap_then (api_tick k) (\<lambda>k. api_time k = 1 \<and> unwrap_then (api_tick k) (\<lambda>k. api_time k = 2)))"

definition test_register_plugin :: bool where
  "test_register_plugin \<longleftrightarrow>
     unwrap_then (register_plugin kernel_new 1 Public 4096) (\<lambda>k.
       api_plugin_count k = 1 \<and> api_plugin_level k 1 = Some Public)"

definition test_register_duplicate_plugin :: bool where
  "test_register_duplicate_plugin \<longleftrightarrow>
     unwrap_then (register_plugin kernel_new 1 Public 0) (\<lambda>k. is_err (register_plugin k 1 Internal 0))"

definition test_delegate_and_revoke :: bool where
  "test_delegate_and_revoke \<longleftrightarrow>
     unwrap_then (register_plugin kernel_new 1 Public 0) (\<lambda>k. unwrap_then (root_cap 100 1 None) (\<lambda>cap.
     unwrap_then (insert_cap_raw k cap 1) (\<lambda>k. api_cap_is_valid k 100 \<and> api_plugin_holds k 1 100
     \<and> unwrap_then (revoke_cap k 100) (\<lambda>k. \<not> api_cap_is_valid k 100))))"

text \<open>Two plugins, and the root capability 100 for target 42.\<close>

definition rooted_kernel :: "(kernel \<Rightarrow> bool) \<Rightarrow> bool" where
  "rooted_kernel f =
     unwrap_then (register_plugin kernel_new 1 Public 0) (\<lambda>k. unwrap_then (register_plugin k 2 Public 0) (\<lambda>k.
     unwrap_then (root_cap 100 42 None) (\<lambda>root. unwrap_then (insert_cap_raw k root 1) f)))"

definition test_delegate_cap_kernel_minted :: "hmac_fun \<Rightarrow> bool" where
  "test_delegate_cap_kernel_minted hmac \<longleftrightarrow>
     rooted_kernel (\<lambda>k. some_then (delegate_cap hmac k 100 2 (rights_singleton Read)) (\<lambda>(r, k).
       unwrap_then r (\<lambda>child_id. api_cap_is_valid k child_id \<and> api_plugin_holds k 2 child_id
       \<and> some_then (api_get_cap k child_id) (\<lambda>child.
           rights_is_subset_of (cp_rights child) (rights_singleton Read) \<and> cp_parent child = Some 100))))"

definition test_delegate_cap_revoked_parent_fails :: "hmac_fun \<Rightarrow> bool" where
  "test_delegate_cap_revoked_parent_fails hmac \<longleftrightarrow>
     rooted_kernel (\<lambda>k. unwrap_then (revoke_cap k 100) (\<lambda>k.
       some_then (delegate_cap hmac k 100 2 (rights_singleton Read)) (\<lambda>(result, k). is_err result)))"

definition test_delegate_cap_empty_rights_intersection_fails :: "hmac_fun \<Rightarrow> bool" where
  "test_delegate_cap_empty_rights_intersection_fails hmac \<longleftrightarrow>
     rooted_kernel (\<lambda>k. some_then (delegate_cap hmac k 100 2 (rights_singleton Write)) (\<lambda>(result, k). is_err result))"

definition test_alloc_and_free :: bool where
  "test_alloc_and_free \<longleftrightarrow> (let k = kernel_new; (addr, k) = api_alloc k 1 1024 in is_ok (api_free k addr))"

definition test_execute_time_tick :: bool where
  "test_execute_time_tick \<longleftrightarrow>
     (let k = kernel_new; step = StKernelInternal TimeTick
      in unwrap_then (api_execute k step) (\<lambda>k. api_time k = 1))"

section \<open>Both paths\<close>

definition assert_kernels_eq :: "kernel \<Rightarrow> kernel \<Rightarrow> bool" where
  "assert_kernels_eq a b \<longleftrightarrow>
     api_time a = api_time b \<and> api_plugin_count a = api_plugin_count b \<and> api_actor_count a = api_actor_count b
     \<and> api_resource_count a = api_resource_count b \<and> api_workflow_count a = api_workflow_count b"

text \<open>The step on two clones of the kernel, pure and in place, and the comparison.\<close>

definition on_both_paths :: "kernel \<Rightarrow> step \<Rightarrow> (kernel \<Rightarrow> kernel \<Rightarrow> bool) \<Rightarrow> bool" where
  "on_both_paths base step f \<longleftrightarrow>
     unwrap_then (api_execute base step) (\<lambda>k_pure. unwrap_then (api_execute_mut base step) (\<lambda>k_mut.
       assert_kernels_eq k_pure k_mut \<and> f k_pure k_mut))"

definition with_actor :: "kernel \<Rightarrow> actor_runtime \<Rightarrow> (kernel \<Rightarrow> bool) \<Rightarrow> bool" where
  "with_actor k a f = unwrap_then (insert_actor (kn_state k) 1 a) (\<lambda>s. f (k\<lparr>kn_state := s\<rparr>))"

definition test_equiv_time_tick :: bool where
  "test_equiv_time_tick \<longleftrightarrow> on_both_paths kernel_new (StKernelInternal TimeTick) (\<lambda>k_pure k_mut. True)"

definition test_equiv_plugin_internal :: bool where
  "test_equiv_plugin_internal \<longleftrightarrow>
     unwrap_then (register_plugin kernel_new 1 Public 1024) (\<lambda>base. with_actor base (actor_empty 10) (\<lambda>base.
       on_both_paths base (StPluginInternal 1 (internal_with_writes [(0, 64)])) (\<lambda>k_pure k_mut.
         api_plugin_level k_pure 1 = api_plugin_level k_mut 1)))"

definition test_equiv_route_one :: bool where
  "test_equiv_route_one \<longleftrightarrow>
     (let actor = enqueue_pending_mut (actor_empty 10) (message_new 1 2 1 Public [1, 2])
      in with_actor kernel_new actor (\<lambda>base.
           on_both_paths base (StKernelInternal (RouteOne 1)) (\<lambda>k_pure k_mut.
             some_then (get_actor (kn_state k_pure) 1) (\<lambda>a_pure. some_then (get_actor (kn_state k_mut) 1) (\<lambda>a_mut.
               pending_len a_pure = pending_len a_mut \<and> mailbox_len a_pure = mailbox_len a_mut)))))"

definition test_equiv_unblock_send :: bool where
  "test_equiv_unblock_send \<longleftrightarrow>
     (let actor = set_blocked_mut (actor_empty 10) 42
      in with_actor kernel_new actor (\<lambda>base.
           on_both_paths base (StKernelInternal (UnblockSend 1)) (\<lambda>k_pure k_mut.
             some_then (get_actor (kn_state k_pure) 1) (\<lambda>a_pure. some_then (get_actor (kn_state k_mut) 1) (\<lambda>a_mut.
               is_blocked a_pure = is_blocked a_mut \<and> \<not> is_blocked a_pure)))))"

definition test_equiv_mem_free :: bool where
  "test_equiv_mem_free \<longleftrightarrow>
     (let (addr, base) = api_alloc kernel_new 1 256
      in on_both_paths base (StMemFree 1 addr) (\<lambda>k_pure k_mut.
           is_freed (st_ghost (kn_state k_pure)) addr \<and> is_freed (st_ghost (kn_state k_mut)) addr))"

definition test_equiv_cap_revoke :: bool where
  "test_equiv_cap_revoke \<longleftrightarrow>
     unwrap_then (register_plugin kernel_new 1 Public 0) (\<lambda>base. unwrap_then (root_cap 100 42 None) (\<lambda>cap.
     unwrap_then (insert_cap_raw base cap 1) (\<lambda>base.
       on_both_paths base (StCapRevoke 1 100) (\<lambda>k_pure k_mut.
         \<not> api_cap_is_valid k_pure 100 \<and> \<not> api_cap_is_valid k_mut 100))))"

definition test_equiv_cap_revoke_delegation_tree :: bool where
  "test_equiv_cap_revoke_delegation_tree \<longleftrightarrow>
     unwrap_then (register_plugin kernel_new 1 Public 0) (\<lambda>base.
     unwrap_then (root_cap 100 42 None) (\<lambda>cap_root. unwrap_then (insert_cap_raw base cap_root 1) (\<lambda>base.
     unwrap_then (root_cap 101 42 (Some 100)) (\<lambda>cap_child. unwrap_then (insert_cap_raw base cap_child 1) (\<lambda>base.
     unwrap_then (root_cap 102 42 (Some 101)) (\<lambda>cap_grandchild.
     unwrap_then (insert_cap_raw base cap_grandchild 1) (\<lambda>base.
     unwrap_then (root_cap 103 42 None) (\<lambda>cap_unrelated. unwrap_then (insert_cap_raw base cap_unrelated 1) (\<lambda>base.
       on_both_paths base (StCapRevoke 1 100) (\<lambda>k_pure k_mut.
         \<not> api_cap_is_valid k_pure 100 \<and> \<not> api_cap_is_valid k_pure 101 \<and> \<not> api_cap_is_valid k_pure 102
         \<and> api_cap_is_valid k_pure 103
         \<and> \<not> api_cap_is_valid k_mut 100 \<and> \<not> api_cap_is_valid k_mut 101 \<and> \<not> api_cap_is_valid k_mut 102
         \<and> api_cap_is_valid k_mut 103))))))))))"

definition test_equiv_error_paths_match :: bool where
  "test_equiv_error_paths_match \<longleftrightarrow>
     (let (addr, k_pure) = api_alloc kernel_new 1 256
      in unwrap_then (api_free k_pure addr) (\<lambda>k_pure. let k_mut = k_pure; step = StMemFree 1 addr
           in is_err (api_execute k_pure step) \<and> is_err (api_execute_mut k_mut step)))"

lemma kernel_api_tests:
  "test_new_kernel" "test_tick" "test_register_plugin" "test_register_duplicate_plugin" "test_delegate_and_revoke"
  "test_alloc_and_free" "test_execute_time_tick"
  by code_simp+

lemma kernel_path_tests:
  "test_equiv_time_tick" "test_equiv_plugin_internal" "test_equiv_route_one" "test_equiv_unblock_send"
  "test_equiv_mem_free" "test_equiv_cap_revoke" "test_equiv_cap_revoke_delegation_tree"
  "test_equiv_error_paths_match"
  by code_simp+

lemma kernel_delegation_tests:
  "test_delegate_cap_kernel_minted hmac" "test_delegate_cap_revoked_parent_fails hmac"
  "test_delegate_cap_empty_rights_intersection_fails hmac"
  by code_simp+

end
