(* ===== verification/Spec2Isabelle.thy ===== *)
theory Spec2Isabelle
  imports LionWorkflowSpec LionNoninterference LionMessages LionErrors LionSerde LionThread LionQuotas
    LionAnchor LionKernelSpec LionTestRights LionTestTypes LionTestData LionTestKernelState
    LionTestWorkflow LionTestStep LionTestKernel
begin

text \<open>
  A model of \<open>lion-core\<close> (\<open>src/crates/lion-core/src\<close>), the capability kernel of Lion: the state of a
  system of isolated plugins, actors, resources and workflows, the capabilities that guard it, and the
  steps that change it. This root theory only collects the others; its header describes the whole.

  \<^bold>\<open>The program.\<close> A \<open>State\<close> (\<open>state/state.rs\<close>) holds sorted tables of plugins, actors, resources and
  workflows, a ghost history of allocations (\<open>MetaState\<close>), and the \<open>KernelState\<close>: sealing keys, policy,
  the capability table with its revocation state, the clock and the next capability identifier. A
  \<open>Step\<close> (\<open>step/mod.rs\<close>) is an internal step of a plugin, a host call with an authorization witness, a
  kernel operation, or a direct free or revocation. A host call executes after its witness has been
  validated again (\<open>step/authorization.rs\<close>): possession, target, rights, policy, validity, liveness,
  Biba integrity. Every step has two implementations, \<open>execute\<close>, which returns a new state, and
  \<open>execute_mut\<close>, which writes in place. \<open>Kernel\<close> (\<open>kernel.rs\<close>) owns a state and adds registration,
  minting delegation, revocation, allocation and free.

  \<^bold>\<open>Theories\<close>, in the order they build on each other.
  \<^item> \<open>LionPrelude\<close>: word synonyms for the identifier types (\<open>types/identifiers.rs\<close>), Rust's checked and
    saturating arithmetic, \<open>Result\<close> as a sum with \<open>and_then\<close>, \<open>ok_or\<close>, \<open>map_err\<close>, runs of operations, the
    locales \<open>guarded_system\<close> (an invariant kept by a fallible operation holds along runs) and
    \<open>preorder_system\<close> (so does a preorder), \<open>functional_refinement\<close> (a step that commutes with an
    abstraction does so along runs).
  \<^item> \<open>LionVec\<close>: the sorted vectors every table is stored in, with the standard library's binary search
    written out, as key lists and as tables.
  \<^item> \<open>LionRights\<close> (\<open>types/rights.rs\<close>), \<open>LionSecurity\<close> (\<open>types/security.rs\<close>), \<open>LionPolicy\<close>
    (\<open>types/policy.rs\<close>), \<open>LionCap\<close> (\<open>types/capability.rs\<close>, \<open>crypto.rs\<close>): the values the checks are about.
  \<^item> \<open>LionText\<close>, \<open>LionNames\<close>, \<open>LionRightsIter\<close>: the string operations the program uses, on ASCII strings;
    names and parsers of the enumerations and of \<open>types/runtime.rs\<close> against the contract of a parser
    (locale \<open>text_format\<close>, interpreted on all five types); the iterator, operators and printed form of
    rights. \<open>LionSerde\<close>: the hand-written serde implementations, as functions of the external
    serializer and deserializer (locale \<open>wire_format\<close>, which a type with a parser meets through
    \<open>named_wire\<close>).
  \<^item> \<open>LionMemory\<close>, \<open>LionPlugin\<close>, \<open>LionActor\<close>, \<open>LionWorkflow\<close> (files of those names under \<open>state/\<close>): the
    components of the state, each with its invariant. \<open>LionWorkflowLive\<close>: when a workflow can be completed
    and what blocks it for ever. \<open>LionWorkflowSpec\<close>: a specification over a map of node states and the
    edge list, which the operations refine.
  \<^item> \<open>LionRevocation\<close> and \<open>LionKernelState\<close> (\<open>state/kernel.rs\<close>): the capability table with both
    revocation algorithms against one contract (locale \<open>transitive_revocation\<close>, interpreted on the indexed
    and, for ordered identifiers, on the search version); keys, clock, identifiers and the dispatcher.
    \<open>LionCoreSpec\<close>: a specification of the extractable core over maps, sets and natural numbers, which
    the dispatcher refines.
  \<^item> \<open>LionState\<close> (\<open>state/state.rs\<close>): the whole state, its invariant \<open>state_wf\<close>, and the locale
    \<open>state_table\<close>, interpreted on the four tables.
  \<^item> \<open>LionAuth\<close>, \<open>LionStepBase\<close>, \<open>LionHostCall\<close>, \<open>LionStep\<close> (files under \<open>step/\<close>): authorization, the
    preconditions and kernel operations, host calls, and the two execution functions.
  \<^item> \<open>LionSystem\<close>: the abstract transitions \<open>lion_trans\<close> both execution functions refine, the invariant
    and the order \<open>state_progress\<close>, lifted to runs by interpretations of the prelude's locales.
  \<^item> \<open>LionSafety\<close>: runs, isolation, mediation, use after free or revocation, and the refinement between
    the two paths. \<open>LionFlow\<close>: what runs of steps above a level leave invisible below it.
    \<open>LionNoninterference\<close>: the run without the steps above a level ends in the same view at it
    (locale \<open>unwinding\<close>, interpreted on every pair of paths and every level).
    \<open>LionMessages\<close>: what runs do to the messages of an actor. \<open>LionSystemSpec\<close>: a specification of
    the whole system over maps, sets and natural numbers, with the revocation of either path, which
    both execution functions refine.
    \<open>LionGaps\<close>, \<open>LionAuthGaps\<close>: what authorization does not give. \<open>LionQuotas\<close>: what the quotas bound.
  \<^item> \<open>LionKernelApi\<close> and \<open>LionKernelSafety\<close> (\<open>kernel.rs\<close>): the public kernel, the kernels reachable by
    any sequence of its calls, and their invariants (locale \<open>kernel_invariant\<close>). \<open>LionKernelSpec\<close>: the
    specification of the whole kernel, which every sequence of calls on a new kernel refines, with steps
    executed on either path and answers included (locale \<open>server_refinement\<close>). \<open>LionErrors\<close>:
    the messages of all error types (\<open>error.rs\<close> and the \<open>Display\<close> of each), and that the message of a
    state error determines it. \<open>LionThread\<close>, \<open>LionAnchor\<close>: the types of \<open>state/thread.rs\<close> and the
    functions of \<open>extract_anchor.rs\<close>.
  \<^item> \<open>LionTest\<close> and the theories named after it are the conformance part: the 245 unit tests of the
    repository (its \<open>#[cfg(test)]\<close> modules), each a definition of type \<open>bool\<close> over the model with a proof that
    it holds. \<open>LionTestRights\<close> has those of \<open>types/rights.rs\<close>; \<open>LionTestTypes\<close> of policies, capabilities,
    runtime types and seals; \<open>LionTestData\<close> of memory, plugins and actors; \<open>LionTestKernelState\<close> of
    \<open>state/kernel.rs\<close>; \<open>LionTestWorkflow\<close> of workflows; \<open>LionTestState\<close> of the state and of authorization;
    \<open>LionTestStep\<close> of the steps; \<open>LionTestKernel\<close> of \<open>kernel.rs\<close>. They anchor the definitions in the
    behaviour the authors expect of the code. A test over all sets of rights is proved from the laws of
    the operations, a test of a seal for every HMAC, or for every one without collisions.

  \<^bold>\<open>Correspondence.\<close> A struct is a record with the code's fields under a two-letter prefix, an enum a
  datatype with the code's variants (renamed only where a name is taken), an integer a word of its
  width, a \<open>Vec\<close> a list, a \<open>BTreeMap\<close> a table sorted by its keys. A method is a function of the same
  name, prefixed where two types share one. \<open>Result\<close> is a sum with the error on the left, a panic the
  outer \<open>None\<close>. A getter is the record's selector. A pure method that clones and then calls its in-place version is modelled as such. A
  fallible in-place method returns the state only when it succeeds: in all of them every check
  precedes the first write, except \<open>delegate_cap\<close>, which may consume an identifier and fail, and
  therefore returns the kernel with its result.

  \<^bold>\<open>Parameters.\<close> HMAC-SHA-256 is the external crate's: a function argument \<open>hmac\<close>, about which nothing
  is assumed; forging a seal is reduced to a collision. The crate serde and the formats behind it are
  the records \<open>serializer\<close> and \<open>deserializer\<close> of the functions the code calls; what the round trip needs
  of a format is assumed there as \<open>string_law\<close>, \<open>u16_law\<close> and \<open>any_law\<close>, which a tree format meets. A custom policy is the fixed decision its constructor
  carries, as in the code.

  \<^bold>\<open>Bounds and fuel.\<close> \<open>has_ancestor_with_fuel\<close> recurses on the code's own fuel, a \<open>u128\<close>, and the model
  keeps it; what the fuel reaches is stated exactly. The breadth-first walk of \<open>collect_descendants\<close>
  ends because every round adds a new identifier of the index or shortens the queue; no fuel is added.
  Range reads and writes, hashing and searching are total by a measure. Addresses are assumed fewer
  than \<open>2^64\<close> where freshness is stated, because \<open>alloc\<close> casts a count to \<open>u64\<close>.

  \<^bold>\<open>What the lemmas show.\<close> For each component: the invariant and its preservation, the result of every
  operation on each branch (lemmas ending in \<open>_Inr\<close> characterise success, \<open>_eq\<close> the whole function), the
  equality of the in-place version with the pure one. Across components: complete mediation of host
  calls, isolation, noninterference, monotonicity of runs, no use after free or revocation, refinement
  of the pure path by the in-place one, of the core's specification by its dispatcher, of the system's
  specification by both execution functions and of the kernel's by its public calls, attenuation and sealing
  along delegation in reachable kernels. Some properties record behaviour that surprises: they are about
  the code as it is.

  \<^bold>\<open>Not modelled.\<close> The module files re-export names; \<open>export_types\<close> of \<open>extract_anchor.rs\<close> has no body;
  \<open>Debug\<close> is left out except where an error message embeds it and for keys, as are \<open>Hash\<close> and the
  zeroisation of keys. The lines no definition covers are documentation, imports, getters and derives.
  The types of \<open>state/thread.rs\<close>, \<open>LogEvent\<close>, \<open>SymbolicTag\<close> and \<open>Blake3Hash\<close> are declared as in the code
  but no operation uses them. Characters beyond ASCII, capacities
  of vectors and the cost of copies have no counterpart.
\<close>

end
